theory Spec2Isabelle
  imports Main "HOL-Library.Char_ord" "HOL-Library.List_Lexorder" "HOL-Library.Word"
begin

section \<open>The USDA reader of tinyusdz: data model\<close>

text \<open>
  This theory embeds \<^verbatim>\<open>src/usda-reader.cc\<close>: the reader state
  (\<^verbatim>\<open>USDAReader::Impl\<close>), the callbacks it registers with the ASCII parser, the
  metadata decoder, the reconstruction pass and the layer path.

  Conventions.
  \<^item> \<^verbatim>\<open>std::vector\<close> is a list; \<^verbatim>\<open>size_t\<close> indices are \<open>nat\<close>, \<^verbatim>\<open>int64_t\<close>
    indices are \<open>int\<close>. No vector of the reader can reach \<open>2^63\<close> elements, so no
    wrap-around is written out for them.
  \<^item> \<^verbatim>\<open>std::map\<close> is an association list that is walked front to back;
    \<open>map_emplace\<close> is \<^verbatim>\<open>std::map::emplace\<close> on a list sorted by key.
  \<^item> A member function that mutates the reader takes the state and returns the new one.
  \<^item> An out-of-bounds \<^verbatim>\<open>operator[]\<close> on a vector is undefined behaviour in C++; the
    callbacks return \<open>Undefined\<close> there.
\<close>

subsection \<open>Ordered maps\<close>

type_synonym ('k, 'v) std_map = "('k \<times> 'v) list"

fun map_emplace :: "'k::linorder \<Rightarrow> 'v \<Rightarrow> ('k, 'v) std_map \<Rightarrow> ('k, 'v) std_map" where
  "map_emplace k v [] = [(k, v)]"
| "map_emplace k v ((k', v') # m) =
     (if k = k' then (k', v') # m
      else if k < k' then (k, v) # (k', v') # m
      else (k', v') # map_emplace k v m)"

text \<open>\<^verbatim>\<open>m[k] = v\<close>: insert or overwrite.\<close>

fun map_assign :: "'k::linorder \<Rightarrow> 'v \<Rightarrow> ('k, 'v) std_map \<Rightarrow> ('k, 'v) std_map" where
  "map_assign k v [] = [(k, v)]"
| "map_assign k v ((k', v') # m) =
     (if k = k' then (k', v) # m
      else if k < k' then (k, v) # (k', v') # m
      else (k', v') # map_assign k v m)"

subsection \<open>Paths, specifiers, list-edit qualifiers\<close>

text \<open>
  \<^verbatim>\<open>class Path\<close> is declared in \<^verbatim>\<open>prim-types.hh\<close>, which is not under src. The record
  holds what the reader reads from a path: its prim part, its property part and the
  validity flag the constructor computed.
\<close>

record Path =
  prim_part :: string
  prop_part :: string
  valid :: bool

definition is_valid :: "Path \<Rightarrow> bool" where
  "is_valid p = valid p"

text \<open>
  Modelled from the spec: \<^verbatim>\<open>Path::is_absolute_path\<close> and \<^verbatim>\<open>Path::is_root_path\<close>
  (\<^verbatim>\<open>prim-types.hh\<close>) are missing. An absolute path starts with \<^verbatim>\<open>/\<close>, the root path is
  \<^verbatim>\<open>/\<close> alone.
\<close>

definition is_absolute_path :: "Path \<Rightarrow> bool" where
  "is_absolute_path p = (case prim_part p of [] \<Rightarrow> False | c # _ \<Rightarrow> c = CHR ''/'')"

definition is_root_path :: "Path \<Rightarrow> bool" where
  "is_root_path p = (valid p \<and> prim_part p = ''/'')"

text \<open>
  Modelled from the spec: \<^verbatim>\<open>Path::full_path_name\<close> is missing; a path prints as
  \<^verbatim>\<open>/A/B.prop\<close>.
\<close>

definition full_path_name :: "Path \<Rightarrow> string" where
  "full_path_name p = (if prop_part p = [] then prim_part p else prim_part p @ ''.'' @ prop_part p)"

datatype Specifier = Def | Over | Class

datatype ListEditQual = ResetToExplicit | Append | Add | Delete | Prepend | Order | Invalid

fun to_string_ListEditQual :: "ListEditQual \<Rightarrow> string" where
  "to_string_ListEditQual ResetToExplicit = ''''"
| "to_string_ListEditQual Append = ''append''"
| "to_string_ListEditQual Add = ''add''"
| "to_string_ListEditQual Delete = ''delete''"
| "to_string_ListEditQual Prepend = ''prepend''"
| "to_string_ListEditQual Order = ''order''"
| "to_string_ListEditQual Invalid = ''invalid''"

datatype Kind = Subcomponent | Component | KindModel | Group | Assembly | SceneLibrary

datatype APIName = SkelBindingAPI | MaterialBindingAPI | Preliminary_PhysicsMaterialAPI
  | Preliminary_PhysicsRigidBodyAPI | Preliminary_PhysicsColliderAPI

record Reference =
  asset_path :: string
  prim_path :: Path

record Payload =
  pl_asset_path :: string
  pl_prim_path :: Path

record StringData =
  sd_value :: string
  is_triple_quoted :: bool

subsection \<open>Metadata values\<close>

text \<open>
  \<^verbatim>\<open>MetaVariable\<close> wraps a type-erased \<^verbatim>\<open>value::Value\<close>. The constructors are the
  types the reader asks for with \<^verbatim>\<open>get_value<T>()\<close>; \<open>MVOther n\<close> is a value of any
  other type, whose \<^verbatim>\<open>type_name()\<close> is \<open>n\<close>.
\<close>

datatype MetaVariable =
    MVBool bool
  | MVString string
  | MVStringData StringData
  | MVToken string
  | MVTokenArray "string list"
  | MVDict "(string \<times> MetaVariable) list"
  | MVPath Path
  | MVPathArray "Path list"
  | MVStringArray "string list"
  | MVReference Reference
  | MVReferenceArray "Reference list"
  | MVBlock
  | MVOther string

type_synonym CustomDataType = "(string, MetaVariable) std_map"

fun type_name :: "MetaVariable \<Rightarrow> string" where
  "type_name (MVBool _) = ''bool''"
| "type_name (MVString _) = ''string''"
| "type_name (MVStringData _) = ''string''"
| "type_name (MVToken _) = ''token''"
| "type_name (MVTokenArray _) = ''token[]''"
| "type_name (MVDict _) = ''dictionary''"
| "type_name (MVPath _) = ''Path''"
| "type_name (MVPathArray _) = ''Path[]''"
| "type_name (MVStringArray _) = ''string[]''"
| "type_name (MVReference _) = ''ref''"
| "type_name (MVReferenceArray _) = ''ref[]''"
| "type_name MVBlock = ''None''"
| "type_name (MVOther n) = n"

fun get_value_bool :: "MetaVariable \<Rightarrow> bool option" where
  "get_value_bool (MVBool b) = Some b" | "get_value_bool _ = None"

fun get_value_string :: "MetaVariable \<Rightarrow> string option" where
  "get_value_string (MVString s) = Some s" | "get_value_string _ = None"

fun get_value_StringData :: "MetaVariable \<Rightarrow> StringData option" where
  "get_value_StringData (MVStringData s) = Some s" | "get_value_StringData _ = None"

fun get_value_token :: "MetaVariable \<Rightarrow> string option" where
  "get_value_token (MVToken s) = Some s" | "get_value_token _ = None"

fun get_value_token_array :: "MetaVariable \<Rightarrow> string list option" where
  "get_value_token_array (MVTokenArray s) = Some s" | "get_value_token_array _ = None"

fun get_value_CustomDataType :: "MetaVariable \<Rightarrow> CustomDataType option" where
  "get_value_CustomDataType (MVDict d) = Some d" | "get_value_CustomDataType _ = None"

fun get_value_Path :: "MetaVariable \<Rightarrow> Path option" where
  "get_value_Path (MVPath p) = Some p" | "get_value_Path _ = None"

fun get_value_Path_array :: "MetaVariable \<Rightarrow> Path list option" where
  "get_value_Path_array (MVPathArray p) = Some p" | "get_value_Path_array _ = None"

fun get_value_string_array :: "MetaVariable \<Rightarrow> string list option" where
  "get_value_string_array (MVStringArray p) = Some p" | "get_value_string_array _ = None"

fun get_value_Reference :: "MetaVariable \<Rightarrow> Reference option" where
  "get_value_Reference (MVReference r) = Some r" | "get_value_Reference _ = None"

fun get_value_Reference_array :: "MetaVariable \<Rightarrow> Reference list option" where
  "get_value_Reference_array (MVReferenceArray r) = Some r" | "get_value_Reference_array _ = None"

fun get_value_ValueBlock :: "MetaVariable \<Rightarrow> unit option" where
  "get_value_ValueBlock MVBlock = Some ()" | "get_value_ValueBlock _ = None"

fun is_blocked :: "MetaVariable \<Rightarrow> bool" where
  "is_blocked MVBlock = True" | "is_blocked _ = False"

text \<open>\<^verbatim>\<open>var.type_id() == value::TypeTraits<CustomDataType>::type_id()\<close>\<close>

fun type_id_is_CustomDataType :: "MetaVariable \<Rightarrow> bool" where
  "type_id_is_CustomDataType (MVDict _) = True" | "type_id_is_CustomDataType _ = False"

type_synonym PrimMetaMap = "(string, ListEditQual \<times> MetaVariable) std_map"

type_synonym VariantSelectionMap = "(string, string) std_map"

record APISchemas =
  listOpQual :: ListEditQual
  names :: "(APIName \<times> string) list"

record PrimMeta =
  active :: "bool option"
  hidden :: "bool option"
  kind :: "Kind option"
  sceneName :: "string option"
  displayName :: "string option"
  customData :: "CustomDataType option"
  assetInfo :: "CustomDataType option"
  variants :: "VariantSelectionMap option"
  inherits :: "(ListEditQual \<times> Path list) option"
  specializes :: "(ListEditQual \<times> Path list) option"
  variantSets :: "(ListEditQual \<times> string list) option"
  apiSchemas :: "APISchemas option"
  references :: "(ListEditQual \<times> Reference list) option"
  payload :: "(ListEditQual \<times> Payload list) option"
  comment :: "string option"

definition empty_PrimMeta :: PrimMeta where
  "empty_PrimMeta = \<lparr>active = None, hidden = None, kind = None, sceneName = None,
     displayName = None, customData = None, assetInfo = None, variants = None,
     inherits = None, specializes = None, variantSets = None, apiSchemas = None,
     references = None, payload = None, comment = None\<rparr>"

subsection \<open>Properties and the parser's variant blocks\<close>

text \<open>
  The reader forwards properties to the per-schema reconstructors and inspects them only
  in the GeomSubset callback: whether a property is a relationship, and for an attribute
  its variability and whether its value is a token or an \<^verbatim>\<open>int[]\<close>.
\<close>

datatype Variability = Varying | Uniform | Config

datatype AttrValue = AVToken string | AVIntArray "int list" | AVOther string

fun attr_type_name :: "AttrValue \<Rightarrow> string" where
  "attr_type_name (AVToken _) = ''token''"
| "attr_type_name (AVIntArray _) = ''int[]''"
| "attr_type_name (AVOther n) = n"

fun attr_get_value_token :: "AttrValue \<Rightarrow> string option" where
  "attr_get_value_token (AVToken t) = Some t" | "attr_get_value_token _ = None"

fun attr_get_value_int_array :: "AttrValue \<Rightarrow> int list option" where
  "attr_get_value_int_array (AVIntArray t) = Some t" | "attr_get_value_int_array _ = None"

record Attribute =
  attr_var :: AttrValue
  variability :: Variability

datatype Property = Relationship string | Attrib Attribute

fun is_relationship :: "Property \<Rightarrow> bool" where
  "is_relationship (Relationship _) = True" | "is_relationship (Attrib _) = False"

text \<open>
  \<^verbatim>\<open>Property::get_attribute\<close> returns the attribute member, which a relationship holds
  default-constructed.
\<close>

fun get_attribute :: "Property \<Rightarrow> Attribute" where
  "get_attribute (Attrib a) = a"
| "get_attribute (Relationship _) = \<lparr>attr_var = AVOther [], variability = Varying\<rparr>"

type_synonym PropertyMap = "(string, Property) std_map"

type_synonym ReferenceList = "ListEditQual \<times> Reference list"

record VariantContent =
  vc_metas :: PrimMetaMap
  primIndices :: "int list"
  vc_props :: PropertyMap

type_synonym VariantSetList = "(string, (string, VariantContent) std_map) std_map"

subsection \<open>Typed Prims and the intermediate stores\<close>

text \<open>
  The schema types for which \<^verbatim>\<open>Read\<close> registers the generic callback. GeomSubset has a
  callback of its own.
\<close>

datatype PrimType = Model | GPrim | Xform | GeomCube | GeomSphere | GeomCone | GeomPoints
  | GeomCylinder | GeomCapsule | GeomMesh | GeomBasisCurves | GeomCamera | Material | Shader
  | Scope | SphereLight | DomeLight | DiskLight | DistantLight | CylinderLight
  | SkelRoot | Skeleton | SkelAnimation | BlendShape

text \<open>
  \<^verbatim>\<open>PrimTypeTraits<T>::prim_type_name\<close>, the key a callback is registered under. The
  constants \<^verbatim>\<open>kGeomXform\<close>, ... of \<^verbatim>\<open>usdGeom.hh\<close> and \<^verbatim>\<open>usdShade.hh\<close> are not under
  src; they are the USD schema names.
\<close>

fun prim_type_name_of :: "PrimType \<Rightarrow> string" where
  "prim_type_name_of Model = ''Model''"
| "prim_type_name_of GPrim = ''GPrim''"
| "prim_type_name_of Xform = ''Xform''"
| "prim_type_name_of GeomCube = ''Cube''"
| "prim_type_name_of GeomSphere = ''Sphere''"
| "prim_type_name_of GeomCone = ''Cone''"
| "prim_type_name_of GeomPoints = ''Points''"
| "prim_type_name_of GeomCylinder = ''Cylinder''"
| "prim_type_name_of GeomCapsule = ''Capsule''"
| "prim_type_name_of GeomMesh = ''Mesh''"
| "prim_type_name_of GeomBasisCurves = ''BasisCurves''"
| "prim_type_name_of GeomCamera = ''Camera''"
| "prim_type_name_of Material = ''Material''"
| "prim_type_name_of Shader = ''Shader''"
| "prim_type_name_of Scope = ''Scope''"
| "prim_type_name_of SphereLight = ''SphereLight''"
| "prim_type_name_of DomeLight = ''DomeLight''"
| "prim_type_name_of DiskLight = ''DiskLight''"
| "prim_type_name_of DistantLight = ''DistantLight''"
| "prim_type_name_of CylinderLight = ''CylinderLight''"
| "prim_type_name_of SkelRoot = ''SkelRoot''"
| "prim_type_name_of Skeleton = ''Skeleton''"
| "prim_type_name_of SkelAnimation = ''SkelAnimation''"
| "prim_type_name_of BlendShape = ''BlendShape''"

text \<open>
  A typed Prim \<^verbatim>\<open>T prim\<close>: the members the reader writes (\<^verbatim>\<open>name\<close>, \<^verbatim>\<open>spec\<close>,
  \<^verbatim>\<open>meta\<close>, and \<^verbatim>\<open>prim_type_name\<close>, which only \<^verbatim>\<open>Model\<close> has) and the schema-specific
  members \<open>'s\<close>, which only the external reconstructor writes.
\<close>

record 's TypedPrim =
  name :: string
  spec :: Specifier
  meta :: PrimMeta
  prim_type_name :: string
  schema :: 's

record GeomSubset =
  gs_name :: string
  gs_spec :: Specifier
  gs_meta :: PrimMeta
  elementType :: string
  familyType :: string
  familyName :: "string option"
  indices :: "32 word list"

text \<open>\<^verbatim>\<open>value::Value\<close> as the reader uses it: empty, a typed Prim, or a GeomSubset.\<close>

datatype 's Value = NullValue | TypedValue PrimType "'s TypedPrim" | GeomSubsetValue GeomSubset

record VariantNode =
  vn_metas :: PrimMeta
  vn_props :: PropertyMap
  primChildren :: "int list"

record 's PrimNode =
  prim :: "'s Value"
  elementName :: string
  typeName :: string
  parent :: int
  parent_is_variant :: bool
  children :: "nat list"
  variantNodeMap :: "(string, (string, VariantNode) std_map) std_map"

definition default_PrimNode :: "'s PrimNode" where
  "default_PrimNode = \<lparr>prim = NullValue, elementName = [], typeName = [], parent = - 1,
     parent_is_variant = False, children = [], variantNodeMap = []\<rparr>"

text \<open>
  \<^verbatim>\<open>class PrimSpec\<close> (\<^verbatim>\<open>prim-types.hh\<close>) is not under src; the reader writes its name,
  specifier and type name and appends to its children.
\<close>

datatype PrimSpec = PrimSpec (ps_name: string) (specifier: Specifier) (ps_typeName: string)
  (ps_children: "PrimSpec list")

definition default_PrimSpec :: PrimSpec where
  "default_PrimSpec = PrimSpec [] Def [] []"

record PrimSpecNode =
  primSpec :: PrimSpec
  psn_parent :: int
  psn_children :: "nat list"

definition default_PrimSpecNode :: PrimSpecNode where
  "default_PrimSpecNode = \<lparr>primSpec = default_PrimSpec, psn_parent = - 1, psn_children = []\<rparr>"

text \<open>\<^verbatim>\<open>std::vector::resize(n)\<close> with value-initialised new elements.\<close>

definition resize :: "'a \<Rightarrow> nat \<Rightarrow> 'a list \<Rightarrow> 'a list" where
  "resize d n xs = (if n \<le> length xs then take n xs else xs @ replicate (n - length xs) d)"

subsection \<open>The output tree\<close>

datatype 'p Variant = Variant (metas: PrimMeta) (properties: PropertyMap) (v_primChildren: "'p list")

datatype 'p VariantSet = VariantSet (vs_name: string) (variantSet: "(string, 'p Variant) std_map")

text \<open>
  \<^verbatim>\<open>class Prim\<close> (\<^verbatim>\<open>prim-types.hh\<close>) is not under src. The reconstruction pass builds
  it from the node's value and writes its type name, variant sets and children.
\<close>

datatype 's Prim = Prim (data: "'s Value") (p_prim_type_name: string)
  (p_variantSets: "(string, 's Prim VariantSet) std_map") (p_children: "'s Prim list")

subsection \<open>Stage, configuration and the reader state\<close>

datatype Axis = AxisX | AxisY | AxisZ

datatype PlaybackMode = PlaybackModeNone | PlaybackModeLoop

text \<open>A \<^verbatim>\<open>double\<close> of the stage metadata. The reader only copies it.\<close>

typedecl double

text \<open>\<^verbatim>\<open>ascii::AsciiParser::StageMetas\<close>, what the parser hands to the stage-metadata callback.\<close>

record ParserStageMetas =
  pm_doc :: StringData
  pm_upAxis :: "Axis option"
  pm_comment :: StringData
  pm_subLayers :: "string list"
  pm_defaultPrim :: string
  pm_metersPerUnit :: "double option"
  pm_timeCodesPerSecond :: "double option"
  pm_startTimeCode :: "double option"
  pm_endTimeCode :: "double option"
  pm_framesPerSecond :: "double option"
  pm_autoPlay :: "bool option"
  pm_playbackMode :: "string option"
  pm_customLayerData :: CustomDataType

text \<open>
  \<^verbatim>\<open>StageMetas\<close> of the Stage. A member the callback assigns only when the parser has a
  value is an option here: \<open>None\<close> is the member's initial state.
\<close>

record StageMetas =
  sm_doc :: StringData
  sm_upAxis :: "Axis option"
  sm_comment :: StringData
  sm_subLayers :: "string list"
  sm_defaultPrim :: string
  sm_metersPerUnit :: "double option"
  sm_timeCodesPerSecond :: "double option"
  sm_startTimeCode :: "double option"
  sm_endTimeCode :: "double option"
  sm_framesPerSecond :: "double option"
  sm_autoPlay :: "bool option"
  sm_playbackMode :: "PlaybackMode option"
  sm_customLayerData :: CustomDataType

definition default_StageMetas :: StageMetas where
  "default_StageMetas = \<lparr>sm_doc = \<lparr>sd_value = [], is_triple_quoted = False\<rparr>, sm_upAxis = None,
     sm_comment = \<lparr>sd_value = [], is_triple_quoted = False\<rparr>, sm_subLayers = [],
     sm_defaultPrim = [], sm_metersPerUnit = None, sm_timeCodesPerSecond = None,
     sm_startTimeCode = None, sm_endTimeCode = None, sm_framesPerSecond = None,
     sm_autoPlay = None, sm_playbackMode = None, sm_customLayerData = []\<rparr>"

record 's Stage =
  stage_metas :: StageMetas
  root_prims :: "'s Prim list"

record Layer =
  prim_specs :: "PrimSpec list"

record USDAReaderConfig =
  allow_unknown_prims :: bool
  allow_unknown_apiSchema :: bool

datatype LoadState = Toplevel | Sublayer | Reference | Payload

text \<open>
  The members of \<^verbatim>\<open>USDAReader::Impl\<close> that the code under src reads or writes, with their
  in-class initialisers: \<^verbatim>\<open>_primspec_invalidated{true}\<close>.
\<close>

record 's Impl =
  stage :: "'s Stage"
  base_dir :: string
  err :: string
  warn :: string
  toplevel_prims :: "nat list"
  prim_nodes :: "'s PrimNode list"
  toplevel_primspecs :: "nat list"
  primspec_nodes :: "PrimSpecNode list"
  primspec_invalidated :: bool
  config :: USDAReaderConfig

definition init_Impl :: "'s Impl" where
  "init_Impl = \<lparr>stage = \<lparr>stage_metas = default_StageMetas, root_prims = []\<rparr>, base_dir = [],
     err = [], warn = [], toplevel_prims = [], prim_nodes = [], toplevel_primspecs = [],
     primspec_nodes = [], primspec_invalidated = True,
     config = \<lparr>allow_unknown_prims = True, allow_unknown_apiSchema = True\<rparr>\<rparr>"

definition SetBaseDir :: "string \<Rightarrow> 's Impl \<Rightarrow> 's Impl" where
  "SetBaseDir str s = s\<lparr>base_dir := str\<rparr>"

definition set_reader_config :: "USDAReaderConfig \<Rightarrow> 's Impl \<Rightarrow> 's Impl" where
  "set_reader_config c s = s\<lparr>config := c\<rparr>"

definition PushError :: "string \<Rightarrow> 's Impl \<Rightarrow> 's Impl" where
  "PushError msg s = s\<lparr>err := err s @ msg\<rparr>"

definition PushWarn :: "string \<Rightarrow> 's Impl \<Rightarrow> 's Impl" where
  "PushWarn msg s = s\<lparr>err := err s @ msg\<rparr>"

definition GetError :: "'s Impl \<Rightarrow> string" where
  "GetError s = err s"

definition GetWarning :: "'s Impl \<Rightarrow> string" where
  "GetWarning s = warn s"

definition GetStage :: "'s Impl \<Rightarrow> 's Stage" where
  "GetStage s = stage s"

text \<open>
  The macros \<^verbatim>\<open>PUSH_ERROR_AND_RETURN\<close>, \<^verbatim>\<open>PUSH_ERROR_AND_RETURN_TAG\<close> and \<^verbatim>\<open>PUSH_WARN\<close>
  are defined in \<^verbatim>\<open>common-macros.inc\<close>, which is not under src. They format a message and
  hand it to \<^verbatim>\<open>PushError\<close> or \<^verbatim>\<open>PushWarn\<close>; the first two then return \<^verbatim>\<open>false\<close>. The
  decoration they add to the message (file, function, line) is left out.
\<close>

definition kTag :: string where
  "kTag = ''[USDA]''"

definition PUSH_ERROR_TAG :: "string \<Rightarrow> string \<Rightarrow> 's Impl \<Rightarrow> 's Impl" where
  "PUSH_ERROR_TAG tag msg s = PushError (tag @ '' '' @ msg) s"

subsection \<open>The prim-index allocator\<close>

text \<open>
  The callback of \<^verbatim>\<open>RegisterPrimIdxAssignCallback\<close>: the result is the index and the new
  state. The parent index is not read.
\<close>

definition PrimIdxAssign :: "int \<Rightarrow> 's Impl \<Rightarrow> nat \<times> 's Impl" where
  "PrimIdxAssign parentPrimIdx s =
     (let idx = length (prim_nodes s)
      in (idx, s\<lparr>prim_nodes := resize default_PrimNode (idx + 1) (prim_nodes s)\<rparr>))"

text \<open>A run of allocator calls, one per parent index, collecting the results.\<close>

fun PrimIdxAssign_calls :: "int list \<Rightarrow> 's Impl \<Rightarrow> nat list \<times> 's Impl" where
  "PrimIdxAssign_calls [] s = ([], s)"
| "PrimIdxAssign_calls (p # ps) s =
     (case PrimIdxAssign p s of (i, s') \<Rightarrow>
        (case PrimIdxAssign_calls ps s' of (is, s'') \<Rightarrow> (i # is, s'')))"

section \<open>The metadata decoder\<close>

text \<open>Decimal printing of an index, for the \<^verbatim>\<open>fmt::format\<close> of a diagnostic.\<close>

definition digit_char :: "nat \<Rightarrow> char" where
  "digit_char d = ''0123456789'' ! d"

fun to_string_nat :: "nat \<Rightarrow> string" where
  "to_string_nat n =
     (if n < 10 then [digit_char n] else to_string_nat (n div 10) @ [digit_char (n mod 10)])"

definition to_string_int :: "int \<Rightarrow> string" where
  "to_string_int i = (if 0 \<le> i then to_string_nat (nat i) else CHR ''-'' # to_string_nat (nat (- i)))"

text \<open>
  \<^verbatim>\<open>quote\<close> and \<^verbatim>\<open>join\<close> are declared in \<^verbatim>\<open>str-util.hh\<close>, which is not under src. They only
  build the text of a diagnostic; here \<open>quote\<close> puts double quotes around a token and
  \<open>join\<close> puts the separator between the tokens.
\<close>

definition quote :: "string \<Rightarrow> string" where
  "quote s = [CHR 0x22] @ s @ [CHR 0x22]"

fun join :: "string \<Rightarrow> string list \<Rightarrow> string" where
  "join sep [] = []"
| "join sep [x] = x"
| "join sep (x # y # xs) = x @ sep @ join sep (y # xs)"

definition CheckAllowedTokens :: "('e \<times> string) list \<Rightarrow> string \<Rightarrow> string + bool" where
  "CheckAllowedTokens allowedTokens tok =
     (if allowedTokens = [] then Inr True
      else if \<exists>e \<in> set allowedTokens. tok = snd e then Inr True
      else Inl (''Allowed tokens are ['' @ join '', '' (map (quote \<circ> snd) allowedTokens)
                 @ ''] but got '' @ quote tok @ ''.''))"

fun EnumHandler_find :: "string \<Rightarrow> ('e \<times> string) list \<Rightarrow> 'e option" where
  "EnumHandler_find tok [] = None"
| "EnumHandler_find tok (item # enums) =
     (if tok = snd item then Some (fst item) else EnumHandler_find tok enums)"

definition EnumHandler :: "string \<Rightarrow> string \<Rightarrow> ('e \<times> string) list \<Rightarrow> string + 'e" where
  "EnumHandler prop_name tok enums =
     (case CheckAllowedTokens enums tok of
        Inl e \<Rightarrow> Inl e
      | Inr _ \<Rightarrow>
          (case EnumHandler_find tok enums of
             Some v \<Rightarrow> Inr v
           | None \<Rightarrow> Inl (quote tok @ '' is an invalid token for attribute `'' @ prop_name @ ''`'')))"

definition ApiSchemaHandler :: "string \<Rightarrow> string + APIName" where
  "ApiSchemaHandler tok = EnumHandler ''apiSchemas'' tok
     [(SkelBindingAPI, ''SkelBindingAPI''),
      (MaterialBindingAPI, ''MaterialBindingAPI''),
      (Preliminary_PhysicsMaterialAPI, ''Preliminary_PhysicsMaterialAPI''),
      (Preliminary_PhysicsRigidBodyAPI, ''Preliminary_PhysicsRigidBodyAPI''),
      (Preliminary_PhysicsColliderAPI, ''Preliminary_PhysicsColliderAPI'')]"

text \<open>
  The lambda \<^verbatim>\<open>BuildVariants\<close>: the loop over the dictionary, with the map built so far.
  Its diagnostic also prints the numeric type id of the value, \<^verbatim>\<open>(type_id N)\<close>, between the
  type name and the final full stop; the ids are constants of \<^verbatim>\<open>value-types.hh\<close>, which is
  not under src, and the text here is without that part.
\<close>

fun BuildVariants_loop :: "CustomDataType \<Rightarrow> VariantSelectionMap \<Rightarrow> string + VariantSelectionMap" where
  "BuildVariants_loop [] m = Inr m"
| "BuildVariants_loop (item # dict) m =
     (case get_value_string (snd item) of
        Some pv \<Rightarrow> BuildVariants_loop dict (map_assign (fst item) pv m)
      | None \<Rightarrow>
          (case get_value_StringData (snd item) of
             Some pvs \<Rightarrow> BuildVariants_loop dict (map_assign (fst item) (sd_value pvs) m)
           | None \<Rightarrow> Inl (''TinyUSDZ only accepts `string` value for `variants` element, but got type `''
                           @ type_name (snd item) @ ''`.'')))"

definition BuildVariants :: "CustomDataType \<Rightarrow> string + VariantSelectionMap" where
  "BuildVariants dict = BuildVariants_loop dict []"

text \<open>The loop over the tokens of \<^verbatim>\<open>apiSchemas\<close>: an unknown name is warned about and dropped.\<close>

fun apiSchemas_loop :: "string list \<Rightarrow> APISchemas \<Rightarrow> 's Impl \<Rightarrow> APISchemas \<times> 's Impl" where
  "apiSchemas_loop [] a s = (a, s)"
| "apiSchemas_loop (item # items) a s =
     (case ApiSchemaHandler item of
        Inr v \<Rightarrow> apiSchemas_loop items (a\<lparr>names := names a @ [(v, [])]\<rparr>) s
      | Inl e \<Rightarrow> apiSchemas_loop items a (PushWarn (''(PrimMeta) '' @ e) s))"

definition to_Payload :: "Reference \<Rightarrow> Payload" where
  "to_Payload r = \<lparr>pl_asset_path = asset_path r, pl_prim_path = prim_path r\<rparr>"

text \<open>
  One iteration of the loop of \<^verbatim>\<open>ReconstructPrimMeta\<close> over \<^verbatim>\<open>in_meta\<close>: the result is
  \<open>False\<close> where the source returns \<^verbatim>\<open>false\<close>, with \<^verbatim>\<open>*out\<close> and the reader as they are
  at that point.
\<close>

definition ReconstructPrimMeta_item ::
  "string \<Rightarrow> ListEditQual \<Rightarrow> MetaVariable \<Rightarrow> PrimMeta \<Rightarrow> 's Impl \<Rightarrow> bool \<times> PrimMeta \<times> 's Impl" where
  "ReconstructPrimMeta_item key listEditQual var out s =
    (if key = ''active'' then
       (if type_name var = ''bool'' then
          (case get_value_bool var of
             Some pv \<Rightarrow> (True, out\<lparr>active := Some pv\<rparr>, s)
           | None \<Rightarrow> (False, out, PushError ''(Internal error?) `active` metadataum is not type `bool`.'' s))
        else (False, out, PushError (''(Internal error?) `active` metadataum is not type `bool`. got `''
                @ type_name var @ ''`.'') s))
     else if key = ''hidden'' then
       (if type_name var = ''bool'' then
          (case get_value_bool var of
             Some pv \<Rightarrow> (True, out\<lparr>hidden := Some pv\<rparr>, s)
           | None \<Rightarrow> (False, out, PushError ''(Internal error?) `hidden` metadataum is not type `bool`.'' s))
        else (False, out, PushError (''(Internal error?) `hidden` metadataum is not type `bool`. got `''
                @ type_name var @ ''`.'') s))
     else if key = ''sceneName'' then
       (if type_name var = ''string'' then
          (case get_value_string var of
             Some pv \<Rightarrow> (True, out\<lparr>sceneName := Some pv\<rparr>, s)
           | None \<Rightarrow> (False, out, PushError ''(Internal error?) `sceneName` metadataum is not type `string`.'' s))
        else (False, out, PushError (''(Internal error?) `sceneName` metadataum is not type `string`. got `''
                @ type_name var @ ''`.'') s))
     else if key = ''displayName'' then
       (if type_name var = ''string'' then
          (case get_value_string var of
             Some pv \<Rightarrow> (True, out\<lparr>displayName := Some pv\<rparr>, s)
           | None \<Rightarrow> (False, out, PushError ''(Internal error?) `displayName` metadataum is not type `string`.'' s))
        else (False, out, PushError (''(Internal error?) `displayName` metadataum is not type `string`. got `''
                @ type_name var @ ''`.'') s))
     else if key = ''kind'' then
       (if type_name var = ''token'' then
          (case get_value_token var of
             Some tok \<Rightarrow>
               (if tok = ''subcomponent'' then (True, out\<lparr>kind := Some Subcomponent\<rparr>, s)
                else if tok = ''component'' then (True, out\<lparr>kind := Some Component\<rparr>, s)
                else if tok = ''model'' then (True, out\<lparr>kind := Some KindModel\<rparr>, s)
                else if tok = ''group'' then (True, out\<lparr>kind := Some Group\<rparr>, s)
                else if tok = ''assembly'' then (True, out\<lparr>kind := Some Assembly\<rparr>, s)
                else if tok = ''sceneLibrary'' then (True, out\<lparr>kind := Some SceneLibrary\<rparr>, s)
                else (False, out, PushError ''Invalid token for `kind` metadataum.'' s))
           | None \<Rightarrow> (False, out, PushError ''(Internal error?) `kind` metadataum is not type `token`.'' s))
        else (False, out, PushError (''(Internal error?) `kind` metadataum is not type `token`. got `''
                @ type_name var @ ''`.'') s))
     else if key = ''customData'' then
       (if type_id_is_CustomDataType var then
          (case get_value_CustomDataType var of
             Some pv \<Rightarrow> (True, out\<lparr>customData := Some pv\<rparr>, s)
           | None \<Rightarrow> (False, out, PUSH_ERROR_TAG kTag
                (''(Internal error?) `customData` metadataum is not type `dictionary`. got type `''
                 @ type_name var @ ''`'') s))
        else (False, out, PushError
                (''(Internal error?) `customData` metadataum is not type `dictionary`. got type `''
                 @ type_name var @ ''`'') s))
     else if key = ''assetInfo'' then
       (case get_value_CustomDataType var of
          Some pv \<Rightarrow> (True, out\<lparr>assetInfo := Some pv\<rparr>, s)
        | None \<Rightarrow> (False, out, PUSH_ERROR_TAG kTag
             (''(Internal error?) `assetInfo` metadataum is not type `dictionary`. got type `''
              @ type_name var @ ''`'') s))
     else if key = ''variants'' then
       (case get_value_CustomDataType var of
          Some pv \<Rightarrow>
            (case BuildVariants pv of
               Inl e \<Rightarrow> (False, out, PushError e s)
             | Inr pm \<Rightarrow> (True, out\<lparr>variants := Some pm\<rparr>, s))
        | None \<Rightarrow> (False, out, PushError
             (''(Internal error?) `variants` metadataum is not type `dictionary`. got type `''
              @ type_name var @ ''`'') s))
     else if key = ''inherits'' then
       (case get_value_ValueBlock var of
          Some _ \<Rightarrow> (True, out\<lparr>inherits := Some (listEditQual, [])\<rparr>, s)
        | None \<Rightarrow>
            (case get_value_Path_array var of
               Some pv \<Rightarrow> (True, out\<lparr>inherits := Some (listEditQual, pv)\<rparr>, s)
             | None \<Rightarrow>
                 (case get_value_Path var of
                    Some pvp \<Rightarrow> (True, out\<lparr>inherits := Some (listEditQual, [pvp])\<rparr>, s)
                  | None \<Rightarrow> (False, out, PushError
                       (''(Internal error?) `inherits` metadataum should be either `path` or `path[]`. got type `''
                        @ type_name var @ ''`'') s))))
     else if key = ''specializes'' then
       (case get_value_ValueBlock var of
          Some _ \<Rightarrow> (True, out\<lparr>specializes := Some (listEditQual, [])\<rparr>, s)
        | None \<Rightarrow>
            (case get_value_Path_array var of
               Some pv \<Rightarrow> (True, out\<lparr>specializes := Some (listEditQual, pv)\<rparr>, s)
             | None \<Rightarrow>
                 (case get_value_Path var of
                    Some pvp \<Rightarrow> (True, out\<lparr>specializes := Some (listEditQual, [pvp])\<rparr>, s)
                  | None \<Rightarrow> (False, out, PushError
                       (''(Internal error?) `specializes` metadataum should be either `path` or `path[]`. got type `''
                        @ type_name var @ ''`'') s))))
     else if key = ''variantSets'' then
       (case get_value_ValueBlock var of
          Some _ \<Rightarrow> (True, out\<lparr>variantSets := Some (listEditQual, [])\<rparr>, s)
        | None \<Rightarrow>
            (case get_value_StringData var of
               Some pv \<Rightarrow> (True, out\<lparr>variantSets := Some (listEditQual, [sd_value pv])\<rparr>, s)
             | None \<Rightarrow>
                 (case get_value_string var of
                    Some pvs \<Rightarrow> (True, out\<lparr>variantSets := Some (listEditQual, [pvs])\<rparr>, s)
                  | None \<Rightarrow>
                      (case get_value_string_array var of
                         Some pva \<Rightarrow> (True, out\<lparr>variantSets := Some (listEditQual, pva)\<rparr>, s)
                       | None \<Rightarrow> (False, out, PushError
                            (''(Internal error?) `variantSets` metadataum is not type `string` or `string[]`. got type `''
                             @ type_name var @ ''`'') s)))))
     else if key = ''apiSchemas'' then
       (if type_name var = ''token[]'' then
          (if listEditQual \<noteq> Prepend \<and> listEditQual \<noteq> ResetToExplicit then
             (False, out, PushError
                (''(PrimMeta) ListEdit op for `apiSchemas` must be empty or `prepend` in TinyUSDZ, but got `''
                 @ to_string_ListEditQual listEditQual @ ''`'') s)
           else
             (case get_value_token_array var of
                Some pv \<Rightarrow>
                  (case apiSchemas_loop pv \<lparr>listOpQual = listEditQual, names = []\<rparr> s of
                     (a, s') \<Rightarrow> (True, out\<lparr>apiSchemas := Some a\<rparr>, s'))
              | None \<Rightarrow> (False, out, PUSH_ERROR_TAG kTag
                   (''(Internal error?) `apiSchemas` metadataum is not type `token[]`. got type `''
                    @ type_name var @ ''`'') s)))
        else (False, out, PUSH_ERROR_TAG kTag
                (''(Internal error?) `apiSchemas` metadataum is not type `token[]`. got type `''
                 @ type_name var @ ''`'') s))
     else if key = ''references'' then
       (if is_blocked var then (True, out\<lparr>references := Some (listEditQual, [])\<rparr>, s)
        else
          (case get_value_Reference var of
             Some pv \<Rightarrow> (True, out\<lparr>references := Some (listEditQual, [pv])\<rparr>, s)
           | None \<Rightarrow>
               (case get_value_Reference_array var of
                  Some pva \<Rightarrow> (True, out\<lparr>references := Some (listEditQual, pva)\<rparr>, s)
                | None \<Rightarrow> (False, out, PushError
                     (''(Internal error?) `references` metadataum is not type `path` or `path[]`. got type `''
                      @ type_name var @ ''`'') s))))
     else if key = ''payload'' then
       (if is_blocked var then (True, out\<lparr>payload := Some (listEditQual, [])\<rparr>, s)
        else
          (case get_value_Reference var of
             Some pv \<Rightarrow> (True, out\<lparr>payload := Some (listEditQual, [to_Payload pv])\<rparr>, s)
           | None \<Rightarrow>
               (case get_value_Reference_array var of
                  Some pva \<Rightarrow> (True, out\<lparr>payload := Some (listEditQual, map to_Payload pva)\<rparr>, s)
                | None \<Rightarrow> (False, out, PushError
                     (''(Internal error?) `references` metadataum is not type `path` or `path[]`. got type `''
                      @ type_name var @ ''`'') s))))
     else if key = ''comment'' then
       (case get_value_StringData var of
          Some pv \<Rightarrow> (True, out\<lparr>comment := Some (sd_value pv)\<rparr>, s)
        | None \<Rightarrow>
            (case get_value_string var of
               Some spv \<Rightarrow> (True, out\<lparr>comment := Some spv\<rparr>, s)
             | None \<Rightarrow> (True, out, s)))
     else (True, out, PushWarn (''TODO: Prim metadataum : '' @ key) s))"

fun ReconstructPrimMeta :: "PrimMetaMap \<Rightarrow> PrimMeta \<Rightarrow> 's Impl \<Rightarrow> bool \<times> PrimMeta \<times> 's Impl" where
  "ReconstructPrimMeta [] out s = (True, out, s)"
| "ReconstructPrimMeta (m # in_meta) out s =
     (case ReconstructPrimMeta_item (fst m) (fst (snd m)) (snd (snd m)) out s of
        (ok, out', s') \<Rightarrow>
          if ok then ReconstructPrimMeta in_meta out' s' else (False, out', s'))"

section \<open>The callbacks registered with the parser\<close>

subsection \<open>External collaborators\<close>

text \<open>
  Functions the reader calls and src does not hold. They are parameters of the model.
  \<^item> \<open>ext_ReconstructPrim\<close>: \<^verbatim>\<open>prim::ReconstructPrim<T>(properties, references, &prim,
    &_warn, &err)\<close> of \<^verbatim>\<open>prim-reconstruct.cc\<close>; from the Prim and the warning string as
    they are it gives the result, the Prim and the warning string as it leaves them, and
    the error text.
  \<^item> \<open>default_schema\<close>: the schema-specific members of a default-constructed \<^verbatim>\<open>T\<close>.
  \<^item> \<open>get_parent_prim_path\<close>: \<^verbatim>\<open>Path::get_parent_prim_path\<close>.
  \<^item> \<open>SetElementType\<close>, \<open>SetFamilyType\<close>: the setters of \<^verbatim>\<open>GeomSubset\<close>, which return
    an error text or the updated subset.
  \<^item> \<open>compute_absolute_prim_path_and_assign_prim_id\<close>: the member of \<^verbatim>\<open>Stage\<close>.
\<close>

record 's Collab =
  ext_ReconstructPrim :: "PrimType \<Rightarrow> PropertyMap \<Rightarrow> ReferenceList \<Rightarrow> 's TypedPrim \<Rightarrow> string
                            \<Rightarrow> bool \<times> 's TypedPrim \<times> string \<times> string"
  default_schema :: "PrimType \<Rightarrow> 's"
  get_parent_prim_path :: "Path \<Rightarrow> Path"
  SetElementType :: "string \<Rightarrow> GeomSubset \<Rightarrow> string + GeomSubset"
  SetFamilyType :: "string \<Rightarrow> GeomSubset \<Rightarrow> string + GeomSubset"
  compute_absolute_prim_path_and_assign_prim_id :: "'s Stage \<Rightarrow> 's Stage"

subsection \<open>Arguments and results\<close>

text \<open>The arguments the parser passes to a prim-construct or PrimSpec callback.\<close>

record PrimArgs =
  full_path :: Path
  a_spec :: Specifier
  primTypeName :: string
  prim_name :: Path
  primIdx :: int
  parentPrimIdx :: int
  a_properties :: PropertyMap
  in_meta :: PrimMetaMap
  in_variants :: VariantSetList

text \<open>
  What a callback of type \<^verbatim>\<open>nonstd::expected<bool, std::string>\<close> does: it returns an
  error text, it returns a bool, or it runs into undefined behaviour (an out-of-bounds
  \<^verbatim>\<open>operator[]\<close>).
\<close>

datatype cb_result = Unexpected string | Expected bool | Undefined

subsection \<open>\<^verbatim>\<open>Impl::ReconstructPrim<T>\<close>\<close>

definition ReconstructPrim ::
  "'s Collab \<Rightarrow> PrimType \<Rightarrow> PropertyMap \<Rightarrow> ReferenceList \<Rightarrow> 's TypedPrim \<Rightarrow> 's Impl
     \<Rightarrow> bool \<times> 's TypedPrim \<times> 's Impl" where
  "ReconstructPrim X T props refs p s =
     (if T = GPrim then (True, p, PushWarn ''TODO: Reconstruct GPrim.'' s)
      else
        (case ext_ReconstructPrim X T props refs p (warn s) of
           (ok, p', w', e) \<Rightarrow>
             if \<not> ok then
               (False, p', PushError
                  (if T = Xform then ''Failed to reconstruct Xform Prim: '' @ e
                   else ''Failed to reconstruct '' @ prim_type_name_of T @ '' Prim: '' @ e)
                  (s\<lparr>warn := w'\<rparr>))
             else (True, p', s\<lparr>warn := w'\<rparr>)))"

subsection \<open>The generic typed callback, \<^verbatim>\<open>RegisterReconstructCallback<T>\<close>\<close>

text \<open>The loop over \<^verbatim>\<open>item.second.primIndices\<close>.\<close>

fun variant_primIndices_loop ::
  "int list \<Rightarrow> VariantNode \<Rightarrow> 's Impl \<Rightarrow> (string + VariantNode) \<times> 's Impl" where
  "variant_primIndices_loop [] v s = (Inr v, s)"
| "variant_primIndices_loop (childPrimIdx # cs) v s =
     (if childPrimIdx < 0 then
        (Inl ''[InternalError] Invalid primIndex found within VariantSet.'', s)
      else if nat childPrimIdx \<ge> length (prim_nodes s) then
        (Inl (''[InternalError] Invalid primIndex found within VariantSet. variantChildPrimIdsx ''
              @ to_string_int childPrimIdx @ '' Exceeds _prim_nodes.size() ''
              @ to_string_nat (length (prim_nodes s))), s)
      else variant_primIndices_loop cs (v\<lparr>primChildren := primChildren v @ [childPrimIdx]\<rparr>)
             (s\<lparr>prim_nodes := (prim_nodes s)[nat childPrimIdx :=
                   (prim_nodes s ! nat childPrimIdx)\<lparr>parent_is_variant := True\<rparr>]\<rparr>))"

text \<open>The loop over the variants of one variant set.\<close>

fun variantContext_loop ::
  "string \<Rightarrow> (string, VariantContent) std_map \<Rightarrow> (string, VariantNode) std_map \<Rightarrow> 's Impl
     \<Rightarrow> (string + (string, VariantNode) std_map) \<times> 's Impl" where
  "variantContext_loop variant_name [] variantNodes s = (Inr variantNodes, s)"
| "variantContext_loop variant_name (item # items) variantNodes s =
     (case ReconstructPrimMeta (vc_metas (snd item)) empty_PrimMeta s of
        (ok, m, s1) \<Rightarrow>
          if \<not> ok then
            (Inl (''Failed to process Prim metadataum in variantSet '' @ variant_name @ '' item ''
                  @ fst item @ '' ''), s1)
          else
            (case variant_primIndices_loop (primIndices (snd item))
                    \<lparr>vn_metas = m, vn_props = vc_props (snd item), primChildren = []\<rparr> s1 of
               (Inl e, s2) \<Rightarrow> (Inl e, s2)
             | (Inr variant, s2) \<Rightarrow>
                 variantContext_loop variant_name items (map_emplace (fst item) variant variantNodes) s2))"

text \<open>The loop over \<^verbatim>\<open>in_variants\<close>.\<close>

fun in_variants_loop ::
  "VariantSetList \<Rightarrow> (string, (string, VariantNode) std_map) std_map \<Rightarrow> 's Impl
     \<Rightarrow> (string + (string, (string, VariantNode) std_map) std_map) \<times> 's Impl" where
  "in_variants_loop [] vsets s = (Inr vsets, s)"
| "in_variants_loop (variantContext # rest) vsets s =
     (case variantContext_loop (fst variantContext) (snd variantContext) [] s of
        (Inl e, s1) \<Rightarrow> (Inl e, s1)
      | (Inr variantNodes, s1) \<Rightarrow>
          in_variants_loop rest (map_emplace (fst variantContext) variantNodes vsets) s1)"

text \<open>
  The end of the callback: the index goes to the top-level list when the parent is
  \<open>-1\<close>, else to \<^verbatim>\<open>_prim_nodes[size_t(parentPrimIdx)].children\<close>, which is out of bounds
  for a parent that is negative or not below the size of the store.
\<close>

definition link_to_parent :: "nat \<Rightarrow> int \<Rightarrow> 's Impl \<Rightarrow> cb_result \<times> 's Impl" where
  "link_to_parent idx parentIdx s =
     (if parentIdx = - 1 then (Expected True, s\<lparr>toplevel_prims := toplevel_prims s @ [idx]\<rparr>)
      else if parentIdx < 0 \<or> nat parentIdx \<ge> length (prim_nodes s) then (Undefined, s)
      else (Expected True,
            s\<lparr>prim_nodes := (prim_nodes s)[nat parentIdx :=
                 (prim_nodes s ! nat parentIdx)\<lparr>children := children (prim_nodes s ! nat parentIdx) @ [idx]\<rparr>]\<rparr>))"

definition grow_prim_nodes :: "nat \<Rightarrow> 's Impl \<Rightarrow> 's Impl" where
  "grow_prim_nodes idx s =
     (if idx \<ge> length (prim_nodes s)
      then s\<lparr>prim_nodes := resize default_PrimNode (idx + 1) (prim_nodes s)\<rparr> else s)"

definition update_prim_node :: "nat \<Rightarrow> ('s PrimNode \<Rightarrow> 's PrimNode) \<Rightarrow> 's Impl \<Rightarrow> 's Impl" where
  "update_prim_node idx f s = s\<lparr>prim_nodes := (prim_nodes s)[idx := f (prim_nodes s ! idx)]\<rparr>"

definition default_TypedPrim :: "'s Collab \<Rightarrow> PrimType \<Rightarrow> 's TypedPrim" where
  "default_TypedPrim X T = \<lparr>name = [], spec = Def, meta = empty_PrimMeta, prim_type_name = [],
     schema = default_schema X T\<rparr>"

text \<open>
  The end of the callback, from \<^verbatim>\<open>_prim_nodes.resize\<close> on: the node at \<^verbatim>\<open>primIdx\<close> gets the
  Prim, the type name and the variant map; a \<^verbatim>\<open>Model\<close> gets the type name as its
  \<^verbatim>\<open>prim_type_name\<close>; then the parent is recorded and the index is linked.
\<close>

definition store_typed_prim ::
  "PrimType \<Rightarrow> 's TypedPrim \<Rightarrow> string \<Rightarrow> (string, (string, VariantNode) std_map) std_map \<Rightarrow> nat \<Rightarrow> int
     \<Rightarrow> 's Impl \<Rightarrow> cb_result \<times> 's Impl" where
  "store_typed_prim T p tn vsets idx parentIdx s =
     (let s1 = grow_prim_nodes idx s;
          s2 = update_prim_node idx (\<lambda>n. n\<lparr>prim := TypedValue T p\<rparr>) s1;
          s3 = update_prim_node idx (\<lambda>n. n\<lparr>typeName := tn\<rparr>) s2;
          s4 = update_prim_node idx (\<lambda>n. n\<lparr>variantNodeMap := vsets\<rparr>) s3;
          s5 = update_prim_node idx
                 (\<lambda>n. case prim n of
                         TypedValue Model model \<Rightarrow>
                           n\<lparr>prim := TypedValue Model (model\<lparr>prim_type_name := tn\<rparr>)\<rparr>
                       | _ \<Rightarrow> n) s4;
          s6 = update_prim_node idx (\<lambda>n. n\<lparr>parent := parentIdx\<rparr>) s5
      in link_to_parent idx parentIdx s6)"

definition PrimConstruct :: "'s Collab \<Rightarrow> PrimType \<Rightarrow> PrimArgs \<Rightarrow> 's Impl \<Rightarrow> cb_result \<times> 's Impl" where
  "PrimConstruct X T a s =
     (if \<not> is_valid (prim_name a) then
        (Unexpected (''Invalid Prim name: '' @ full_path_name (prim_name a)), s)
      else if is_absolute_path (prim_name a) \<or> is_root_path (prim_name a) then
        (Unexpected (''Prim name should not starts with '' @ [CHR 0x27] @ ''/'' @ [CHR 0x27]
                     @ '' or contain `/`: Prim name = ''
                     @ full_path_name (prim_name a)), s)
      else if prop_part (prim_name a) \<noteq> [] then
        (Unexpected (''Prim path should not contain property part(`.`): Prim name = ''
                     @ full_path_name (prim_name a)), s)
      else if primIdx a < 0 then
        (Unexpected ''Unexpected primIdx value. primIdx must be positive.'', s)
      else
        (case ReconstructPrimMeta (in_meta a) (meta (default_TypedPrim X T)) s of
           (ok, m, s1) \<Rightarrow>
             if \<not> ok then (Unexpected ''Failed to process Prim metadataum.'', s1)
             else
               (let prim0 = (default_TypedPrim X T)\<lparr>meta := m\<rparr>;
                    refs = (case references m of Some r \<Rightarrow> r | None \<Rightarrow> (ResetToExplicit, []))
                in case ReconstructPrim X T (a_properties a) refs prim0 s1 of
                     (ret, prim1, s2) \<Rightarrow>
                       if \<not> ret then
                         (Unexpected (''Failed to reconstruct Prim: '' @ full_path_name (prim_name a)), s2)
                       else
                         (let prim2 = prim1\<lparr>spec := a_spec a, name := prim_part (prim_name a)\<rparr>
                          in case in_variants_loop (in_variants a) [] s2 of
                               (Inl e, s3) \<Rightarrow> (Unexpected e, s3)
                             | (Inr vsets, s3) \<Rightarrow>
                                 store_typed_prim T prim2 (primTypeName a) vsets (nat (primIdx a))
                                   (parentPrimIdx a) s3))))"

subsection \<open>The GeomSubset callback, \<^verbatim>\<open>RegisterReconstructCallback<GeomSubset>\<close>\<close>

definition default_GeomSubset :: GeomSubset where
  "default_GeomSubset = \<lparr>gs_name = [], gs_spec = Def, gs_meta = empty_PrimMeta, elementType = [],
     familyType = [], familyName = None, indices = []\<rparr>"

text \<open>
  The loop over the properties. \<^verbatim>\<open>PUSH_ERROR_AND_RETURN\<close> makes the lambda return
  \<^verbatim>\<open>false\<close>, which is the first component here.
\<close>

fun GeomSubset_properties_loop ::
  "'s Collab \<Rightarrow> PropertyMap \<Rightarrow> GeomSubset \<Rightarrow> 's Impl \<Rightarrow> bool \<times> GeomSubset \<times> 's Impl" where
  "GeomSubset_properties_loop X [] gsub s = (True, gsub, s)"
| "GeomSubset_properties_loop X (item # items) gsub s =
     (if fst item = ''elementType'' then
        (if is_relationship (snd item) then
           (False, gsub, PushError ''`elementType` property as Relation is not supported.'' s)
         else
           (case attr_get_value_token (attr_var (get_attribute (snd item))) of
              Some pv \<Rightarrow>
                if variability (get_attribute (snd item)) = Uniform then
                  (case SetElementType X pv gsub of
                     Inl e \<Rightarrow> (False, gsub, PushError e s)
                   | Inr gsub' \<Rightarrow> GeomSubset_properties_loop X items gsub' s)
                else (False, gsub, PushError ''`elementType` property must be `uniform token` type.'' s)
            | None \<Rightarrow> (False, gsub, PushError ''`elementType` property must be `uniform token` type.'' s)))
      else if fst item = ''familyType'' then
        (if is_relationship (snd item) then
           (False, gsub, PushError ''`familyType` property as Relation is not supported.'' s)
         else
           (case attr_get_value_token (attr_var (get_attribute (snd item))) of
              Some pv \<Rightarrow>
                if variability (get_attribute (snd item)) = Uniform then
                  (case SetFamilyType X pv gsub of
                     Inl e \<Rightarrow> (False, gsub, PushError e s)
                   | Inr gsub' \<Rightarrow> GeomSubset_properties_loop X items gsub' s)
                else (False, gsub, PushError ''`familyType` property must be `uniform token` type.'' s)
            | None \<Rightarrow> (False, gsub, PushError ''`familyType` property must be `uniform token` type.'' s)))
      else if fst item = ''indices'' then
        (if is_relationship (snd item) then
           (False, gsub, PushError ''`indices` property as Relation is not supported.'' s)
         else
           (case attr_get_value_int_array (attr_var (get_attribute (snd item))) of
              Some pv \<Rightarrow>
                GeomSubset_properties_loop X items
                  (gsub\<lparr>indices := indices gsub @ map word_of_int pv\<rparr>) s
            | None \<Rightarrow>
                (False, gsub, PushError
                   (''`indices` property must be `int[]` type, but got `''
                    @ attr_type_name (attr_var (get_attribute (snd item))) @ ''`'') s)))
      else if fst item = ''material:binding'' then
        (if \<not> is_relationship (snd item) then
           (False, gsub, PushError ''`material:binding` property as Attribute is not supported.'' s)
         else GeomSubset_properties_loop X items gsub s)
      else if fst item = ''familyName'' then
        (if is_relationship (snd item) then
           (False, gsub, PushError ''`familyName` property as Relation is not supported.'' s)
         else
           (case attr_get_value_token (attr_var (get_attribute (snd item))) of
              Some pv \<Rightarrow> GeomSubset_properties_loop X items (gsub\<lparr>familyName := Some pv\<rparr>) s
            | None \<Rightarrow>
                (False, gsub, PushError
                   (''`familyName` property must be `token` type, but got `''
                    @ attr_type_name (attr_var (get_attribute (snd item))) @ ''`'') s)))
      else GeomSubset_properties_loop X items gsub
             (PushWarn (''GeomSubset: TODO: '' @ fst item) s))"

text \<open>
  This callback does not test \<^verbatim>\<open>primIdx\<close>. For a negative one, \<^verbatim>\<open>size_t(primIdx) + 1\<close>
  is \<open>0\<close> (for \<open>-1\<close>) or beyond any size a vector can have, and the access
  \<^verbatim>\<open>_prim_nodes[size_t(primIdx)]\<close> that follows is out of bounds: \<open>Undefined\<close>.
\<close>

definition GeomSubsetConstruct :: "'s Collab \<Rightarrow> PrimArgs \<Rightarrow> 's Impl \<Rightarrow> cb_result \<times> 's Impl" where
  "GeomSubsetConstruct X a s =
     (if \<not> is_valid (get_parent_prim_path X (full_path a)) then (Unexpected ''Invalid Prim path.'', s)
      else if parentPrimIdx a < 0 then
        (Unexpected ''GeomSubset muet be defined as a child of GeomMesh.'', s)
      else if length (prim_nodes s) < nat (parentPrimIdx a) then
        (Unexpected ''Unexpected parentPrimIdx for GeomSubset.'', s)
      else
        (case ReconstructPrimMeta (in_meta a) empty_PrimMeta s of
           (ok, m, s1) \<Rightarrow>
             if \<not> ok then (Unexpected ''Failed to process Prim metadataum.'', s1)
             else
               (case GeomSubset_properties_loop X (a_properties a) default_GeomSubset s1 of
                  (ok2, gsub, s2) \<Rightarrow>
                    if \<not> ok2 then (Expected False, s2)
                    else if primIdx a < 0 then (Undefined, s2)
                    else
                      (let gsub' = gsub\<lparr>gs_name := prim_part (prim_name a), gs_spec := a_spec a,
                                              gs_meta := m\<rparr>;
                           idx = nat (primIdx a);
                           s3 = grow_prim_nodes idx s2;
                           s4 = update_prim_node idx (\<lambda>n. n\<lparr>prim := GeomSubsetValue gsub'\<rparr>) s3;
                           s5 = update_prim_node idx (\<lambda>n. n\<lparr>parent := parentPrimIdx a\<rparr>) s4
                       in link_to_parent idx (parentPrimIdx a) s5))))"

subsection \<open>The PrimSpec callback, \<^verbatim>\<open>RegisterPrimSpecHandler\<close>\<close>

definition grow_primspec_nodes :: "nat \<Rightarrow> 's Impl \<Rightarrow> 's Impl" where
  "grow_primspec_nodes idx s =
     (if idx \<ge> length (primspec_nodes s)
      then s\<lparr>primspec_nodes := resize default_PrimSpecNode (idx + 1) (primspec_nodes s)\<rparr> else s)"

definition update_primspec_node :: "nat \<Rightarrow> (PrimSpecNode \<Rightarrow> PrimSpecNode) \<Rightarrow> 's Impl \<Rightarrow> 's Impl" where
  "update_primspec_node idx f s =
     s\<lparr>primspec_nodes := (primspec_nodes s)[idx := f (primspec_nodes s ! idx)]\<rparr>"

definition PrimSpecConstruct :: "PrimArgs \<Rightarrow> 's Impl \<Rightarrow> cb_result \<times> 's Impl" where
  "PrimSpecConstruct a s =
     (if \<not> is_valid (prim_name a) then
        (Unexpected (''Invalid Prim name: '' @ full_path_name (prim_name a)), s)
      else if is_absolute_path (prim_name a) \<or> is_root_path (prim_name a) then
        (Unexpected (''Prim name should not starts with '' @ [CHR 0x27] @ ''/'' @ [CHR 0x27]
                     @ '' or contain `/`: Prim name = ''
                     @ full_path_name (prim_name a)), s)
      else if prop_part (prim_name a) \<noteq> [] then
        (Unexpected (''Prim path should not contain property part(`.`): Prim name = ''
                     @ full_path_name (prim_name a)), s)
      else if primIdx a < 0 then
        (Unexpected ''Unexpected primIdx value. primIdx must be positive.'', s)
      else if prim_part (prim_name a) = [] then
        (Unexpected (''Prim'' @ [CHR 0x27] @ ''s name should not be empty ''), s)
      else
        (let primspec = PrimSpec (prim_part (prim_name a)) (a_spec a) (primTypeName a)
                          (ps_children default_PrimSpec);
             idx = nat (primIdx a);
             s1 = grow_primspec_nodes idx s;
             s2 = update_primspec_node idx (\<lambda>n. n\<lparr>primSpec := primspec\<rparr>) s1;
             s3 = update_primspec_node idx (\<lambda>n. n\<lparr>psn_parent := parentPrimIdx a\<rparr>) s2
         in if parentPrimIdx a = - 1 then
              (Expected True, s3\<lparr>toplevel_primspecs := toplevel_primspecs s3 @ [idx]\<rparr>)
            else if parentPrimIdx a < 0 \<or> nat (parentPrimIdx a) \<ge> length (primspec_nodes s3) then
              (Undefined, s3)
            else
              (Expected True,
               update_primspec_node (nat (parentPrimIdx a))
                 (\<lambda>n. n\<lparr>psn_children := psn_children n @ [idx]\<rparr>) s3)))"

subsection \<open>The stage-metadata callback, \<^verbatim>\<open>StageMetaProcessor\<close>\<close>

definition update_stage_metas :: "(StageMetas \<Rightarrow> StageMetas) \<Rightarrow> 's Impl \<Rightarrow> 's Impl" where
  "update_stage_metas f s = s\<lparr>stage := (stage s)\<lparr>stage_metas := f (stage_metas (stage s))\<rparr>\<rparr>"

definition StageMetaProcess :: "ParserStageMetas \<Rightarrow> 's Impl \<Rightarrow> bool \<times> 's Impl" where
  "StageMetaProcess ms s =
     (let s1 = update_stage_metas (\<lambda>m. m\<lparr>sm_doc := pm_doc ms\<rparr>) s;
          s2 = (case pm_upAxis ms of Some v \<Rightarrow> update_stage_metas (\<lambda>m. m\<lparr>sm_upAxis := Some v\<rparr>) s1
                | None \<Rightarrow> s1);
          s3 = update_stage_metas (\<lambda>m. m\<lparr>sm_comment := pm_comment ms\<rparr>) s2;
          s4 = (if pm_subLayers ms \<noteq> []
                then update_stage_metas (\<lambda>m. m\<lparr>sm_subLayers := pm_subLayers ms\<rparr>) s3 else s3);
          s5 = update_stage_metas (\<lambda>m. m\<lparr>sm_defaultPrim := pm_defaultPrim ms\<rparr>) s4;
          s6 = (case pm_metersPerUnit ms of
                  Some v \<Rightarrow> update_stage_metas (\<lambda>m. m\<lparr>sm_metersPerUnit := Some v\<rparr>) s5 | None \<Rightarrow> s5);
          s7 = (case pm_timeCodesPerSecond ms of
                  Some v \<Rightarrow> update_stage_metas (\<lambda>m. m\<lparr>sm_timeCodesPerSecond := Some v\<rparr>) s6 | None \<Rightarrow> s6);
          s8 = (case pm_startTimeCode ms of
                  Some v \<Rightarrow> update_stage_metas (\<lambda>m. m\<lparr>sm_startTimeCode := Some v\<rparr>) s7 | None \<Rightarrow> s7);
          s9 = (case pm_endTimeCode ms of
                  Some v \<Rightarrow> update_stage_metas (\<lambda>m. m\<lparr>sm_endTimeCode := Some v\<rparr>) s8 | None \<Rightarrow> s8);
          s10 = (case pm_framesPerSecond ms of
                  Some v \<Rightarrow> update_stage_metas (\<lambda>m. m\<lparr>sm_framesPerSecond := Some v\<rparr>) s9 | None \<Rightarrow> s9);
          s11 = (case pm_autoPlay ms of
                  Some v \<Rightarrow> update_stage_metas (\<lambda>m. m\<lparr>sm_autoPlay := Some v\<rparr>) s10 | None \<Rightarrow> s10)
      in case pm_playbackMode ms of
           None \<Rightarrow> (True, update_stage_metas (\<lambda>m. m\<lparr>sm_customLayerData := pm_customLayerData ms\<rparr>) s11)
         | Some tok \<Rightarrow>
             if tok = ''none'' then
               (True, update_stage_metas (\<lambda>m. m\<lparr>sm_customLayerData := pm_customLayerData ms\<rparr>)
                        (update_stage_metas (\<lambda>m. m\<lparr>sm_playbackMode := Some PlaybackModeNone\<rparr>) s11))
             else if tok = ''loop'' then
               (True, update_stage_metas (\<lambda>m. m\<lparr>sm_customLayerData := pm_customLayerData ms\<rparr>)
                        (update_stage_metas (\<lambda>m. m\<lparr>sm_playbackMode := Some PlaybackModeLoop\<rparr>) s11))
             else (False, PushError (''Unsupported playbackMode: '' @ tok) s11))"

section \<open>The reconstruction pass\<close>

text \<open>
  \<^verbatim>\<open>ConstructPrimTreeRec\<close> calls itself for every variant child and every ordinary child.
  Nothing in it bounds the depth: on a store in which a node is its own descendant it does
  not return. The model takes fuel, the depth of calls it may use, and is \<open>None\<close> when
  the fuel runs out. Otherwise it is \<open>Inl msg\<close> when the source returns \<^verbatim>\<open>false\<close> with
  \<^verbatim>\<open>*err = msg\<close> and \<open>Inr p\<close> when it returns \<^verbatim>\<open>true\<close> with \<^verbatim>\<open>*destPrim = p\<close>.

  The loops take the recursive call as \<open>rec\<close>; \<open>vis\<close> is the set
  \<^verbatim>\<open>variantChildrenIndices\<close>, local to one call of \<^verbatim>\<open>ConstructPrimTreeRec\<close>.
\<close>

text \<open>The loop over \<^verbatim>\<open>item.second.primChildren\<close>, filling \<^verbatim>\<open>variant.primChildren()\<close>.\<close>

fun variant_primChildren_loop ::
  "(nat \<Rightarrow> (string + 's Prim) option) \<Rightarrow> nat \<Rightarrow> int list \<Rightarrow> int set \<Rightarrow> 's Prim list
     \<Rightarrow> (string + int set \<times> 's Prim list) option" where
  "variant_primChildren_loop rec sz [] vis acc = Some (Inr (vis, acc))"
| "variant_primChildren_loop rec sz (vidx # rest) vis acc =
     (if vidx \<in> vis then
        Some (Inl (''variant primIdx '' @ to_string_int vidx @ '' is referenced multiple times.'' @ [CHR 0x0A]))
      else if vidx \<ge> 0 \<and> nat vidx \<le> sz then
        (case rec (nat vidx) of
           None \<Rightarrow> None
         | Some (Inl e) \<Rightarrow> Some (Inl e)
         | Some (Inr variantChildPrim) \<Rightarrow>
             variant_primChildren_loop rec sz rest (insert vidx vis) (acc @ [variantChildPrim]))
      else Some (Inl (''primIndex exceeds prim_nodes.size()'' @ [CHR 0x0A])))"

text \<open>The loop over the variants of one variant set, filling \<^verbatim>\<open>variantSet\<close>.\<close>

fun variantNodes_loop ::
  "(nat \<Rightarrow> (string + 's Prim) option) \<Rightarrow> nat \<Rightarrow> string \<Rightarrow> (string, VariantNode) std_map \<Rightarrow> int set
     \<Rightarrow> 's Prim VariantSet \<Rightarrow> (string + int set \<times> 's Prim VariantSet) option" where
  "variantNodes_loop rec sz vsn [] vis vset = Some (Inr (vis, vset))"
| "variantNodes_loop rec sz vsn (item # items) vis vset =
     (case variant_primChildren_loop rec sz (primChildren (snd item)) vis [] of
        None \<Rightarrow> None
      | Some (Inl e) \<Rightarrow> Some (Inl e)
      | Some (Inr (vis', pc)) \<Rightarrow>
          variantNodes_loop rec sz vsn items vis'
            (VariantSet vsn
               (map_emplace (fst item) (Variant (vn_metas (snd item)) (vn_props (snd item)) pc)
                  (variantSet vset))))"

text \<open>The loop over \<^verbatim>\<open>node.variantNodeMap\<close>, filling \<^verbatim>\<open>variantSets\<close>.\<close>

fun variantNodeMap_loop ::
  "(nat \<Rightarrow> (string + 's Prim) option) \<Rightarrow> nat \<Rightarrow> (string, (string, VariantNode) std_map) std_map
     \<Rightarrow> int set \<Rightarrow> (string, 's Prim VariantSet) std_map
     \<Rightarrow> (string + int set \<times> (string, 's Prim VariantSet) std_map) option" where
  "variantNodeMap_loop rec sz [] vis vsets = Some (Inr (vis, vsets))"
| "variantNodeMap_loop rec sz (variantNodes # rest) vis vsets =
     (case variantNodes_loop rec sz (fst variantNodes) (snd variantNodes) vis (VariantSet [] []) of
        None \<Rightarrow> None
      | Some (Inl e) \<Rightarrow> Some (Inl e)
      | Some (Inr (vis', vset)) \<Rightarrow>
          variantNodeMap_loop rec sz rest vis' (map_emplace (fst variantNodes) vset vsets))"

text \<open>The loop over \<^verbatim>\<open>node.children\<close>, filling \<^verbatim>\<open>prim.children()\<close>.\<close>

fun children_loop ::
  "(nat \<Rightarrow> (string + 's Prim) option) \<Rightarrow> nat list \<Rightarrow> int set \<Rightarrow> 's Prim list
     \<Rightarrow> (string + 's Prim list) option" where
  "children_loop rec [] vis acc = Some (Inr acc)"
| "children_loop rec (cidx # rest) vis acc =
     (if int cidx \<in> vis then children_loop rec rest vis acc
      else
        (case rec cidx of
           None \<Rightarrow> None
         | Some (Inl e) \<Rightarrow> Some (Inl e)
         | Some (Inr childPrim) \<Rightarrow> children_loop rec rest vis (acc @ [childPrim])))"

text \<open>\<open>destPrim_null\<close> is \<^verbatim>\<open>destPrim == nullptr\<close>.\<close>

primrec ConstructPrimTreeRec ::
  "nat \<Rightarrow> nat \<Rightarrow> 's PrimNode list \<Rightarrow> bool \<Rightarrow> (string + 's Prim) option" where
  "ConstructPrimTreeRec 0 primIndex nodes destPrim_null = None"
| "ConstructPrimTreeRec (Suc fuel) primIndex nodes destPrim_null =
     (if destPrim_null then Some (Inl (''`destPrim` is nullptr.'' @ [CHR 0x0A]))
      else if primIndex \<ge> length nodes then
        Some (Inl (''primIndex exceeds prim_nodes.size()'' @ [CHR 0x0A]))
      else
        (let node = nodes ! primIndex
         in case variantNodeMap_loop (\<lambda>i. ConstructPrimTreeRec fuel i nodes False) (length nodes)
                   (variantNodeMap node) {} [] of
              None \<Rightarrow> None
            | Some (Inl e) \<Rightarrow> Some (Inl e)
            | Some (Inr (vis, vsets)) \<Rightarrow>
                (case children_loop (\<lambda>i. ConstructPrimTreeRec fuel i nodes False) (children node) vis [] of
                   None \<Rightarrow> None
                 | Some (Inl e) \<Rightarrow> Some (Inl e)
                 | Some (Inr ch) \<Rightarrow> Some (Inr (Prim (prim node) (typeName node) vsets ch)))))"

text \<open>
  The loop of \<^verbatim>\<open>ReconstructStage\<close> over \<^verbatim>\<open>_toplevel_prims\<close>. A failing call has written
  its message into \<^verbatim>\<open>_err\<close> (an assignment, not an append).
\<close>

fun toplevel_prims_loop :: "nat \<Rightarrow> nat list \<Rightarrow> 's Impl \<Rightarrow> (bool \<times> 's Impl) option" where
  "toplevel_prims_loop fuel [] s = Some (True, s)"
| "toplevel_prims_loop fuel (idx # rest) s =
     (case ConstructPrimTreeRec fuel idx (prim_nodes s) False of
        None \<Rightarrow> None
      | Some (Inl e) \<Rightarrow> Some (False, s\<lparr>err := e\<rparr>)
      | Some (Inr p) \<Rightarrow>
          toplevel_prims_loop fuel rest
            (s\<lparr>stage := (stage s)\<lparr>root_prims := root_prims (stage s) @ [p]\<rparr>\<rparr>))"

definition ReconstructStage :: "'s Collab \<Rightarrow> nat \<Rightarrow> 's Impl \<Rightarrow> (bool \<times> 's Impl) option" where
  "ReconstructStage X fuel s =
     (case toplevel_prims_loop fuel (toplevel_prims s) (s\<lparr>stage := (stage s)\<lparr>root_prims := []\<rparr>\<rparr>) of
        None \<Rightarrow> None
      | Some (ok, s') \<Rightarrow>
          if ok then Some (True, s'\<lparr>stage := compute_absolute_prim_path_and_assign_prim_id X (stage s')\<rparr>)
          else Some (False, s'))"

section \<open>The layer path\<close>

text \<open>
  \<^verbatim>\<open>ToPrimSpecRec(node, primspec_nodes, parent)\<close>: \<open>nidx\<close> is the index of \<^verbatim>\<open>node\<close> in
  the store and \<open>ridx\<close> the index of the node whose \<^verbatim>\<open>primSpec\<close> is \<^verbatim>\<open>parent\<close>; every
  call passes \<^verbatim>\<open>parent\<close> on unchanged, and \<^verbatim>\<open>GetAsLayer\<close> starts with \<^verbatim>\<open>node.primSpec\<close> itself
  as \<^verbatim>\<open>parent\<close>. The store is threaded through, so that the aliasing of \<^verbatim>\<open>node\<close> and
  \<^verbatim>\<open>parent\<close> is kept. \<^verbatim>\<open>std::move\<close> is read as a copy: what it leaves in the source object
  is not specified. Fuel as in \<open>ConstructPrimTreeRec\<close>.
\<close>

fun ToPrimSpecRec_children_loop ::
  "(nat \<Rightarrow> PrimSpecNode list \<Rightarrow> (bool \<times> PrimSpecNode list) option) \<Rightarrow> nat list \<Rightarrow> PrimSpecNode list
     \<Rightarrow> (bool \<times> PrimSpecNode list) option" where
  "ToPrimSpecRec_children_loop rec [] nodes = Some (True, nodes)"
| "ToPrimSpecRec_children_loop rec (cidx # rest) nodes =
     (if cidx \<ge> length nodes then Some (False, nodes)
      else
        (case rec cidx nodes of
           None \<Rightarrow> None
         | Some (ok, nodes') \<Rightarrow>
             if ok then ToPrimSpecRec_children_loop rec rest nodes' else Some (False, nodes')))"

definition append_child :: "PrimSpec \<Rightarrow> PrimSpec \<Rightarrow> PrimSpec" where
  "append_child c p = PrimSpec (ps_name p) (specifier p) (ps_typeName p) (ps_children p @ [c])"

primrec ToPrimSpecRec ::
  "nat \<Rightarrow> nat \<Rightarrow> nat \<Rightarrow> PrimSpecNode list \<Rightarrow> (bool \<times> PrimSpecNode list) option" where
  "ToPrimSpecRec 0 nidx ridx nodes = None"
| "ToPrimSpecRec (Suc fuel) nidx ridx nodes =
     (case ToPrimSpecRec_children_loop (\<lambda>c ns. ToPrimSpecRec fuel c ridx ns)
             (psn_children (nodes ! nidx)) nodes of
        None \<Rightarrow> None
      | Some (ok, nodes') \<Rightarrow>
          if \<not> ok then Some (False, nodes')
          else Some (True,
                 nodes'[ridx := (nodes' ! ridx)\<lparr>primSpec :=
                          append_child (primSpec (nodes' ! nidx)) (primSpec (nodes' ! ridx))\<rparr>]))"

text \<open>The loop of \<^verbatim>\<open>GetAsLayer\<close> over \<^verbatim>\<open>_toplevel_primspecs\<close>.\<close>

fun toplevel_primspecs_loop :: "nat \<Rightarrow> nat list \<Rightarrow> Layer \<Rightarrow> 's Impl \<Rightarrow> (bool \<times> Layer \<times> 's Impl) option" where
  "toplevel_primspecs_loop fuel [] l s = Some (True, l, s\<lparr>primspec_invalidated := True\<rparr>)"
| "toplevel_primspecs_loop fuel (idx # rest) l s =
     (if idx \<ge> length (primspec_nodes s) then
        Some (False, l, PushError ''[Internal Error] out-of-bounds access.'' s)
      else
        (case ToPrimSpecRec fuel idx idx (primspec_nodes s) of
           None \<Rightarrow> None
         | Some (ok, nodes') \<Rightarrow>
             if \<not> ok then
               Some (False, l, PushError ''Construct PrimSpec tree failed.''
                                 (s\<lparr>primspec_nodes := nodes', primspec_invalidated := True\<rparr>))
             else
               toplevel_primspecs_loop fuel rest
                 (l\<lparr>prim_specs := prim_specs l @ [primSpec (nodes' ! idx)]\<rparr>)
                 (s\<lparr>primspec_nodes := nodes'\<rparr>)))"

text \<open>
  \<^verbatim>\<open>GetAsLayer(Layer *layer)\<close>: \<open>None\<close> as the argument is \<^verbatim>\<open>nullptr\<close>. The result is the
  returned bool, the layer behind the pointer and the reader; \<open>None\<close> as the result is a
  run out of fuel.
\<close>

definition GetAsLayer :: "nat \<Rightarrow> Layer option \<Rightarrow> 's Impl \<Rightarrow> (bool \<times> Layer option \<times> 's Impl) option" where
  "GetAsLayer fuel layer s =
     (case layer of
        None \<Rightarrow> Some (False, None, PushError ''layer arg is nullptr.'' s)
      | Some l \<Rightarrow>
          if primspec_invalidated s then
            Some (False, Some l, PushError
              ''PrimSpec data is invalid. USD data is not loaded or there was an error in earlier GetAsLayer call, or GetAsLayer invoked multiple times.'' s)
          else
            (case toplevel_primspecs_loop fuel (toplevel_primspecs s) (l\<lparr>prim_specs := []\<rparr>) s of
               None \<Rightarrow> None
             | Some (ok, l', s') \<Rightarrow> Some (ok, Some l', s')))"

section \<open>\<^verbatim>\<open>Read\<close> and the parser\<close>

record AsciiParserOption =
  allow_unknown_prim :: bool
  opt_allow_unknown_apiSchema :: bool

text \<open>
  The typed callbacks in the order in which \<^verbatim>\<open>Read\<close> registers them; the GeomSubset
  callback is registered under the name \<^verbatim>\<open>GeomSubset\<close>.
\<close>

definition registered_types :: "PrimType list" where
  "registered_types = [Model, GPrim, Xform, GeomCube, GeomSphere, GeomCone, GeomPoints,
     GeomCylinder, GeomCapsule, GeomMesh, GeomBasisCurves, GeomCamera, Material, Shader, Scope,
     SphereLight, DomeLight, DiskLight, DistantLight, CylinderLight, SkelRoot, Skeleton,
     SkelAnimation, BlendShape]"

definition registered_callback ::
  "'s Collab \<Rightarrow> string \<Rightarrow> (PrimArgs \<Rightarrow> 's Impl \<Rightarrow> cb_result \<times> 's Impl) option" where
  "registered_callback X tn =
     (if tn = ''GeomSubset'' then Some (GeomSubsetConstruct X)
      else (case find (\<lambda>T. prim_type_name_of T = tn) registered_types of
              Some T \<Rightarrow> Some (PrimConstruct X T)
            | None \<Rightarrow> None))"

text \<open>
  What the parser does while it runs, as far as the reader sees it: the callbacks it
  invokes, in order, and a syntax error at which it gives up.
\<close>

datatype ParserEvent =
    StageMetaEvent ParserStageMetas
  | PrimIdxAssignEvent int
  | PrimEvent PrimArgs
  | SyntaxErrorEvent string

text \<open>
  Modelled from the spec: the ASCII parser (\<^verbatim>\<open>ascii-parser.cc\<close>) is missing. For a Prim
  it invokes one callback: the PrimSpec callback when the load state is not Toplevel, else
  the typed callback registered under the Prim's type name, else, when
  \<^verbatim>\<open>allow_unknown_prim\<close> is set, the callback of \<^verbatim>\<open>Model\<close> with the type name as it was
  declared; otherwise it reports the unknown type.
\<close>

definition parser_construct_prim ::
  "'s Collab \<Rightarrow> LoadState \<Rightarrow> AsciiParserOption \<Rightarrow> PrimArgs \<Rightarrow> 's Impl \<Rightarrow> cb_result \<times> 's Impl" where
  "parser_construct_prim X st opt a s =
     (if st \<noteq> Toplevel then PrimSpecConstruct a s
      else (case registered_callback X (primTypeName a) of
              Some cb \<Rightarrow> cb a s
            | None \<Rightarrow>
                if allow_unknown_prim opt then PrimConstruct X Model a s
                else (Unexpected (''Unknown Prim type: '' @ primTypeName a), s)))"

text \<open>
  Modelled from the spec: \<^verbatim>\<open>AsciiParser::Parse\<close> is missing. It invokes the callbacks in
  order and gives up at the first one that fails or at a syntax error. The result is the
  returned bool (\<open>None\<close> when a callback ran into undefined behaviour), the parser's
  warning and error strings, and the reader.
\<close>

fun Parse ::
  "'s Collab \<Rightarrow> LoadState \<Rightarrow> AsciiParserOption \<Rightarrow> ParserEvent list \<Rightarrow> string \<Rightarrow> string \<Rightarrow> 's Impl
     \<Rightarrow> (bool option \<times> string \<times> string) \<times> 's Impl" where
  "Parse X st opt [] pw pe s = ((Some True, pw, pe), s)"
| "Parse X st opt (StageMetaEvent ms # evs) pw pe s =
     (case StageMetaProcess ms s of
        (ok, s') \<Rightarrow>
          if ok then Parse X st opt evs pw pe s'
          else ((Some False, pw, pe @ ''Failed to process Stage metadata.''), s'))"
| "Parse X st opt (PrimIdxAssignEvent p # evs) pw pe s =
     Parse X st opt evs pw pe (snd (PrimIdxAssign p s))"
| "Parse X st opt (PrimEvent a # evs) pw pe s =
     (case parser_construct_prim X st opt a s of
        (Unexpected e, s') \<Rightarrow> ((Some False, pw, pe @ e), s')
      | (Undefined, s') \<Rightarrow> ((None, pw, pe), s')
      | (Expected b, s') \<Rightarrow>
          if b then
            Parse X st opt evs
              (if st = Toplevel \<and> registered_callback X (primTypeName a) = None
               then pw @ ''Unknown Prim type: '' @ primTypeName a else pw) pe s'
          else ((Some False, pw, pe @ ''Failed to construct Prim.''), s'))"
| "Parse X st opt (SyntaxErrorEvent e # evs) pw pe s = ((Some False, pw, pe @ e), s)"

text \<open>
  \<^verbatim>\<open>Impl::Read\<close>. Registering the callbacks changes the parser only. \<open>evs\<close> is what
  the parser finds in its stream.
\<close>

definition Read :: "'s Collab \<Rightarrow> LoadState \<Rightarrow> ParserEvent list \<Rightarrow> 's Impl \<Rightarrow> bool option \<times> 's Impl" where
  "Read X st evs s =
     (let ascii_parser_option = \<lparr>allow_unknown_prim = allow_unknown_prims (config s),
                                 opt_allow_unknown_apiSchema = allow_unknown_apiSchema (config s)\<rparr>
      in case Parse X st ascii_parser_option evs [] [] s of
           ((None, pw, pe), s') \<Rightarrow> (None, s')
         | ((Some ok, pw, pe), s') \<Rightarrow>
             if \<not> ok then
               (Some False,
                PushError (''Parse failed:'' @ [CHR 0x0A] @ pe)
                  (if pw \<noteq> [] then PushWarn (''<parser> '' @ pw) s' else s'))
             else (Some True, s'))"

text \<open>Collaborators for concrete runs: reconstruction succeeds and changes nothing.\<close>

definition plain_Collab :: "unit Collab" where
  "plain_Collab = \<lparr>ext_ReconstructPrim = (\<lambda>T props refs p w. (True, p, w, [])),
     default_schema = (\<lambda>T. ()),
     get_parent_prim_path = (\<lambda>p. \<lparr>prim_part = ''/'', prop_part = [], valid = True\<rparr>),
     SetElementType = (\<lambda>t g. Inr (g\<lparr>elementType := t\<rparr>)),
     SetFamilyType = (\<lambda>t g. Inr (g\<lparr>familyType := t\<rparr>)),
     compute_absolute_prim_path_and_assign_prim_id = (\<lambda>st. st)\<rparr>"

definition mk_PrimArgs :: "string \<Rightarrow> string \<Rightarrow> int \<Rightarrow> int \<Rightarrow> VariantSetList \<Rightarrow> PrimArgs" where
  "mk_PrimArgs tn n idx pidx vs =
     \<lparr>full_path = \<lparr>prim_part = ''/'' @ n, prop_part = [], valid = True\<rparr>, a_spec = Def,
      primTypeName = tn, prim_name = \<lparr>prim_part = n, prop_part = [], valid = True\<rparr>,
      primIdx = idx, parentPrimIdx = pidx, a_properties = [], in_meta = [], in_variants = vs\<rparr>"

section \<open>Notions used to state the properties\<close>

text \<open>
  The types a metadata key accepts, as the decoder's branches ask for them: one type for
  the first group of keys; a list, a single element or a blocked marker for the
  list-valued keys.
\<close>

definition single_typed_keys :: "string list" where
  "single_typed_keys = [''active'', ''hidden'', ''sceneName'', ''displayName'', ''kind'',
     ''customData'', ''assetInfo'', ''variants'', ''apiSchemas'']"

definition list_valued_keys :: "string list" where
  "list_valued_keys = [''inherits'', ''specializes'', ''variantSets'', ''references'', ''payload'']"

definition accepted_type :: "string \<Rightarrow> MetaVariable \<Rightarrow> bool" where
  "accepted_type key var =
     (if key = ''active'' \<or> key = ''hidden'' then (case var of MVBool _ \<Rightarrow> True | _ \<Rightarrow> False)
      else if key = ''sceneName'' \<or> key = ''displayName'' then (case var of MVString _ \<Rightarrow> True | _ \<Rightarrow> False)
      else if key = ''kind'' then (case var of MVToken _ \<Rightarrow> True | _ \<Rightarrow> False)
      else if key = ''customData'' \<or> key = ''assetInfo'' \<or> key = ''variants'' then
        (case var of MVDict _ \<Rightarrow> True | _ \<Rightarrow> False)
      else if key = ''apiSchemas'' then (case var of MVTokenArray _ \<Rightarrow> True | _ \<Rightarrow> False)
      else if key = ''inherits'' \<or> key = ''specializes'' then
        (case var of MVBlock \<Rightarrow> True | MVPath _ \<Rightarrow> True | MVPathArray _ \<Rightarrow> True | _ \<Rightarrow> False)
      else if key = ''variantSets'' then
        (case var of MVBlock \<Rightarrow> True | MVString _ \<Rightarrow> True | MVStringData _ \<Rightarrow> True
                   | MVStringArray _ \<Rightarrow> True | _ \<Rightarrow> False)
      else if key = ''references'' \<or> key = ''payload'' then
        (case var of MVBlock \<Rightarrow> True | MVReference _ \<Rightarrow> True | MVReferenceArray _ \<Rightarrow> True | _ \<Rightarrow> False)
      else True)"

text \<open>
  What a call of \<open>ConstructPrimTreeRec\<close> for a child has built; it is the dummy Prim the
  caller starts with when the call has not returned \<^verbatim>\<open>true\<close>.
\<close>

definition built_by :: "(nat \<Rightarrow> (string + 's Prim) option) \<Rightarrow> nat \<Rightarrow> 's Prim" where
  "built_by rec i = (case rec i of Some (Inr p) \<Rightarrow> p | _ \<Rightarrow> Prim NullValue [] [] [])"

definition built :: "nat \<Rightarrow> 's PrimNode list \<Rightarrow> nat \<Rightarrow> 's Prim" where
  "built fuel nodes = built_by (\<lambda>i. ConstructPrimTreeRec fuel i nodes False)"

text \<open>
  The indices a node lists in the \<^verbatim>\<open>primChildren\<close> of its variants, in the order in which
  the pass walks them, and the indices of its child list that are not among them.
\<close>

definition variant_child_indices :: "'s PrimNode \<Rightarrow> int list" where
  "variant_child_indices node =
     concat (map (\<lambda>vs. concat (map (\<lambda>v. primChildren (snd v)) (snd vs))) (variantNodeMap node))"

definition ordinary_child_indices :: "'s PrimNode \<Rightarrow> nat list" where
  "ordinary_child_indices node =
     filter (\<lambda>c. int c \<notin> set (variant_child_indices node)) (children node)"

text \<open>Emplacing a run of entries, and the invariant of a \<^verbatim>\<open>std::map\<close>: strictly ascending keys.\<close>

fun emplace_all :: "('k::linorder \<times> 'v) list \<Rightarrow> ('k, 'v) std_map \<Rightarrow> ('k, 'v) std_map" where
  "emplace_all [] m = m"
| "emplace_all (kv # kvs) m = emplace_all kvs (map_emplace (fst kv) (snd kv) m)"

definition std_map_ok :: "('k::linorder, 'v) std_map \<Rightarrow> bool" where
  "std_map_ok m = sorted_wrt (<) (map fst m)"

text \<open>The variant sets the pass builds for a node, given what the calls for the children build.\<close>

definition variant_of :: "(nat \<Rightarrow> 's Prim) \<Rightarrow> VariantNode \<Rightarrow> 's Prim Variant" where
  "variant_of b vn = Variant (vn_metas vn) (vn_props vn) (map (\<lambda>c. b (nat c)) (primChildren vn))"

definition variantSet_of ::
  "(nat \<Rightarrow> 's Prim) \<Rightarrow> string \<Rightarrow> (string, VariantNode) std_map \<Rightarrow> 's Prim VariantSet" where
  "variantSet_of b vsn items =
     VariantSet (if items = [] then [] else vsn)
       (emplace_all (map (\<lambda>kv. (fst kv, variant_of b (snd kv))) items) [])"

definition variantSets_of ::
  "(nat \<Rightarrow> 's Prim) \<Rightarrow> 's PrimNode \<Rightarrow> (string, 's Prim VariantSet) std_map" where
  "variantSets_of b node =
     emplace_all (map (\<lambda>vs. (fst vs, variantSet_of b (fst vs) (snd vs))) (variantNodeMap node)) []"

text \<open>All the indices a node lists: its variant children, then its other children.\<close>

definition listed_children :: "'s PrimNode \<Rightarrow> nat list" where
  "listed_children node = map nat (variant_child_indices node) @ ordinary_child_indices node"

text \<open>
  The indices of the nodes that a tree below the node \<open>i\<close> holds when every node
  brings the nodes it lists: the node itself, then what its variant children and its
  other children bring, in this order. \<open>fuel\<close> bounds the depth.
\<close>

primrec emitted :: "nat \<Rightarrow> 's PrimNode list \<Rightarrow> nat \<Rightarrow> nat list" where
  "emitted 0 nodes i = []"
| "emitted (Suc fuel) nodes i = i # concat (map (emitted fuel nodes) (listed_children (nodes ! i)))"

text \<open>
  The Prims a list of variant sets holds in the \<^verbatim>\<open>primChildren\<close> of its variants, and the
  payloads of all Prims of an output tree, in pre-order: its own, those below its variants,
  those below its children.
\<close>

definition variantSet_prims :: "'p VariantSet \<Rightarrow> 'p list" where
  "variantSet_prims vset = concat (map (\<lambda>kv. v_primChildren (snd kv)) (variantSet vset))"

definition variantSets_prims :: "(string, 'p VariantSet) std_map \<Rightarrow> 'p list" where
  "variantSets_prims vsets = concat (map (\<lambda>kv. variantSet_prims (snd kv)) vsets)"

primrec payloads :: "'s Prim \<Rightarrow> 's Value list" where
  "payloads (Prim d t vsets ch) =
     d # concat (variantSets_prims (map (map_prod id (map_VariantSet payloads)) vsets))
       @ concat (map payloads ch)"

text \<open>
  Properties of a store. Its maps are \<^verbatim>\<open>std::map\<close>s: their keys ascend. Every index of the
  store is listed once in all: in the top-level list or among the listed children of one
  node. A node lists only indices above its own, as they are when the allocator hands
  out a Prim's index before the indices of the Prims declared inside it.
\<close>

definition store_maps_ok :: "'s PrimNode list \<Rightarrow> bool" where
  "store_maps_ok nodes = (\<forall>node\<in>set nodes. std_map_ok (variantNodeMap node)
                            \<and> (\<forall>vs\<in>set (variantNodeMap node). std_map_ok (snd vs)))"

definition listed_once :: "nat list \<Rightarrow> 's PrimNode list \<Rightarrow> bool" where
  "listed_once roots nodes =
     (\<forall>x\<in>set [0..<length nodes]. count_list (roots @ concat (map listed_children nodes)) x = 1)"

definition children_after_parent :: "'s PrimNode list \<Rightarrow> bool" where
  "children_after_parent nodes =
     (\<forall>i\<in>set [0..<length nodes]. \<forall>c\<in>set (listed_children (nodes ! i)). i < c)"

section \<open>Concrete scenes\<close>

text \<open>
  Runs of the parser on small inputs, as the callbacks it makes, and the stores they leave.
  Every Prim is an \<^verbatim>\<open>Xform\<close> with no metadata and no properties.
\<close>

definition vc :: "int list \<Rightarrow> VariantContent" where
  "vc is = \<lparr>vc_metas = [], primIndices = is, vc_props = []\<rparr>"

definition vnode :: "int list \<Rightarrow> VariantNode" where
  "vnode is = \<lparr>vn_metas = empty_PrimMeta, vn_props = [], primChildren = is\<rparr>"

definition xform_value :: "string \<Rightarrow> unit Value" where
  "xform_value n = TypedValue Xform \<lparr>name = n, spec = Def, meta = empty_PrimMeta,
     prim_type_name = [], schema = ()\<rparr>"

definition xform_node ::
  "string \<Rightarrow> int \<Rightarrow> bool \<Rightarrow> nat list \<Rightarrow> (string, (string, VariantNode) std_map) std_map \<Rightarrow> unit PrimNode" where
  "xform_node n par piv ch vm = \<lparr>prim = xform_value n, elementName = [], typeName = ''Xform'',
     parent = par, parent_is_variant = piv, children = ch, variantNodeMap = vm\<rparr>"

text \<open>
  \<^verbatim>\<open>def Xform "A" { variantSet "v" = { "a" { def Xform "C" {} }  "b" {} } }\<close>
\<close>

definition variant_scene :: "ParserEvent list" where
  "variant_scene =
     [PrimIdxAssignEvent (- 1), PrimIdxAssignEvent 0,
      PrimEvent (mk_PrimArgs ''Xform'' ''C'' 1 0 []),
      PrimEvent (mk_PrimArgs ''Xform'' ''A'' 0 (- 1) [(''v'', [(''a'', vc [1]), (''b'', vc [])])])]"

definition variant_store :: "unit PrimNode list" where
  "variant_store =
     [xform_node ''A'' (- 1) False [1] [(''v'', [(''a'', vnode [1]), (''b'', vnode [])])],
      xform_node ''C'' 0 True [] []]"


definition duplicate_variant_store :: "unit PrimNode list" where
  "duplicate_variant_store =
     [xform_node ''A'' (- 1) False [] [],
      xform_node ''B'' (- 1) False [2] [(''v'', [(''a'', vnode [2]), (''b'', vnode [2])])],
      xform_node ''C'' 1 True [] []]"

text \<open>
  A root \<^verbatim>\<open>A\<close> with the child \<^verbatim>\<open>C\<close>, then a root \<^verbatim>\<open>B\<close> whose variant \<^verbatim>\<open>a\<close> lists the
  index of \<^verbatim>\<open>C\<close>.
\<close>

definition shared_child_scene :: "ParserEvent list" where
  "shared_child_scene =
     [PrimIdxAssignEvent (- 1), PrimIdxAssignEvent 0,
      PrimEvent (mk_PrimArgs ''Xform'' ''C'' 1 0 []),
      PrimEvent (mk_PrimArgs ''Xform'' ''A'' 0 (- 1) []),
      PrimIdxAssignEvent (- 1),
      PrimEvent (mk_PrimArgs ''Xform'' ''B'' 2 (- 1) [(''v'', [(''a'', vc [1])])])]"

definition shared_child_store :: "unit PrimNode list" where
  "shared_child_store =
     [xform_node ''A'' (- 1) False [1] [],
      xform_node ''C'' 0 True [] [],
      xform_node ''B'' (- 1) False [] [(''v'', [(''a'', vnode [1])])]]"

section \<open>Properties\<close>

subsection \<open>Shared facts\<close>

lemma resize_Suc_length [simp]: "resize d (Suc (length xs)) xs = xs @ [d]"
  by (simp add: resize_def)

lemma prim_nodes_init_Impl [simp]: "prim_nodes init_Impl = []"
  by (simp add: init_Impl_def)

lemma upt_Cons_shift: "n # [Suc n..<Suc n + k] = [n..<n + Suc k]"
  by (simp add: upt_rec[of n])

subsection \<open>The prim-index allocator\<close>

lemma PrimIdxAssign_simps [simp]:
  "fst (PrimIdxAssign p s) = length (prim_nodes s)"
  "prim_nodes (snd (PrimIdxAssign p s)) = prim_nodes s @ [default_PrimNode]"
  by (simp_all add: PrimIdxAssign_def Let_def)

lemma PrimIdxAssign_calls_indices:
  "fst (PrimIdxAssign_calls ps s) = [length (prim_nodes s)..<length (prim_nodes s) + length ps]"
proof (induction ps arbitrary: s)
  case Nil
  then show ?case by simp
next
  case (Cons p ps)
  have "fst (PrimIdxAssign_calls (p # ps) s)
          = length (prim_nodes s) # fst (PrimIdxAssign_calls ps (snd (PrimIdxAssign p s)))"
    by (simp add: split_beta)
  also have "\<dots> = length (prim_nodes s)
                 # [Suc (length (prim_nodes s))..<Suc (length (prim_nodes s)) + length ps]"
    by (simp add: Cons.IH)
  also have "\<dots> = [length (prim_nodes s)..<length (prim_nodes s) + length (p # ps)]"
    using upt_Cons_shift[of "length (prim_nodes s)" "length ps"] by simp
  finally show ?case .
qed

lemma PrimIdxAssign_calls_store:
  "prim_nodes (snd (PrimIdxAssign_calls ps s))
     = prim_nodes s @ replicate (length ps) default_PrimNode"
proof (induction ps arbitrary: s)
  case Nil
  then show ?case by simp
next
  case (Cons p ps)
  have "prim_nodes (snd (PrimIdxAssign_calls (p # ps) s))
          = prim_nodes (snd (PrimIdxAssign_calls ps (snd (PrimIdxAssign p s))))"
    by (simp add: split_beta)
  then show ?case
    by (simp add: Cons.IH replicate_append_same)
qed

text \<open>
  C7. A call of the allocator returns the size of the PrimNode store and appends one
  default-initialised node, whatever the parent index is. A run of calls on a fresh
  reader returns \<open>0, 1, 2, ...\<close>; a run of calls on any reader returns the consecutive
  indices from the size of its store on, and leaves the store longer by one default node
  per call.
\<close>

theorem PrimIdxAssign_fresh_contiguous:
  "fst (PrimIdxAssign p s) = length (prim_nodes s)
   \<and> prim_nodes (snd (PrimIdxAssign p s)) = prim_nodes s @ [default_PrimNode]
   \<and> fst (PrimIdxAssign_calls ps init_Impl) = [0..<length ps]
   \<and> fst (PrimIdxAssign_calls ps s) = [length (prim_nodes s)..<length (prim_nodes s) + length ps]
   \<and> prim_nodes (snd (PrimIdxAssign_calls ps s))
       = prim_nodes s @ replicate (length ps) default_PrimNode"
  by (simp add: PrimIdxAssign_calls_indices PrimIdxAssign_calls_store)

subsection \<open>The warning channel\<close>

text \<open>
  C6. \<^verbatim>\<open>PushWarn\<close> appends its message to \<^verbatim>\<open>_err\<close>: the message shows up in what
  \<^verbatim>\<open>GetError\<close> returns, and what \<^verbatim>\<open>GetWarning\<close> returns is as it was.
\<close>

theorem PushWarn_writes_error_string:
  "GetWarning (PushWarn msg s) = GetWarning s \<and> GetError (PushWarn msg s) = GetError s @ msg"
  by (simp add: PushWarn_def GetWarning_def GetError_def)

subsection \<open>What each part of a callback may change\<close>

lemma apiSchemas_loop_frame: "apiSchemas_loop ts a s = (a', s') \<Longrightarrow> \<exists>e. s' = s\<lparr>err := e\<rparr>"
proof (induction ts arbitrary: a s)
  case Nil
  then have "s' = s\<lparr>err := err s\<rparr>" by simp
  then show ?case by blast
next
  case (Cons t ts)
  show ?case
  proof (cases "ApiSchemaHandler t")
    case (Inl e)
    with Cons.prems have "apiSchemas_loop ts a (PushWarn (''(PrimMeta) '' @ e) s) = (a', s')" by simp
    from Cons.IH[OF this] obtain e' where "s' = (PushWarn (''(PrimMeta) '' @ e) s)\<lparr>err := e'\<rparr>" by blast
    then have "s' = s\<lparr>err := e'\<rparr>" by (simp add: PushWarn_def)
    then show ?thesis by blast
  next
    case (Inr v)
    with Cons.prems have "apiSchemas_loop ts (a\<lparr>names := names a @ [(v, [])]\<rparr>) s = (a', s')" by simp
    from Cons.IH[OF this] show ?thesis .
  qed
qed

lemma err_frame_refl: "\<exists>e. s = s\<lparr>err := e\<rparr>"
proof
  show "s = s\<lparr>err := err s\<rparr>" by simp
qed

lemma err_frame_upd: "\<exists>e. s\<lparr>err := x\<rparr> = s\<lparr>err := e\<rparr>"
  by blast

lemma ReconstructPrimMeta_item_frame:
  assumes "ReconstructPrimMeta_item key q var out s = (ok, out', s')"
  shows "\<exists>e. s' = s\<lparr>err := e\<rparr>"
  using assms
  unfolding ReconstructPrimMeta_item_def PushError_def PushWarn_def PUSH_ERROR_TAG_def
  by (auto split: if_splits option.splits sum.splits prod.splits
           intro: err_frame_refl err_frame_upd dest: apiSchemas_loop_frame)

lemma ReconstructPrimMeta_frame:
  "ReconstructPrimMeta m out s = (ok, out', s') \<Longrightarrow> \<exists>e. s' = s\<lparr>err := e\<rparr>"
proof (induction m arbitrary: out s)
  case Nil
  then show ?case by (simp add: err_frame_refl)
next
  case (Cons x m)
  obtain ok1 out1 s1 where step:
    "ReconstructPrimMeta_item (fst x) (fst (snd x)) (snd (snd x)) out s = (ok1, out1, s1)"
    by (cases "ReconstructPrimMeta_item (fst x) (fst (snd x)) (snd (snd x)) out s") auto
  from ReconstructPrimMeta_item_frame[OF step] obtain e1 where f1: "s1 = s\<lparr>err := e1\<rparr>" by blast
  show ?case
  proof (cases ok1)
    case True
    with Cons.prems step have "ReconstructPrimMeta m out1 s1 = (ok, out', s')" by simp
    from Cons.IH[OF this] obtain e2 where "s' = s1\<lparr>err := e2\<rparr>" by blast
    with f1 have "s' = s\<lparr>err := e2\<rparr>" by simp
    then show ?thesis by blast
  next
    case False
    with Cons.prems step have "s' = s1" by simp
    with f1 show ?thesis by blast
  qed
qed

lemma ReconstructPrim_frame:
  "ReconstructPrim X T props refs p s = (ok, p', s') \<Longrightarrow> \<exists>e w. s' = s\<lparr>err := e, warn := w\<rparr>"
proof -
  assume a: "ReconstructPrim X T props refs p s = (ok, p', s')"
  show ?thesis
  proof (cases "T = GPrim")
    case True
    with a have "s' = PushWarn ''TODO: Reconstruct GPrim.'' s"
      by (simp add: ReconstructPrim_def)
    then have "s' = s\<lparr>err := err s @ ''TODO: Reconstruct GPrim.'', warn := warn s\<rparr>"
      by (simp add: PushWarn_def)
    then show ?thesis by blast
  next
    case False
    obtain ok1 p1 w1 e1 where ext: "ext_ReconstructPrim X T props refs p (warn s) = (ok1, p1, w1, e1)"
      by (cases "ext_ReconstructPrim X T props refs p (warn s)") auto
    show ?thesis
    proof (cases ok1)
      case True
      with a False ext have "s' = s\<lparr>err := err s, warn := w1\<rparr>"
        by (simp add: ReconstructPrim_def)
      then show ?thesis by blast
    next
      case nok: False
      with a False ext have "\<exists>msg. s' = PushError msg (s\<lparr>warn := w1\<rparr>)"
        by (auto simp add: ReconstructPrim_def)
      then obtain msg where "s' = PushError msg (s\<lparr>warn := w1\<rparr>)" by blast
      then have "s' = s\<lparr>err := err s @ msg, warn := w1\<rparr>" by (simp add: PushError_def)
      then show ?thesis by blast
    qed
  qed
qed

lemma variant_primIndices_loop_frame:
  "variant_primIndices_loop cs v s = (r, s') \<Longrightarrow>
     \<exists>n. s' = s\<lparr>prim_nodes := n\<rparr> \<and> length n = length (prim_nodes s)"
proof (induction cs arbitrary: v s)
  case Nil
  then have "s' = s\<lparr>prim_nodes := prim_nodes s\<rparr>" by simp
  then show ?case by blast
next
  case (Cons c cs)
  show ?case
  proof (cases "c < 0 \<or> nat c \<ge> length (prim_nodes s)")
    case True
    with Cons.prems have "s' = s\<lparr>prim_nodes := prim_nodes s\<rparr>" by (auto split: if_splits)
    then show ?thesis by blast
  next
    case False
    let ?s1 = "s\<lparr>prim_nodes := (prim_nodes s)[nat c := (prim_nodes s ! nat c)\<lparr>parent_is_variant := True\<rparr>]\<rparr>"
    from False Cons.prems
    have "variant_primIndices_loop cs (v\<lparr>primChildren := primChildren v @ [c]\<rparr>) ?s1 = (r, s')"
      by simp
    from Cons.IH[OF this] obtain n where "s' = ?s1\<lparr>prim_nodes := n\<rparr>" "length n = length (prim_nodes ?s1)"
      by blast
    then have "s' = s\<lparr>prim_nodes := n\<rparr> \<and> length n = length (prim_nodes s)" by simp
    then show ?thesis by blast
  qed
qed

lemma variantContext_loop_frame:
  "variantContext_loop vn items acc s = (r, s') \<Longrightarrow>
     \<exists>e n. s' = s\<lparr>err := e, prim_nodes := n\<rparr> \<and> length n = length (prim_nodes s)"
proof (induction items arbitrary: acc s)
  case Nil
  then have "s' = s\<lparr>err := err s, prim_nodes := prim_nodes s\<rparr>" by simp
  then show ?case by blast
next
  case (Cons item items)
  obtain ok m s1 where rpm: "ReconstructPrimMeta (vc_metas (snd item)) empty_PrimMeta s = (ok, m, s1)"
    by (cases "ReconstructPrimMeta (vc_metas (snd item)) empty_PrimMeta s") auto
  from ReconstructPrimMeta_frame[OF rpm] obtain e1 where f1: "s1 = s\<lparr>err := e1\<rparr>" by blast
  show ?case
  proof (cases ok)
    case False
    with Cons.prems rpm have "s' = s1" by simp
    with f1 have "s' = s\<lparr>err := e1, prim_nodes := prim_nodes s\<rparr>" by simp
    then show ?thesis by blast
  next
    case True
    obtain r2 s2 where vpl: "variant_primIndices_loop (primIndices (snd item))
        \<lparr>vn_metas = m, vn_props = vc_props (snd item), primChildren = []\<rparr> s1 = (r2, s2)"
      by (cases "variant_primIndices_loop (primIndices (snd item))
        \<lparr>vn_metas = m, vn_props = vc_props (snd item), primChildren = []\<rparr> s1") auto
    from variant_primIndices_loop_frame[OF vpl] obtain n2
      where "s2 = s1\<lparr>prim_nodes := n2\<rparr>" "length n2 = length (prim_nodes s1)" by blast
    with f1 have f2: "s2 = s\<lparr>err := e1, prim_nodes := n2\<rparr>" "length n2 = length (prim_nodes s)"
      by simp_all
    show ?thesis
    proof (cases r2)
      case (Inl e)
      with Cons.prems rpm True vpl have "s' = s2" by simp
      with f2 show ?thesis by blast
    next
      case (Inr v)
      with Cons.prems rpm True vpl
      have "variantContext_loop vn items (map_emplace (fst item) v acc) s2 = (r, s')" by simp
      from Cons.IH[OF this] obtain e3 n3
        where "s' = s2\<lparr>err := e3, prim_nodes := n3\<rparr>" "length n3 = length (prim_nodes s2)" by blast
      with f2 have "s' = s\<lparr>err := e3, prim_nodes := n3\<rparr> \<and> length n3 = length (prim_nodes s)" by simp
      then show ?thesis by blast
    qed
  qed
qed

lemma in_variants_loop_frame:
  "in_variants_loop vs acc s = (r, s') \<Longrightarrow>
     \<exists>e n. s' = s\<lparr>err := e, prim_nodes := n\<rparr> \<and> length n = length (prim_nodes s)"
proof (induction vs arbitrary: acc s)
  case Nil
  then have "s' = s\<lparr>err := err s, prim_nodes := prim_nodes s\<rparr>" by simp
  then show ?case by blast
next
  case (Cons vc vs)
  obtain r1 s1 where step: "variantContext_loop (fst vc) (snd vc) [] s = (r1, s1)"
    by (cases "variantContext_loop (fst vc) (snd vc) [] s") auto
  from variantContext_loop_frame[OF step] obtain e1 n1
    where f1: "s1 = s\<lparr>err := e1, prim_nodes := n1\<rparr>" "length n1 = length (prim_nodes s)" by blast
  show ?case
  proof (cases r1)
    case (Inl e)
    with Cons.prems step have "s' = s1" by simp
    with f1 show ?thesis by blast
  next
    case (Inr vnodes)
    with Cons.prems step
    have "in_variants_loop vs (map_emplace (fst vc) vnodes acc) s1 = (r, s')" by simp
    from Cons.IH[OF this] obtain e3 n3
      where "s' = s1\<lparr>err := e3, prim_nodes := n3\<rparr>" "length n3 = length (prim_nodes s1)" by blast
    with f1 have "s' = s\<lparr>err := e3, prim_nodes := n3\<rparr> \<and> length n3 = length (prim_nodes s)" by simp
    then show ?thesis by blast
  qed
qed

subsection \<open>What the typed callback stores\<close>

lemma length_resize [simp]: "length (resize d n xs) = n"
  by (simp add: resize_def)

lemma length_grow_prim_nodes: "idx < length (prim_nodes (grow_prim_nodes idx s))"
  by (simp add: grow_prim_nodes_def)

lemma store_typed_prim_node:
  assumes "store_typed_prim T p tn vs idx par s = (Expected True, s')"
  shows "idx < length (prim_nodes s')
         \<and> prim (prim_nodes s' ! idx)
             = TypedValue T (if T = Model then p\<lparr>prim_type_name := tn\<rparr> else p)
         \<and> typeName (prim_nodes s' ! idx) = tn
         \<and> variantNodeMap (prim_nodes s' ! idx) = vs
         \<and> parent (prim_nodes s' ! idx) = par"
proof -
  let ?g = "grow_prim_nodes idx s"
  have len: "idx < length (prim_nodes ?g)" by (rule length_grow_prim_nodes)
  let ?s6 = "update_prim_node idx (\<lambda>n. n\<lparr>parent := par\<rparr>)
      (update_prim_node idx (\<lambda>n. case prim n of
                         TypedValue Model model \<Rightarrow>
                           n\<lparr>prim := TypedValue Model (model\<lparr>prim_type_name := tn\<rparr>)\<rparr>
                       | _ \<Rightarrow> n)
      (update_prim_node idx (\<lambda>n. n\<lparr>variantNodeMap := vs\<rparr>)
      (update_prim_node idx (\<lambda>n. n\<lparr>typeName := tn\<rparr>)
      (update_prim_node idx (\<lambda>n. n\<lparr>prim := TypedValue T p\<rparr>) ?g))))"
  have l6: "idx < length (prim_nodes ?s6)" using len by (simp add: update_prim_node_def)
  have n6: "prim (prim_nodes ?s6 ! idx) = TypedValue T (if T = Model then p\<lparr>prim_type_name := tn\<rparr> else p)
        \<and> typeName (prim_nodes ?s6 ! idx) = tn \<and> variantNodeMap (prim_nodes ?s6 ! idx) = vs
        \<and> parent (prim_nodes ?s6 ! idx) = par"
    using len by (cases T) (simp_all add: update_prim_node_def)
  from assms have link: "link_to_parent idx par ?s6 = (Expected True, s')"
    by (simp add: store_typed_prim_def Let_def)
  show ?thesis
  proof (cases "par = - 1")
    case True
    with link have "prim_nodes s' = prim_nodes ?s6" by (auto simp add: link_to_parent_def)
    with l6 n6 show ?thesis by simp
  next
    case False
    with link have inb: "\<not> (par < 0 \<or> nat par \<ge> length (prim_nodes ?s6))"
      by (auto simp add: link_to_parent_def split: if_splits)
    with link False have "prim_nodes s' = (prim_nodes ?s6)[nat par :=
          (prim_nodes ?s6 ! nat par)\<lparr>children := children (prim_nodes ?s6 ! nat par) @ [idx]\<rparr>]"
      by (auto simp add: link_to_parent_def split: if_splits)
    with l6 n6 inb show ?thesis
      by (cases "nat par = idx") (simp_all add: nth_list_update)
  qed
qed

lemma PrimConstruct_stored:
  assumes "PrimConstruct X T a s = (Expected True, s')"
  shows "\<exists>p. prim (prim_nodes s' ! nat (primIdx a))
               = TypedValue T (if T = Model then p\<lparr>prim_type_name := primTypeName a\<rparr> else p)
           \<and> name p = prim_part (prim_name a) \<and> spec p = a_spec a
           \<and> nat (primIdx a) < length (prim_nodes s')
           \<and> typeName (prim_nodes s' ! nat (primIdx a)) = primTypeName a"
proof -
  from assms have ok: "is_valid (prim_name a)" "primIdx a \<ge> 0"
    by (auto simp add: PrimConstruct_def split: if_splits)
  obtain okm m s1 where rpm: "ReconstructPrimMeta (in_meta a) (meta (default_TypedPrim X T)) s = (okm, m, s1)"
    by (cases "ReconstructPrimMeta (in_meta a) (meta (default_TypedPrim X T)) s") auto
  let ?refs = "case references m of Some r \<Rightarrow> r | None \<Rightarrow> (ResetToExplicit, [])"
  obtain ret p1 s2 where rp: "ReconstructPrim X T (a_properties a) ?refs ((default_TypedPrim X T)\<lparr>meta := m\<rparr>) s1 = (ret, p1, s2)"
    by (cases "ReconstructPrim X T (a_properties a) ?refs ((default_TypedPrim X T)\<lparr>meta := m\<rparr>) s1") auto
  obtain r3 s3 where ivl: "in_variants_loop (in_variants a) [] s2 = (r3, s3)"
    by (cases "in_variants_loop (in_variants a) [] s2") auto
  from assms rpm rp ivl obtain vs where
    st: "store_typed_prim T (p1\<lparr>spec := a_spec a, name := prim_part (prim_name a)\<rparr>) (primTypeName a) vs
            (nat (primIdx a)) (parentPrimIdx a) s3 = (Expected True, s')"
    by (auto simp add: PrimConstruct_def Let_def split: if_splits sum.splits)
  from store_typed_prim_node[OF st] show ?thesis
    by (intro exI[of _ "p1\<lparr>spec := a_spec a, name := prim_part (prim_name a)\<rparr>"]) simp
qed

text \<open>
  C8. When the parser finds no callback registered under a Prim's type name and
  \<^verbatim>\<open>allow_unknown_prim\<close> is set, it invokes the callback of \<^verbatim>\<open>Model\<close>; when that callback
  succeeds, the node at the Prim's index holds a \<^verbatim>\<open>Model\<close> whose \<^verbatim>\<open>prim_type_name\<close> is the
  type name as it was declared, and the node's \<^verbatim>\<open>typeName\<close> is that name too.
\<close>

theorem unknown_prim_stored_as_Model:
  assumes "st = Toplevel" and "registered_callback X (primTypeName a) = None"
      and "allow_unknown_prim opt"
      and "parser_construct_prim X st opt a s = (Expected True, s')"
  shows "\<exists>model. prim (prim_nodes s' ! nat (primIdx a)) = TypedValue Model model
                 \<and> prim_type_name model = primTypeName a
                 \<and> typeName (prim_nodes s' ! nat (primIdx a)) = primTypeName a
                 \<and> nat (primIdx a) < length (prim_nodes s')"
proof -
  from assms have "PrimConstruct X Model a s = (Expected True, s')"
    by (simp add: parser_construct_prim_def)
  from PrimConstruct_stored[OF this] obtain p where
    "prim (prim_nodes s' ! nat (primIdx a)) = TypedValue Model (p\<lparr>prim_type_name := primTypeName a\<rparr>)"
    "nat (primIdx a) < length (prim_nodes s')"
    "typeName (prim_nodes s' ! nat (primIdx a)) = primTypeName a"
    by auto
  then show ?thesis by simp
qed

lemmas eval_defs = parser_construct_prim_def registered_callback_def registered_types_def
  PrimConstruct_def store_typed_prim_def link_to_parent_def grow_prim_nodes_def update_prim_node_def
  PrimIdxAssign_def mk_PrimArgs_def plain_Collab_def is_valid_def is_absolute_path_def
  is_root_path_def default_TypedPrim_def ReconstructPrim_def resize_def default_PrimNode_def
  Let_def init_Impl_def

theorem unknown_prim_stored_as_Model_witness:
  "\<exists>model. prim (prim_nodes (snd (parser_construct_prim plain_Collab Toplevel
                    \<lparr>allow_unknown_prim = True, opt_allow_unknown_apiSchema = True\<rparr>
                    (mk_PrimArgs ''Wobble'' ''X'' 0 (- 1) []) (snd (PrimIdxAssign (- 1) init_Impl)))) ! 0)
              = TypedValue Model model
          \<and> prim_type_name model = ''Wobble''"
proof -
  let ?opt = "\<lparr>allow_unknown_prim = True, opt_allow_unknown_apiSchema = True\<rparr>"
  let ?a = "mk_PrimArgs ''Wobble'' ''X'' 0 (- 1) []"
  let ?s = "snd (PrimIdxAssign (- 1) init_Impl) :: unit Impl"
  have h1: "registered_callback plain_Collab (primTypeName ?a) = None"
    by (simp add: registered_callback_def registered_types_def mk_PrimArgs_def)
  have h2: "allow_unknown_prim ?opt" by simp
  have h3: "fst (parser_construct_prim plain_Collab Toplevel ?opt ?a ?s) = Expected True"
    by (simp add: eval_defs)
  then have h4: "parser_construct_prim plain_Collab Toplevel ?opt ?a ?s
                  = (Expected True, snd (parser_construct_prim plain_Collab Toplevel ?opt ?a ?s))"
    by (metis prod.collapse)
  have idx: "nat (primIdx ?a) = 0" "primTypeName ?a = ''Wobble''" by (simp_all add: mk_PrimArgs_def)
  from unknown_prim_stored_as_Model[OF refl h1 h2 h4] idx show ?thesis by auto
qed

subsection \<open>The invalidation flag\<close>

lemma ReconstructPrimMeta_invalidated [simp]:
  "primspec_invalidated (snd (snd (ReconstructPrimMeta m out s))) = primspec_invalidated s"
proof -
  obtain ok out' s' where r: "ReconstructPrimMeta m out s = (ok, out', s')"
    by (cases "ReconstructPrimMeta m out s") auto
  from ReconstructPrimMeta_frame[OF r] obtain e where "s' = s\<lparr>err := e\<rparr>" by blast
  with r show ?thesis by simp
qed

lemma ReconstructPrim_invalidated [simp]:
  "primspec_invalidated (snd (snd (ReconstructPrim X T props refs p s))) = primspec_invalidated s"
proof -
  obtain ok p' s' where r: "ReconstructPrim X T props refs p s = (ok, p', s')"
    by (cases "ReconstructPrim X T props refs p s") auto
  from ReconstructPrim_frame[OF r] obtain e w where "s' = s\<lparr>err := e, warn := w\<rparr>" by blast
  with r show ?thesis by simp
qed

lemma in_variants_loop_invalidated [simp]:
  "primspec_invalidated (snd (in_variants_loop vs acc s)) = primspec_invalidated s"
proof -
  obtain r s' where r: "in_variants_loop vs acc s = (r, s')"
    by (cases "in_variants_loop vs acc s") auto
  from in_variants_loop_frame[OF r] obtain e n where "s' = s\<lparr>err := e, prim_nodes := n\<rparr>" by blast
  with r show ?thesis by simp
qed

lemma link_to_parent_invalidated [simp]:
  "primspec_invalidated (snd (link_to_parent idx par s)) = primspec_invalidated s"
  by (simp add: link_to_parent_def)

lemma update_prim_node_invalidated [simp]:
  "primspec_invalidated (update_prim_node idx f s) = primspec_invalidated s"
  by (simp add: update_prim_node_def)

lemma grow_prim_nodes_invalidated [simp]:
  "primspec_invalidated (grow_prim_nodes idx s) = primspec_invalidated s"
  by (simp add: grow_prim_nodes_def)

lemma store_typed_prim_invalidated [simp]:
  "primspec_invalidated (snd (store_typed_prim T p tn vs idx par s)) = primspec_invalidated s"
  by (simp add: store_typed_prim_def Let_def)

lemma PrimConstruct_invalidated [simp]:
  "primspec_invalidated (snd (PrimConstruct X T a s)) = primspec_invalidated s"
  by (simp add: PrimConstruct_def Let_def case_prod_beta split: sum.split)

lemma PushError_invalidated [simp]: "primspec_invalidated (PushError m s) = primspec_invalidated s"
  by (simp add: PushError_def)

lemma PushWarn_invalidated [simp]: "primspec_invalidated (PushWarn m s) = primspec_invalidated s"
  by (simp add: PushWarn_def)

lemma GeomSubset_properties_loop_invalidated [simp]:
  "primspec_invalidated (snd (snd (GeomSubset_properties_loop X props g s))) = primspec_invalidated s"
proof (induction props arbitrary: g s)
  case Nil
  show ?case by simp
next
  case (Cons item items)
  show ?case
    by (simp add: Cons.IH split: option.split sum.split)
qed

lemma GeomSubsetConstruct_invalidated [simp]:
  "primspec_invalidated (snd (GeomSubsetConstruct X a s)) = primspec_invalidated s"
  by (simp add: GeomSubsetConstruct_def Let_def case_prod_beta)

lemma PrimSpecConstruct_invalidated [simp]:
  "primspec_invalidated (snd (PrimSpecConstruct a s)) = primspec_invalidated s"
  by (simp add: PrimSpecConstruct_def Let_def update_primspec_node_def grow_primspec_nodes_def)

lemma update_stage_metas_invalidated [simp]:
  "primspec_invalidated (update_stage_metas f s) = primspec_invalidated s"
  by (simp add: update_stage_metas_def)

lemma opt_update_invalidated:
  "primspec_invalidated (case x of Some v \<Rightarrow> update_stage_metas (f v) s | None \<Rightarrow> s)
     = primspec_invalidated s"
  by (cases x) simp_all

lemma StageMetaProcess_invalidated [simp]:
  "primspec_invalidated (snd (StageMetaProcess ms s)) = primspec_invalidated s"
  by (simp add: StageMetaProcess_def Let_def opt_update_invalidated PushError_def split: option.split)

lemma registered_callback_cases:
  "registered_callback X tn = Some cb \<Longrightarrow> cb = GeomSubsetConstruct X \<or> (\<exists>T. cb = PrimConstruct X T)"
  by (auto simp add: registered_callback_def split: if_splits option.splits)

lemma parser_construct_prim_invalidated [simp]:
  "primspec_invalidated (snd (parser_construct_prim X st opt a s)) = primspec_invalidated s"
proof (cases "registered_callback X (primTypeName a)")
  case None
  then show ?thesis by (simp add: parser_construct_prim_def)
next
  case (Some cb)
  from registered_callback_cases[OF Some]
  have "primspec_invalidated (snd (cb a s)) = primspec_invalidated s" by auto
  with Some show ?thesis by (simp add: parser_construct_prim_def)
qed

lemma Parse_invalidated [simp]:
  "primspec_invalidated (snd (Parse X st opt evs pw pe s)) = primspec_invalidated s"
proof (induction evs arbitrary: pw pe s)
  case Nil
  show ?case by simp
next
  case (Cons ev evs)
  show ?case
  proof (cases ev)
    case (StageMetaEvent ms)
    then show ?thesis by (simp add: case_prod_beta Cons.IH)
  next
    case (PrimIdxAssignEvent p)
    then show ?thesis by (simp add: Cons.IH PrimIdxAssign_def Let_def)
  next
    case (PrimEvent a)
    obtain c s1 where pc: "parser_construct_prim X st opt a s = (c, s1)"
      by (cases "parser_construct_prim X st opt a s") auto
    have i1: "primspec_invalidated s1 = primspec_invalidated s"
      using parser_construct_prim_invalidated[of X st opt a s] pc by simp
    show ?thesis
    proof (cases "c = Expected True")
      case True
      with PrimEvent pc show ?thesis by (simp add: Cons.IH i1 split del: if_split)
    next
      case False
      with PrimEvent pc i1 show ?thesis by (cases c) auto
    qed
  next
    case (SyntaxErrorEvent e)
    then show ?thesis by simp
  qed
qed

lemma Read_invalidated:
  "primspec_invalidated (snd (Read X st evs s)) = primspec_invalidated s"
proof -
  let ?opt = "\<lparr>allow_unknown_prim = allow_unknown_prims (config s),
               opt_allow_unknown_apiSchema = allow_unknown_apiSchema (config s)\<rparr>"
  have "primspec_invalidated (snd (Parse X st ?opt evs [] [] s)) = primspec_invalidated s" by simp
  then show ?thesis
    by (simp add: Read_def Let_def case_prod_beta split: option.split)
qed

text \<open>
  C1. No callback and no step of \<^verbatim>\<open>Read\<close> writes \<^verbatim>\<open>_primspec_invalidated\<close>, which starts as
  \<^verbatim>\<open>true\<close>. So after \<^verbatim>\<open>Read\<close>, with any load state and whatever the parser found, the first
  call of \<^verbatim>\<open>GetAsLayer\<close> with a layer returns \<^verbatim>\<open>false\<close>: it pushes an error and leaves the
  layer as it was.
\<close>

theorem GetAsLayer_fails_after_Read:
  assumes "primspec_invalidated s" and "Read X st evs s = (r, s')"
  shows "\<exists>msg. GetAsLayer fuel (Some l) s' = Some (False, Some l, PushError msg s')"
proof -
  have "primspec_invalidated (snd (Read X st evs s))" using assms(1) by (simp add: Read_invalidated)
  with assms(2) have "primspec_invalidated s'" by simp
  then show ?thesis by (auto simp add: GetAsLayer_def)
qed

theorem GetAsLayer_fails_after_Read_witness:
  "\<exists>msg. GetAsLayer 10 (Some \<lparr>prim_specs = []\<rparr>)
            (snd (Read plain_Collab Reference
                    [PrimIdxAssignEvent (- 1), PrimEvent (mk_PrimArgs ''Xform'' ''Root'' 0 (- 1) [])]
                    init_Impl))
          = Some (False, Some \<lparr>prim_specs = []\<rparr>,
                  PushError msg (snd (Read plain_Collab Reference
                    [PrimIdxAssignEvent (- 1), PrimEvent (mk_PrimArgs ''Xform'' ''Root'' 0 (- 1) [])]
                    init_Impl)))
   \<and> fst (Read plain_Collab Reference
                    [PrimIdxAssignEvent (- 1), PrimEvent (mk_PrimArgs ''Xform'' ''Root'' 0 (- 1) [])]
                    init_Impl) = Some True"
proof -
  let ?evs = "[PrimIdxAssignEvent (- 1), PrimEvent (mk_PrimArgs ''Xform'' ''Root'' 0 (- 1) [])]"
  have h1: "primspec_invalidated (init_Impl :: unit Impl)" by (simp add: init_Impl_def)
  have ok: "fst (Read plain_Collab Reference ?evs init_Impl) = Some True"
    by (simp add: Read_def parser_construct_prim_def PrimSpecConstruct_def mk_PrimArgs_def
          is_valid_def is_absolute_path_def is_root_path_def Let_def
          update_primspec_node_def grow_primspec_nodes_def PrimIdxAssign_def init_Impl_def)
  have h2: "Read plain_Collab Reference ?evs init_Impl
              = (Some True, snd (Read plain_Collab Reference ?evs init_Impl))"
    using ok by (metis prod.collapse)
  from GetAsLayer_fails_after_Read[OF h1 h2] ok show ?thesis by simp
qed



subsection \<open>Validation in the callbacks\<close>



text \<open>
  The generic callback does not test whether the prim part of the name is empty; the
  PrimSpec callback does. A name that \<^verbatim>\<open>Path\<close> reports as valid is accepted with an empty
  prim part.
\<close>

lemma PrimConstruct_accepts_empty_prim_part:
  "fst (PrimConstruct plain_Collab Xform (mk_PrimArgs ''Xform'' [] 0 (- 1) []) init_Impl) = Expected True"
  by (simp add: eval_defs)

lemma PrimSpecConstruct_rejects_empty_prim_part:
  "PrimSpecConstruct (mk_PrimArgs ''Xform'' [] 0 (- 1) []) s
     = (Unexpected (''Prim'' @ [CHR 0x27] @ ''s name should not be empty ''), s)"
  by (simp add: PrimSpecConstruct_def mk_PrimArgs_def is_valid_def is_absolute_path_def
        is_root_path_def)




text \<open>
  C10. The GeomSubset callback returns an error and leaves the reader as it was when the
  parent index is \<open>-1\<close>; whenever it returns \<^verbatim>\<open>true\<close> the parent index is not negative.
  The generic callback accepts a top-level Prim, as the witness shows.
\<close>

theorem GeomSubset_rejected_at_toplevel:
  "(parentPrimIdx a = - 1 \<longrightarrow> (\<exists>e. GeomSubsetConstruct X a s = (Unexpected e, s)))
   \<and> (fst (GeomSubsetConstruct X a s) = Expected True \<longrightarrow> 0 \<le> parentPrimIdx a)"
proof (intro conjI impI)
  assume "parentPrimIdx a = - 1"
  then show "\<exists>e. GeomSubsetConstruct X a s = (Unexpected e, s)"
    by (simp add: GeomSubsetConstruct_def)
next
  assume ok: "fst (GeomSubsetConstruct X a s) = Expected True"
  show "0 \<le> parentPrimIdx a"
  proof (rule ccontr)
    assume "\<not> 0 \<le> parentPrimIdx a"
    then have "parentPrimIdx a < 0" by simp
    then have "\<exists>e. fst (GeomSubsetConstruct X a s) = Unexpected e"
      by (simp add: GeomSubsetConstruct_def)
    with ok show False by auto
  qed
qed

theorem GeomSubset_rejected_at_toplevel_witness:
  "(\<exists>e. GeomSubsetConstruct plain_Collab (mk_PrimArgs ''GeomSubset'' ''S'' 0 (- 1) []) init_Impl
           = (Unexpected e, init_Impl))
   \<and> fst (PrimConstruct plain_Collab Xform (mk_PrimArgs ''Xform'' ''S'' 0 (- 1) []) init_Impl)
       = Expected True
   \<and> fst (GeomSubsetConstruct plain_Collab (mk_PrimArgs ''GeomSubset'' ''S'' 1 0 [])
            (snd (PrimIdxAssign 0 (snd (PrimIdxAssign (- 1) init_Impl))))) = Expected True"
proof -
  let ?a = "mk_PrimArgs ''GeomSubset'' ''S'' 0 (- 1) []"
  let ?b = "mk_PrimArgs ''GeomSubset'' ''S'' 1 0 []"
  let ?s = "snd (PrimIdxAssign 0 (snd (PrimIdxAssign (- 1) init_Impl))) :: unit Impl"
  have h: "parentPrimIdx ?a = - 1" by (simp add: mk_PrimArgs_def)
  have g: "fst (PrimConstruct plain_Collab Xform (mk_PrimArgs ''Xform'' ''S'' 0 (- 1) []) init_Impl)
             = Expected True"
    by (simp add: eval_defs)
  have c: "fst (GeomSubsetConstruct plain_Collab ?b ?s) = Expected True"
    by (simp add: GeomSubsetConstruct_def eval_defs default_GeomSubset_def)
  have "0 \<le> parentPrimIdx ?b"
    using GeomSubset_rejected_at_toplevel[of ?b plain_Collab ?s] c by blast
  with GeomSubset_rejected_at_toplevel[of ?a plain_Collab init_Impl] h g c show ?thesis by blast
qed



subsection \<open>The type checks of the metadata decoder\<close>

lemma PushError_inject: "PushError m s = PushError e s \<Longrightarrow> m = e"
proof -
  assume "PushError m s = PushError e s"
  then have "err (PushError m s) = err (PushError e s)" by (rule arg_cong)
  then show "m = e" by (simp add: PushError_def)
qed

lemma PushError_message: "(\<exists>e. e \<noteq> [] \<and> PushError m s = PushError e s) = (m \<noteq> [])"
proof
  assume "\<exists>e. e \<noteq> [] \<and> PushError m s = PushError e s"
  then obtain e where e: "e \<noteq> []" "PushError m s = PushError e s" by (elim exE conjE)
  from e(2) have "m = e" by (rule PushError_inject)
  with e(1) show "m \<noteq> []" by simp
next
  assume "m \<noteq> []"
  then have "m \<noteq> [] \<and> PushError m s = PushError m s" by simp
  then show "\<exists>e. e \<noteq> [] \<and> PushError m s = PushError e s" by (rule exI)
qed

lemma mismatch_active:
  "\<not> accepted_type ''active'' var \<Longrightarrow>
     \<exists>e. e \<noteq> [] \<and> ReconstructPrimMeta_item ''active'' q var out s = (False, out, PushError e s)"
  by (cases var)
     (simp_all add: accepted_type_def ReconstructPrimMeta_item_def PUSH_ERROR_TAG_def PushError_message)

lemma mismatch_hidden:
  "\<not> accepted_type ''hidden'' var \<Longrightarrow>
     \<exists>e. e \<noteq> [] \<and> ReconstructPrimMeta_item ''hidden'' q var out s = (False, out, PushError e s)"
  by (cases var)
     (simp_all add: accepted_type_def ReconstructPrimMeta_item_def PUSH_ERROR_TAG_def PushError_message)

lemma mismatch_sceneName:
  "\<not> accepted_type ''sceneName'' var \<Longrightarrow>
     \<exists>e. e \<noteq> [] \<and> ReconstructPrimMeta_item ''sceneName'' q var out s = (False, out, PushError e s)"
  by (cases var)
     (simp_all add: accepted_type_def ReconstructPrimMeta_item_def PUSH_ERROR_TAG_def PushError_message)

lemma mismatch_displayName:
  "\<not> accepted_type ''displayName'' var \<Longrightarrow>
     \<exists>e. e \<noteq> [] \<and> ReconstructPrimMeta_item ''displayName'' q var out s = (False, out, PushError e s)"
  by (cases var)
     (simp_all add: accepted_type_def ReconstructPrimMeta_item_def PUSH_ERROR_TAG_def PushError_message)

lemma mismatch_kind:
  "\<not> accepted_type ''kind'' var \<Longrightarrow>
     \<exists>e. e \<noteq> [] \<and> ReconstructPrimMeta_item ''kind'' q var out s = (False, out, PushError e s)"
  by (cases var)
     (simp_all add: accepted_type_def ReconstructPrimMeta_item_def PUSH_ERROR_TAG_def PushError_message)

lemma mismatch_customData:
  "\<not> accepted_type ''customData'' var \<Longrightarrow>
     \<exists>e. e \<noteq> [] \<and> ReconstructPrimMeta_item ''customData'' q var out s = (False, out, PushError e s)"
  by (cases var)
     (simp_all add: accepted_type_def ReconstructPrimMeta_item_def PUSH_ERROR_TAG_def PushError_message)

lemma mismatch_assetInfo:
  "\<not> accepted_type ''assetInfo'' var \<Longrightarrow>
     \<exists>e. e \<noteq> [] \<and> ReconstructPrimMeta_item ''assetInfo'' q var out s = (False, out, PushError e s)"
  by (cases var)
     (simp_all add: accepted_type_def ReconstructPrimMeta_item_def PUSH_ERROR_TAG_def PushError_message)

lemma mismatch_variants:
  "\<not> accepted_type ''variants'' var \<Longrightarrow>
     \<exists>e. e \<noteq> [] \<and> ReconstructPrimMeta_item ''variants'' q var out s = (False, out, PushError e s)"
  by (cases var)
     (simp_all add: accepted_type_def ReconstructPrimMeta_item_def PUSH_ERROR_TAG_def PushError_message)

lemma mismatch_apiSchemas:
  "\<not> accepted_type ''apiSchemas'' var \<Longrightarrow>
     \<exists>e. e \<noteq> [] \<and> ReconstructPrimMeta_item ''apiSchemas'' q var out s = (False, out, PushError e s)"
  by (cases var)
     (simp_all add: accepted_type_def ReconstructPrimMeta_item_def PUSH_ERROR_TAG_def PushError_message)

lemma mismatch_inherits:
  "\<not> accepted_type ''inherits'' var \<Longrightarrow>
     \<exists>e. e \<noteq> [] \<and> ReconstructPrimMeta_item ''inherits'' q var out s = (False, out, PushError e s)"
  by (cases var)
     (simp_all add: accepted_type_def ReconstructPrimMeta_item_def PUSH_ERROR_TAG_def PushError_message)

lemma mismatch_specializes:
  "\<not> accepted_type ''specializes'' var \<Longrightarrow>
     \<exists>e. e \<noteq> [] \<and> ReconstructPrimMeta_item ''specializes'' q var out s = (False, out, PushError e s)"
  by (cases var)
     (simp_all add: accepted_type_def ReconstructPrimMeta_item_def PUSH_ERROR_TAG_def PushError_message)

lemma mismatch_variantSets:
  "\<not> accepted_type ''variantSets'' var \<Longrightarrow>
     \<exists>e. e \<noteq> [] \<and> ReconstructPrimMeta_item ''variantSets'' q var out s = (False, out, PushError e s)"
  by (cases var)
     (simp_all add: accepted_type_def ReconstructPrimMeta_item_def PUSH_ERROR_TAG_def PushError_message)

lemma mismatch_references:
  "\<not> accepted_type ''references'' var \<Longrightarrow>
     \<exists>e. e \<noteq> [] \<and> ReconstructPrimMeta_item ''references'' q var out s = (False, out, PushError e s)"
  by (cases var)
     (simp_all add: accepted_type_def ReconstructPrimMeta_item_def PUSH_ERROR_TAG_def PushError_message)

lemma mismatch_payload:
  "\<not> accepted_type ''payload'' var \<Longrightarrow>
     \<exists>e. e \<noteq> [] \<and> ReconstructPrimMeta_item ''payload'' q var out s = (False, out, PushError e s)"
  by (cases var)
     (simp_all add: accepted_type_def ReconstructPrimMeta_item_def PUSH_ERROR_TAG_def PushError_message)

lemma ReconstructPrimMeta_item_mismatch:
  assumes "key \<in> set single_typed_keys \<union> set list_valued_keys" and "\<not> accepted_type key var"
  shows "\<exists>e. e \<noteq> [] \<and> ReconstructPrimMeta_item key q var out s = (False, out, PushError e s)"
proof -
  from assms(1) consider "key = ''active''" | "key = ''hidden''" | "key = ''sceneName''" | "key = ''displayName''" | "key = ''kind''" | "key = ''customData''" | "key = ''assetInfo''" | "key = ''variants''" | "key = ''apiSchemas''" | "key = ''inherits''" | "key = ''specializes''" | "key = ''variantSets''" | "key = ''references''" | "key = ''payload''"
    unfolding single_typed_keys_def list_valued_keys_def by fastforce
  then show ?thesis
  proof cases
    case 1
    from assms(2) have "\<not> accepted_type ''active'' var" unfolding 1 .
    then show ?thesis unfolding 1 by (rule mismatch_active)
  next
    case 2
    from assms(2) have "\<not> accepted_type ''hidden'' var" unfolding 2 .
    then show ?thesis unfolding 2 by (rule mismatch_hidden)
  next
    case 3
    from assms(2) have "\<not> accepted_type ''sceneName'' var" unfolding 3 .
    then show ?thesis unfolding 3 by (rule mismatch_sceneName)
  next
    case 4
    from assms(2) have "\<not> accepted_type ''displayName'' var" unfolding 4 .
    then show ?thesis unfolding 4 by (rule mismatch_displayName)
  next
    case 5
    from assms(2) have "\<not> accepted_type ''kind'' var" unfolding 5 .
    then show ?thesis unfolding 5 by (rule mismatch_kind)
  next
    case 6
    from assms(2) have "\<not> accepted_type ''customData'' var" unfolding 6 .
    then show ?thesis unfolding 6 by (rule mismatch_customData)
  next
    case 7
    from assms(2) have "\<not> accepted_type ''assetInfo'' var" unfolding 7 .
    then show ?thesis unfolding 7 by (rule mismatch_assetInfo)
  next
    case 8
    from assms(2) have "\<not> accepted_type ''variants'' var" unfolding 8 .
    then show ?thesis unfolding 8 by (rule mismatch_variants)
  next
    case 9
    from assms(2) have "\<not> accepted_type ''apiSchemas'' var" unfolding 9 .
    then show ?thesis unfolding 9 by (rule mismatch_apiSchemas)
  next
    case 10
    from assms(2) have "\<not> accepted_type ''inherits'' var" unfolding 10 .
    then show ?thesis unfolding 10 by (rule mismatch_inherits)
  next
    case 11
    from assms(2) have "\<not> accepted_type ''specializes'' var" unfolding 11 .
    then show ?thesis unfolding 11 by (rule mismatch_specializes)
  next
    case 12
    from assms(2) have "\<not> accepted_type ''variantSets'' var" unfolding 12 .
    then show ?thesis unfolding 12 by (rule mismatch_variantSets)
  next
    case 13
    from assms(2) have "\<not> accepted_type ''references'' var" unfolding 13 .
    then show ?thesis unfolding 13 by (rule mismatch_references)
  next
    case 14
    from assms(2) have "\<not> accepted_type ''payload'' var" unfolding 14 .
    then show ?thesis unfolding 14 by (rule mismatch_payload)
  qed
qed

lemma ReconstructPrimMeta_mismatch:
  assumes "(key, (q, var)) \<in> set ms"
      and "key \<in> set single_typed_keys \<union> set list_valued_keys" and "\<not> accepted_type key var"
  shows "fst (ReconstructPrimMeta ms out s) = False"
  using assms(1)
proof (induction ms arbitrary: out s)
  case Nil
  then show ?case by simp
next
  case (Cons x xs)
  obtain ok out1 s1 where step:
    "ReconstructPrimMeta_item (fst x) (fst (snd x)) (snd (snd x)) out s = (ok, out1, s1)"
    by (cases "ReconstructPrimMeta_item (fst x) (fst (snd x)) (snd (snd x)) out s") auto
  show ?case
  proof (cases ok)
    case False
    with step show ?thesis by simp
  next
    case True
    have "x \<noteq> (key, (q, var))"
    proof
      assume "x = (key, (q, var))"
      with step have "ReconstructPrimMeta_item key q var out s = (ok, out1, s1)" by simp
      with ReconstructPrimMeta_item_mismatch[OF assms(2,3), of q out s] True show False by auto
    qed
    with Cons.prems have "(key, (q, var)) \<in> set xs" by auto
    from Cons.IH[OF this] step True show ?thesis by simp
  qed
qed

lemma ReconstructPrimMeta_append:
  "ReconstructPrimMeta pre out0 s0 = (True, out, s) \<Longrightarrow>
     ReconstructPrimMeta (pre @ post) out0 s0 = ReconstructPrimMeta post out s"
proof (induction pre arbitrary: out0 s0)
  case Nil
  then show ?case by simp
next
  case (Cons x xs)
  obtain ok out1 s1 where step:
    "ReconstructPrimMeta_item (fst x) (fst (snd x)) (snd (snd x)) out0 s0 = (ok, out1, s1)"
    by (cases "ReconstructPrimMeta_item (fst x) (fst (snd x)) (snd (snd x)) out0 s0") auto
  show ?case
  proof (cases ok)
    case False
    with step Cons.prems show ?thesis by simp
  next
    case True
    with step Cons.prems have "ReconstructPrimMeta xs out1 s1 = (True, out, s)" by simp
    from Cons.IH[OF this] step True show ?thesis by simp
  qed
qed

lemma ReconstructPrimMeta_mismatch_after_prefix:
  assumes "key \<in> set single_typed_keys \<union> set list_valued_keys" and "\<not> accepted_type key var"
      and "ReconstructPrimMeta pre out0 s0 = (True, out, s)"
  shows "\<exists>e. e \<noteq> [] \<and> ReconstructPrimMeta (pre @ (key, (q, var)) # post) out0 s0
                          = (False, out, PushError e s)"
proof -
  from ReconstructPrimMeta_item_mismatch[OF assms(1,2), of q out s]
  obtain e where e: "e \<noteq> []" "ReconstructPrimMeta_item key q var out s = (False, out, PushError e s)"
    by (elim exE conjE)
  from e(2) have "ReconstructPrimMeta ((key, (q, var)) # post) out s = (False, out, PushError e s)"
    by simp
  with ReconstructPrimMeta_append[OF assms(3), of "(key, (q, var)) # post"]
  have "ReconstructPrimMeta (pre @ (key, (q, var)) # post) out0 s0 = (False, out, PushError e s)"
    by simp
  with e(1) show ?thesis by (intro exI conjI)
qed

lemma blocked_yields_empty_list:
  "ReconstructPrimMeta_item ''references'' q MVBlock out s = (True, out\<lparr>references := Some (q, [])\<rparr>, s)"
  "ReconstructPrimMeta_item ''payload'' q MVBlock out s = (True, out\<lparr>payload := Some (q, [])\<rparr>, s)"
  "ReconstructPrimMeta_item ''inherits'' q MVBlock out s = (True, out\<lparr>inherits := Some (q, [])\<rparr>, s)"
  "ReconstructPrimMeta_item ''specializes'' q MVBlock out s = (True, out\<lparr>specializes := Some (q, [])\<rparr>, s)"
  "ReconstructPrimMeta_item ''variantSets'' q MVBlock out s = (True, out\<lparr>variantSets := Some (q, [])\<rparr>, s)"
  by (simp_all add: ReconstructPrimMeta_item_def)

lemma single_Reference_promoted:
  "ReconstructPrimMeta_item ''references'' q (MVReference r) out s
     = (True, out\<lparr>references := Some (q, [r])\<rparr>, s)"
  "ReconstructPrimMeta_item ''payload'' q (MVReference r) out s
     = (True, out\<lparr>payload := Some (q, [to_Payload r])\<rparr>, s)"
  "ReconstructPrimMeta_item ''references'' q (MVReferenceArray rs) out s
     = (True, out\<lparr>references := Some (q, rs)\<rparr>, s)"
  "ReconstructPrimMeta_item ''payload'' q (MVReferenceArray rs) out s
     = (True, out\<lparr>payload := Some (q, map to_Payload rs)\<rparr>, s)"
  by (simp_all add: ReconstructPrimMeta_item_def)

lemma single_Path_promoted:
  "ReconstructPrimMeta_item ''inherits'' q (MVPath p) out s
     = (True, out\<lparr>inherits := Some (q, [p])\<rparr>, s)"
  "ReconstructPrimMeta_item ''inherits'' q (MVPathArray ps) out s
     = (True, out\<lparr>inherits := Some (q, ps)\<rparr>, s)"
  "ReconstructPrimMeta_item ''specializes'' q (MVPath p) out s
     = (True, out\<lparr>specializes := Some (q, [p])\<rparr>, s)"
  "ReconstructPrimMeta_item ''specializes'' q (MVPathArray ps) out s
     = (True, out\<lparr>specializes := Some (q, ps)\<rparr>, s)"
  by (simp_all add: ReconstructPrimMeta_item_def)

lemma single_string_promoted:
  "ReconstructPrimMeta_item ''variantSets'' q (MVString n) out s
     = (True, out\<lparr>variantSets := Some (q, [n])\<rparr>, s)"
  "ReconstructPrimMeta_item ''variantSets'' q (MVStringData d) out s
     = (True, out\<lparr>variantSets := Some (q, [sd_value d])\<rparr>, s)"
  "ReconstructPrimMeta_item ''variantSets'' q (MVStringArray ns) out s
     = (True, out\<lparr>variantSets := Some (q, ns)\<rparr>, s)"
  by (simp_all add: ReconstructPrimMeta_item_def)

text \<open>
  C5, the claim as stated fails: \<^verbatim>\<open>inherits\<close> is neither \<^verbatim>\<open>references\<close> nor \<^verbatim>\<open>payload\<close>, and
  a blocked marker is accepted for it and yields an empty list.
\<close>

theorem inherits_accepts_blocked_marker:
  "ReconstructPrimMeta [(''inherits'', (Prepend, MVBlock))] empty_PrimMeta (init_Impl :: unit Impl)
     = (True, empty_PrimMeta\<lparr>inherits := Some (Prepend, [])\<rparr>, init_Impl)"
  by (simp add: ReconstructPrimMeta_item_def)

text \<open>
  The \<^verbatim>\<open>comment\<close> branch has no \<^verbatim>\<open>else\<close>: a value that is neither a \<^verbatim>\<open>StringData\<close> nor a
  \<^verbatim>\<open>std::string\<close> is passed over without an error.
\<close>

lemma comment_of_other_type_passed_over:
  "ReconstructPrimMeta [(''comment'', (ResetToExplicit, MVBool True))] out s = (True, out, s)"
  by (simp add: ReconstructPrimMeta_item_def)

text \<open>
  C5, amended. For the keys \<^verbatim>\<open>active\<close>, \<^verbatim>\<open>hidden\<close>, \<^verbatim>\<open>sceneName\<close>, \<^verbatim>\<open>displayName\<close>,
  \<^verbatim>\<open>kind\<close>, \<^verbatim>\<open>customData\<close>, \<^verbatim>\<open>assetInfo\<close>, \<^verbatim>\<open>variants\<close> and \<^verbatim>\<open>apiSchemas\<close> a value whose
  type is not the one the key expects is an error, and so is, for \<^verbatim>\<open>references\<close>,
  \<^verbatim>\<open>payload\<close>, \<^verbatim>\<open>inherits\<close>, \<^verbatim>\<open>specializes\<close> and \<^verbatim>\<open>variantSets\<close>, a value of none of the
  forms the key accepts. Decoding such an entry pushes a message that is not empty and
  writes nothing to the output. When the entries before it in the map decode without an
  error, \<^verbatim>\<open>ReconstructPrimMeta\<close> returns \<^verbatim>\<open>false\<close> with that message pushed and with the
  output as those entries have written it; wherever the entry is in the map,
  \<^verbatim>\<open>ReconstructPrimMeta\<close> returns \<^verbatim>\<open>false\<close>.

  \<^verbatim>\<open>references\<close> and \<^verbatim>\<open>payload\<close> accept a single Reference, a Reference list or a blocked
  marker; \<^verbatim>\<open>inherits\<close> and \<^verbatim>\<open>specializes\<close> accept a single Path, a Path list or a blocked
  marker; \<^verbatim>\<open>variantSets\<close> accepts a string, a string list or a blocked marker. A single
  value is stored as a list of one element, a list as it is, and a blocked marker as the
  empty list, each with the list-edit qualifier of the entry.
\<close>

theorem ReconstructPrimMeta_type_check:
  "(key \<in> set single_typed_keys \<union> set list_valued_keys \<and> \<not> accepted_type key var \<longrightarrow>
      (\<exists>e. e \<noteq> [] \<and> ReconstructPrimMeta_item key q var out s = (False, out, PushError e s))
      \<and> (ReconstructPrimMeta pre out0 s0 = (True, out, s) \<longrightarrow>
           (\<exists>e. e \<noteq> [] \<and> ReconstructPrimMeta (pre @ (key, (q, var)) # post) out0 s0
                                = (False, out, PushError e s))))
   \<and> ((key, (q, var)) \<in> set ms \<and> key \<in> set single_typed_keys \<union> set list_valued_keys
        \<and> \<not> accepted_type key var \<longrightarrow> fst (ReconstructPrimMeta ms out s) = False)
   \<and> ReconstructPrimMeta_item ''references'' q MVBlock out s = (True, out\<lparr>references := Some (q, [])\<rparr>, s)
   \<and> ReconstructPrimMeta_item ''payload'' q MVBlock out s = (True, out\<lparr>payload := Some (q, [])\<rparr>, s)
   \<and> ReconstructPrimMeta_item ''inherits'' q MVBlock out s = (True, out\<lparr>inherits := Some (q, [])\<rparr>, s)
   \<and> ReconstructPrimMeta_item ''specializes'' q MVBlock out s = (True, out\<lparr>specializes := Some (q, [])\<rparr>, s)
   \<and> ReconstructPrimMeta_item ''variantSets'' q MVBlock out s = (True, out\<lparr>variantSets := Some (q, [])\<rparr>, s)
   \<and> ReconstructPrimMeta_item ''references'' q (MVReference r) out s
        = (True, out\<lparr>references := Some (q, [r])\<rparr>, s)
   \<and> ReconstructPrimMeta_item ''references'' q (MVReferenceArray rs) out s
        = (True, out\<lparr>references := Some (q, rs)\<rparr>, s)
   \<and> ReconstructPrimMeta_item ''payload'' q (MVReference r) out s
        = (True, out\<lparr>payload := Some (q, [to_Payload r])\<rparr>, s)
   \<and> ReconstructPrimMeta_item ''payload'' q (MVReferenceArray rs) out s
        = (True, out\<lparr>payload := Some (q, map to_Payload rs)\<rparr>, s)
   \<and> ReconstructPrimMeta_item ''inherits'' q (MVPath p) out s
        = (True, out\<lparr>inherits := Some (q, [p])\<rparr>, s)
   \<and> ReconstructPrimMeta_item ''inherits'' q (MVPathArray ps) out s
        = (True, out\<lparr>inherits := Some (q, ps)\<rparr>, s)
   \<and> ReconstructPrimMeta_item ''specializes'' q (MVPath p) out s
        = (True, out\<lparr>specializes := Some (q, [p])\<rparr>, s)
   \<and> ReconstructPrimMeta_item ''specializes'' q (MVPathArray ps) out s
        = (True, out\<lparr>specializes := Some (q, ps)\<rparr>, s)
   \<and> ReconstructPrimMeta_item ''variantSets'' q (MVString n) out s
        = (True, out\<lparr>variantSets := Some (q, [n])\<rparr>, s)
   \<and> ReconstructPrimMeta_item ''variantSets'' q (MVStringData d) out s
        = (True, out\<lparr>variantSets := Some (q, [sd_value d])\<rparr>, s)
   \<and> ReconstructPrimMeta_item ''variantSets'' q (MVStringArray ns) out s
        = (True, out\<lparr>variantSets := Some (q, ns)\<rparr>, s)"
proof -
  have a: "key \<in> set single_typed_keys \<union> set list_valued_keys \<and> \<not> accepted_type key var \<longrightarrow>
      (\<exists>e. e \<noteq> [] \<and> ReconstructPrimMeta_item key q var out s = (False, out, PushError e s))
      \<and> (ReconstructPrimMeta pre out0 s0 = (True, out, s) \<longrightarrow>
           (\<exists>e. e \<noteq> [] \<and> ReconstructPrimMeta (pre @ (key, (q, var)) # post) out0 s0
                                = (False, out, PushError e s)))"
  proof (intro impI conjI)
    assume h: "key \<in> set single_typed_keys \<union> set list_valued_keys \<and> \<not> accepted_type key var"
    then have k: "key \<in> set single_typed_keys \<union> set list_valued_keys"
      and n: "\<not> accepted_type key var" by (rule conjunct1, rule conjunct2)
    from k n show "\<exists>e. e \<noteq> [] \<and> ReconstructPrimMeta_item key q var out s = (False, out, PushError e s)"
      by (rule ReconstructPrimMeta_item_mismatch)
    assume "ReconstructPrimMeta pre out0 s0 = (True, out, s)"
    with k n show "\<exists>e. e \<noteq> [] \<and> ReconstructPrimMeta (pre @ (key, (q, var)) # post) out0 s0
                                = (False, out, PushError e s)"
      by (rule ReconstructPrimMeta_mismatch_after_prefix)
  qed
  have b: "(key, (q, var)) \<in> set ms \<and> key \<in> set single_typed_keys \<union> set list_valued_keys
        \<and> \<not> accepted_type key var \<longrightarrow> fst (ReconstructPrimMeta ms out s) = False"
    using ReconstructPrimMeta_mismatch[of key q var ms out s] by (intro impI) (elim conjE)
  from a b show ?thesis
    by (simp only: blocked_yields_empty_list single_Reference_promoted single_Path_promoted
          single_string_promoted simp_thms)
qed

theorem ReconstructPrimMeta_type_check_witness:
  "(\<exists>e. e \<noteq> [] \<and> ReconstructPrimMeta_item ''active'' Prepend (MVString ''yes'') empty_PrimMeta
                        (init_Impl :: unit Impl)
                      = (False, empty_PrimMeta, PushError e init_Impl))
   \<and> (\<exists>e. e \<noteq> [] \<and> ReconstructPrimMeta
                        [(''hidden'', (Prepend, MVBool True)), (''kind'', (Prepend, MVString ''group''))]
                        empty_PrimMeta (init_Impl :: unit Impl)
                      = (False, empty_PrimMeta\<lparr>hidden := Some True\<rparr>, PushError e init_Impl))
   \<and> fst (ReconstructPrimMeta [(''hidden'', (Prepend, MVBool True)), (''kind'', (Prepend, MVString ''group''))]
             empty_PrimMeta (init_Impl :: unit Impl)) = False"
proof -
  let ?ms = "[(''hidden'', (Prepend, MVBool True)), (''kind'', (Prepend, MVString ''group''))]"
  let ?out = "empty_PrimMeta\<lparr>hidden := Some True\<rparr>"
  have k1: "''active'' \<in> set single_typed_keys \<union> set list_valued_keys \<and> \<not> accepted_type ''active'' (MVString ''yes'')"
    by (simp add: single_typed_keys_def accepted_type_def)
  have k2: "(''kind'', (Prepend, MVString ''group'')) \<in> set ?ms
            \<and> ''kind'' \<in> set single_typed_keys \<union> set list_valued_keys
            \<and> \<not> accepted_type ''kind'' (MVString ''group'')"
    by (simp add: single_typed_keys_def accepted_type_def)
  have k3: "''kind'' \<in> set single_typed_keys \<union> set list_valued_keys
            \<and> \<not> accepted_type ''kind'' (MVString ''group'')"
    by (simp add: single_typed_keys_def accepted_type_def)
  have p: "ReconstructPrimMeta [(''hidden'', (Prepend, MVBool True))] empty_PrimMeta (init_Impl :: unit Impl)
             = (True, ?out, init_Impl)"
    by (simp add: ReconstructPrimMeta_item_def)
  have w1: "\<exists>e. e \<noteq> [] \<and> ReconstructPrimMeta_item ''active'' Prepend (MVString ''yes'') empty_PrimMeta
                        (init_Impl :: unit Impl)
                      = (False, empty_PrimMeta, PushError e init_Impl)"
    using ReconstructPrimMeta_type_check[where key = "''active''" and var = "MVString ''yes''"
            and q = Prepend and out = empty_PrimMeta and s = "init_Impl :: unit Impl",
            THEN conjunct1, THEN mp, OF k1]
    by (rule conjunct1)
  have "\<exists>e. e \<noteq> [] \<and> ReconstructPrimMeta
                        ([(''hidden'', (Prepend, MVBool True))] @ (''kind'', (Prepend, MVString ''group'')) # [])
                        empty_PrimMeta (init_Impl :: unit Impl)
                      = (False, ?out, PushError e init_Impl)"
    using ReconstructPrimMeta_type_check[where key = "''kind''" and var = "MVString ''group''"
            and q = Prepend and out = ?out and s = "init_Impl :: unit Impl"
            and pre = "[(''hidden'', (Prepend, MVBool True))]" and ?out0.0 = empty_PrimMeta
            and ?s0.0 = "init_Impl :: unit Impl" and post = "[]",
            THEN conjunct1, THEN mp, OF k3, THEN conjunct2, THEN mp, OF p] .
  then have w2: "\<exists>e. e \<noteq> [] \<and> ReconstructPrimMeta ?ms empty_PrimMeta (init_Impl :: unit Impl)
                      = (False, ?out, PushError e init_Impl)"
    by (simp only: append.simps)
  have w3: "fst (ReconstructPrimMeta ?ms empty_PrimMeta (init_Impl :: unit Impl)) = False"
    using ReconstructPrimMeta_type_check[where key = "''kind''" and var = "MVString ''group''"
            and q = Prepend and out = empty_PrimMeta and s = "init_Impl :: unit Impl"
            and ms = ?ms, THEN conjunct2, THEN conjunct1] k2
    by (rule mp)
  from w1 w2 w3 show ?thesis by (intro conjI)
qed
subsection \<open>The loops of the reconstruction pass\<close>

lemma built_by_Inr [simp]: "rec i = Some (Inr p) \<Longrightarrow> built_by rec i = p"
  by (simp add: built_by_def)

lemma variant_primChildren_loop_success:
  assumes "variant_primChildren_loop rec sz cs vis acc = Some (Inr (vis', acc'))"
  shows "vis' = vis \<union> set cs \<and> distinct cs \<and> set cs \<inter> vis = {}
         \<and> acc' = acc @ map (\<lambda>c. built_by rec (nat c)) cs
         \<and> (\<forall>c\<in>set cs. 0 \<le> c \<and> nat c \<le> sz \<and> (\<exists>q. rec (nat c) = Some (Inr q)))"
  using assms
proof (induction cs arbitrary: vis acc)
  case Nil
  then show ?case by simp
next
  case (Cons c cs)
  from Cons.prems have nv: "c \<notin> vis"
    by (auto split: if_splits)
  from Cons.prems nv have rng: "0 \<le> c \<and> nat c \<le> sz"
    by (auto split: if_splits)
  from Cons.prems nv rng obtain q where q: "rec (nat c) = Some (Inr q)"
    by (auto split: option.splits sum.splits)
  from Cons.prems nv rng q
  have rest: "variant_primChildren_loop rec sz cs (insert c vis) (acc @ [q]) = Some (Inr (vis', acc'))"
    by simp
  from Cons.IH[OF rest] nv rng q show ?case by auto
qed

lemma variant_primChildren_loop_duplicate:
  assumes "\<not> distinct cs \<or> set cs \<inter> vis \<noteq> {}" and "\<forall>i. rec i \<noteq> None"
  shows "\<exists>e. variant_primChildren_loop rec sz cs vis acc = Some (Inl e)"
  using assms(1)
proof (induction cs arbitrary: vis acc)
  case Nil
  then show ?case by simp
next
  case (Cons c cs)
  show ?case
  proof (cases "c \<in> vis")
    case True
    then show ?thesis by simp
  next
    case False
    show ?thesis
    proof (cases "0 \<le> c \<and> nat c \<le> sz")
      case rng: False
      with False show ?thesis by auto
    next
      case rng: True
      from assms(2) have "rec (nat c) \<noteq> None" by (rule spec)
      then obtain r where r: "rec (nat c) = Some r" by auto
      show ?thesis
      proof (cases r)
        case (Inl e)
        with False rng r show ?thesis by simp
      next
        case (Inr q)
        from Cons.prems False have "\<not> distinct cs \<or> set cs \<inter> insert c vis \<noteq> {}" by auto
        from Cons.IH[OF this, of "acc @ [q]"] False rng r Inr show ?thesis by simp
      qed
    qed
  qed
qed

lemma variantNodes_loop_success:
  assumes "variantNodes_loop rec sz vsn items vis vset = Some (Inr (vis', vset'))"
  shows "vis' = vis \<union> set (concat (map (\<lambda>v. primChildren (snd v)) items))
         \<and> distinct (concat (map (\<lambda>v. primChildren (snd v)) items))
         \<and> set (concat (map (\<lambda>v. primChildren (snd v)) items)) \<inter> vis = {}
         \<and> variantSet vset'
             = emplace_all (map (\<lambda>kv. (fst kv, variant_of (built_by rec) (snd kv))) items) (variantSet vset)
         \<and> vs_name vset' = (if items = [] then vs_name vset else vsn)
         \<and> (\<forall>c\<in>set (concat (map (\<lambda>v. primChildren (snd v)) items)).
               0 \<le> c \<and> nat c \<le> sz \<and> (\<exists>q. rec (nat c) = Some (Inr q)))"
  using assms
proof (induction items arbitrary: vis vset)
  case Nil
  then show ?case by simp
next
  case (Cons item items)
  from Cons.prems obtain vis1 pc where
    inner: "variant_primChildren_loop rec sz (primChildren (snd item)) vis [] = Some (Inr (vis1, pc))"
    by (auto split: option.splits sum.splits)
  from variant_primChildren_loop_success[OF inner]
  have i1: "vis1 = vis \<union> set (primChildren (snd item))" "distinct (primChildren (snd item))"
    "set (primChildren (snd item)) \<inter> vis = {}"
    "pc = map (\<lambda>c. built_by rec (nat c)) (primChildren (snd item))"
    "\<forall>c\<in>set (primChildren (snd item)). 0 \<le> c \<and> nat c \<le> sz \<and> (\<exists>q. rec (nat c) = Some (Inr q))"
    by auto
  let ?vset1 = "VariantSet vsn (map_emplace (fst item)
                  (Variant (vn_metas (snd item)) (vn_props (snd item)) pc) (variantSet vset))"
  from Cons.prems inner
  have rest: "variantNodes_loop rec sz vsn items vis1 ?vset1 = Some (Inr (vis', vset'))"
    by simp
  note ih = Cons.IH[OF rest]
  have v1: "vis' = vis \<union> set (concat (map (\<lambda>v. primChildren (snd v)) (item # items)))"
    using ih i1(1) by auto
  have v2: "distinct (concat (map (\<lambda>v. primChildren (snd v)) (item # items)))"
    using ih i1(1,2) by auto
  have v3: "set (concat (map (\<lambda>v. primChildren (snd v)) (item # items))) \<inter> vis = {}"
    using ih i1(1,3) by auto
  have v4: "variantSet vset' = emplace_all (map (\<lambda>kv. (fst kv, variant_of (built_by rec) (snd kv)))
                (item # items)) (variantSet vset)"
    using ih i1(4) by (simp add: variant_of_def)
  have v5: "vs_name vset' = (if item # items = [] then vs_name vset else vsn)"
    using ih by simp
  have v6: "\<forall>c\<in>set (concat (map (\<lambda>v. primChildren (snd v)) (item # items))).
               0 \<le> c \<and> nat c \<le> sz \<and> (\<exists>q. rec (nat c) = Some (Inr q))"
    using ih i1(5) by auto
  from v1 v2 v3 v4 v5 v6 show ?case by blast
qed

lemma variantNodeMap_loop_success:
  assumes "variantNodeMap_loop rec sz vmap vis vsets = Some (Inr (vis', vsets'))"
  shows "vis' = vis \<union> set (concat (map (\<lambda>vs. concat (map (\<lambda>v. primChildren (snd v)) (snd vs))) vmap))
         \<and> distinct (concat (map (\<lambda>vs. concat (map (\<lambda>v. primChildren (snd v)) (snd vs))) vmap))
         \<and> set (concat (map (\<lambda>vs. concat (map (\<lambda>v. primChildren (snd v)) (snd vs))) vmap)) \<inter> vis = {}
         \<and> vsets' = emplace_all (map (\<lambda>vs. (fst vs, variantSet_of (built_by rec) (fst vs) (snd vs))) vmap) vsets
         \<and> (\<forall>c\<in>set (concat (map (\<lambda>vs. concat (map (\<lambda>v. primChildren (snd v)) (snd vs))) vmap)).
               0 \<le> c \<and> nat c \<le> sz \<and> (\<exists>q. rec (nat c) = Some (Inr q)))"
  using assms
proof (induction vmap arbitrary: vis vsets)
  case Nil
  then show ?case by simp
next
  case (Cons vn vmap)
  from Cons.prems obtain vis1 vset where
    inner: "variantNodes_loop rec sz (fst vn) (snd vn) vis (VariantSet [] []) = Some (Inr (vis1, vset))"
    by (auto split: option.splits sum.splits)
  from variantNodes_loop_success[OF inner]
  have i1: "vis1 = vis \<union> set (concat (map (\<lambda>v. primChildren (snd v)) (snd vn)))"
    "distinct (concat (map (\<lambda>v. primChildren (snd v)) (snd vn)))"
    "set (concat (map (\<lambda>v. primChildren (snd v)) (snd vn))) \<inter> vis = {}"
    "variantSet vset = emplace_all (map (\<lambda>kv. (fst kv, variant_of (built_by rec) (snd kv))) (snd vn)) []"
    "vs_name vset = (if snd vn = [] then [] else fst vn)"
    "\<forall>c\<in>set (concat (map (\<lambda>v. primChildren (snd v)) (snd vn))).
        0 \<le> c \<and> nat c \<le> sz \<and> (\<exists>q. rec (nat c) = Some (Inr q))"
    by simp_all
  have vs: "vset = variantSet_of (built_by rec) (fst vn) (snd vn)"
    using i1(4,5) by (cases vset) (simp add: variantSet_of_def)
  from Cons.prems inner
  have rest: "variantNodeMap_loop rec sz vmap vis1 (map_emplace (fst vn) vset vsets) = Some (Inr (vis', vsets'))"
    by simp
  note ih = Cons.IH[OF rest]
  let ?f = "\<lambda>vs. concat (map (\<lambda>v. primChildren (snd v)) (snd vs))"
  define H where "H = ?f vn"
  define R where "R = concat (map ?f vmap)"
  have split: "concat (map ?f (vn # vmap)) = H @ R" by (simp add: H_def R_def)
  have h: "vis1 = vis \<union> set H" "distinct H" "set H \<inter> vis = {}"
    "\<forall>c\<in>set H. 0 \<le> c \<and> nat c \<le> sz \<and> (\<exists>q. rec (nat c) = Some (Inr q))"
    using i1(1,2,3,6) by (simp_all only: H_def)
  have r: "vis' = vis1 \<union> set R" "distinct R" "set R \<inter> vis1 = {}"
    "\<forall>c\<in>set R. 0 \<le> c \<and> nat c \<le> sz \<and> (\<exists>q. rec (nat c) = Some (Inr q))"
    using ih unfolding R_def by blast+
  have v1: "vis' = vis \<union> set (H @ R)"
    using h(1) r(1) by auto
  have v2: "distinct (H @ R)"
    using h(1,2) r(2,3) by auto
  have v3: "set (H @ R) \<inter> vis = {}"
    using h(1,3) r(3) by auto
  have v4: "vsets' = emplace_all (map (\<lambda>vs. (fst vs, variantSet_of (built_by rec) (fst vs) (snd vs))) (vn # vmap)) vsets"
    using ih vs by simp
  have v5: "\<forall>c\<in>set (H @ R). 0 \<le> c \<and> nat c \<le> sz \<and> (\<exists>q. rec (nat c) = Some (Inr q))"
    using h(4) r(4) by auto
  from v1 v2 v3 v4 v5 show ?case unfolding split by blast
qed

lemma children_loop_success:
  assumes "children_loop rec cs vis acc = Some (Inr acc')"
  shows "acc' = acc @ map (built_by rec) (filter (\<lambda>c. int c \<notin> vis) cs)
         \<and> (\<forall>c\<in>set (filter (\<lambda>c. int c \<notin> vis) cs). \<exists>q. rec c = Some (Inr q))"
  using assms
proof (induction cs arbitrary: acc)
  case Nil
  then show ?case by simp
next
  case (Cons c cs)
  show ?case
  proof (cases "int c \<in> vis")
    case True
    with Cons.prems have "children_loop rec cs vis acc = Some (Inr acc')" by simp
    from Cons.IH[OF this] True show ?thesis by simp
  next
    case False
    with Cons.prems obtain q where q: "rec c = Some (Inr q)"
      by (auto split: option.splits sum.splits)
    with Cons.prems False have "children_loop rec cs vis (acc @ [q]) = Some (Inr acc')" by simp
    from Cons.IH[OF this] False q show ?thesis by simp
  qed
qed

lemma ConstructPrimTreeRec_success:
  assumes "ConstructPrimTreeRec (Suc n) i nodes False = Some (Inr p)"
  shows "i < length nodes
         \<and> p = Prim (prim (nodes ! i)) (typeName (nodes ! i))
                 (variantSets_of (built n nodes) (nodes ! i))
                 (map (built n nodes) (ordinary_child_indices (nodes ! i)))
         \<and> distinct (variant_child_indices (nodes ! i))
         \<and> (\<forall>c\<in>set (variant_child_indices (nodes ! i)).
               0 \<le> c \<and> (\<exists>q. ConstructPrimTreeRec n (nat c) nodes False = Some (Inr q)))
         \<and> (\<forall>c\<in>set (ordinary_child_indices (nodes ! i)).
               \<exists>q. ConstructPrimTreeRec n c nodes False = Some (Inr q))"
proof -
  let ?rec = "\<lambda>i. ConstructPrimTreeRec n i nodes False"
  from assms have inb: "i < length nodes" by (auto split: if_splits)
  with assms obtain vis vsets where
    vl: "variantNodeMap_loop ?rec (length nodes) (variantNodeMap (nodes ! i)) {} [] = Some (Inr (vis, vsets))"
    by (auto simp add: Let_def split: option.splits sum.splits)
  with assms inb obtain ch where
    cl: "children_loop ?rec (children (nodes ! i)) vis [] = Some (Inr ch)"
    and p: "p = Prim (prim (nodes ! i)) (typeName (nodes ! i)) vsets ch"
    by (auto simp add: Let_def split: option.splits sum.splits)
  from variantNodeMap_loop_success[OF vl]
  have a: "vis = set (variant_child_indices (nodes ! i))"
    "distinct (variant_child_indices (nodes ! i))"
    "vsets = variantSets_of (built n nodes) (nodes ! i)"
    "\<forall>c\<in>set (variant_child_indices (nodes ! i)). 0 \<le> c \<and> (\<exists>q. ?rec (nat c) = Some (Inr q))"
    by (simp_all add: variant_child_indices_def variantSets_of_def built_def)
  from children_loop_success[OF cl] a(1)
  have b: "ch = map (built n nodes) (ordinary_child_indices (nodes ! i))"
    "\<forall>c\<in>set (ordinary_child_indices (nodes ! i)). \<exists>q. ?rec c = Some (Inr q)"
    by (simp_all add: ordinary_child_indices_def built_def)
  from inb p a b show ?thesis by simp
qed

subsection \<open>Maps with ascending keys\<close>

lemma map_emplace_last:
  "\<forall>kv\<in>set m. fst kv < k \<Longrightarrow> map_emplace k v m = m @ [(k, v)]"
proof (induction m)
  case Nil
  show ?case by simp
next
  case (Cons x m)
  obtain k' v' where x: "x = (k', v')" by (cases x)
  from Cons.prems x have lt: "k' < k" by simp
  from Cons.prems have "\<forall>kv\<in>set m. fst kv < k" by simp
  from lt have "\<not> k < k'" "k \<noteq> k'" by auto
  with Cons.IH[OF \<open>\<forall>kv\<in>set m. fst kv < k\<close>] x show ?case by simp
qed

lemma emplace_all_ascending:
  "sorted_wrt (<) (map fst (acc @ xs)) \<Longrightarrow> emplace_all xs acc = acc @ xs"
proof (induction xs arbitrary: acc)
  case Nil
  show ?case by simp
next
  case (Cons x xs)
  from Cons.prems have lt: "\<forall>kv\<in>set acc. fst kv < fst x"
    by (auto simp add: sorted_wrt_append)
  from Cons.prems have "sorted_wrt (<) (map fst ((acc @ [x]) @ xs))" by simp
  from Cons.IH[OF this] map_emplace_last[OF lt, of "snd x"] show ?case by simp
qed

lemma emplace_all_std_map: "std_map_ok xs \<Longrightarrow> emplace_all xs [] = xs"
  using emplace_all_ascending[of "[]" xs] by (simp add: std_map_ok_def)


lemma std_map_ok_map: "std_map_ok xs \<Longrightarrow> std_map_ok (map (\<lambda>kv. (fst kv, f kv)) xs)"
  by (simp add: std_map_ok_def comp_def)



lemma variantSets_of_std_map:
  assumes "std_map_ok (variantNodeMap node)" and "\<forall>vs\<in>set (variantNodeMap node). std_map_ok (snd vs)"
  shows "variantSets_of b node
           = map (\<lambda>vs. (fst vs, VariantSet (if snd vs = [] then [] else fst vs)
                                    (map (\<lambda>kv. (fst kv, variant_of b (snd kv))) (snd vs))))
                 (variantNodeMap node)"
proof -
  have inner: "\<And>vs. vs \<in> set (variantNodeMap node) \<Longrightarrow>
      variantSet_of b (fst vs) (snd vs)
        = VariantSet (if snd vs = [] then [] else fst vs) (map (\<lambda>kv. (fst kv, variant_of b (snd kv))) (snd vs))"
  proof -
    fix vs assume "vs \<in> set (variantNodeMap node)"
    with assms(2) have "std_map_ok (snd vs)" by blast
    then have "std_map_ok (map (\<lambda>kv. (fst kv, variant_of b (snd kv))) (snd vs))"
      by (rule std_map_ok_map)
    then show "variantSet_of b (fst vs) (snd vs)
        = VariantSet (if snd vs = [] then [] else fst vs) (map (\<lambda>kv. (fst kv, variant_of b (snd kv))) (snd vs))"
      by (simp add: variantSet_of_def emplace_all_std_map)
  qed
  have "std_map_ok (map (\<lambda>vs. (fst vs, variantSet_of b (fst vs) (snd vs))) (variantNodeMap node))"
    using assms(1) by (rule std_map_ok_map)
  then have "variantSets_of b node = map (\<lambda>vs. (fst vs, variantSet_of b (fst vs) (snd vs))) (variantNodeMap node)"
    by (simp add: variantSets_of_def emplace_all_std_map)
  also have "\<dots> = map (\<lambda>vs. (fst vs, VariantSet (if snd vs = [] then [] else fst vs)
                                    (map (\<lambda>kv. (fst kv, variant_of b (snd kv))) (snd vs))))
                 (variantNodeMap node)"
    using inner by (intro map_cong) simp_all
  finally show ?thesis .
qed



section \<open>The concrete scenes\<close>

lemmas scene_defs = Read_def eval_defs vc_def vnode_def xform_node_def xform_value_def

lemmas store_defs = variant_store_def duplicate_variant_store_def shared_child_store_def
  xform_node_def vnode_def

lemma Read_variant_scene:
  "Read plain_Collab Toplevel variant_scene init_Impl
     = (Some True, init_Impl\<lparr>toplevel_prims := [0], prim_nodes := variant_store\<rparr>)"
  by (simp add: variant_scene_def variant_store_def scene_defs)


lemma Read_shared_child_scene:
  "Read plain_Collab Toplevel shared_child_scene init_Impl
     = (Some True, init_Impl\<lparr>toplevel_prims := [0, 2], prim_nodes := shared_child_store\<rparr>)"
  by (simp add: shared_child_scene_def shared_child_store_def scene_defs)

lemma Construct_variant_store_A:
  "ConstructPrimTreeRec (Suc (Suc 0)) 0 variant_store False
     = Some (Inr (Prim (xform_value ''A'') ''Xform''
          [(''v'', VariantSet ''v''
              [(''a'', Variant empty_PrimMeta [] [Prim (xform_value ''C'') ''Xform'' [] []]),
               (''b'', Variant empty_PrimMeta [] [])])]
          []))"
  by (simp add: store_defs)



section \<open>The reconstruction pass as a whole\<close>

subsection \<open>Errors and the loop over the top-level indices\<close>








lemma toplevel_prims_loop_success:
  assumes "toplevel_prims_loop fuel idxs s = Some (True, s')"
  shows "s' = s\<lparr>stage := (stage s)\<lparr>root_prims := root_prims (stage s)
                                 @ map (built fuel (prim_nodes s)) idxs\<rparr>\<rparr>
         \<and> (\<forall>i\<in>set idxs. \<exists>p. ConstructPrimTreeRec fuel i (prim_nodes s) False = Some (Inr p))"
  using assms
proof (induction idxs arbitrary: s)
  case Nil
  then show ?case by simp
next
  case (Cons a idxs)
  show ?case
  proof (cases "ConstructPrimTreeRec fuel a (prim_nodes s) False")
    case None
    with Cons.prems show ?thesis by simp
  next
    case (Some r)
    show ?thesis
    proof (cases r)
      case (Inl e)
      with Some Cons.prems show ?thesis by simp
    next
      case (Inr p)
      let ?s = "s\<lparr>stage := (stage s)\<lparr>root_prims := root_prims (stage s) @ [p]\<rparr>\<rparr>"
      from Some Inr Cons.prems have "toplevel_prims_loop fuel idxs ?s = Some (True, s')" by simp
      from Cons.IH[OF this] Some Inr show ?thesis by (simp add: built_def)
    qed
  qed
qed

subsection \<open>A failed pass\<close>






subsection \<open>The payloads of the output and the calls of the pass\<close>

lemma variantSets_prims_map:
  "variantSets_prims (map (map_prod id (map_VariantSet f)) vsets) = map f (variantSets_prims vsets)"
  by (simp add: variantSets_prims_def variantSet_prims_def map_concat VariantSet.map_sel
        Variant.map_sel o_def)

lemma payloads_Prim:
  "payloads (Prim d t vsets ch)
     = d # concat (map payloads (variantSets_prims vsets @ ch))"
  by (simp add: variantSets_prims_map)

lemma variantSets_prims_variantSets_of:
  assumes "std_map_ok (variantNodeMap node)" and "\<forall>vs\<in>set (variantNodeMap node). std_map_ok (snd vs)"
  shows "variantSets_prims (variantSets_of b node) = map (\<lambda>c. b (nat c)) (variant_child_indices node)"
  unfolding variantSets_of_std_map[OF assms]
  by (simp add: variantSets_prims_def variantSet_prims_def variant_child_indices_def variant_of_def
        map_concat o_def)

lemma listed_children_success:
  assumes "ConstructPrimTreeRec (Suc n) i nodes False = Some (Inr p)"
      and "c \<in> set (listed_children (nodes ! i))"
  shows "\<exists>q. ConstructPrimTreeRec n c nodes False = Some (Inr q)"
proof -
  note s = ConstructPrimTreeRec_success[OF assms(1)]
  from assms(2) consider (v) k where "k \<in> set (variant_child_indices (nodes ! i))" "c = nat k"
    | (o) "c \<in> set (ordinary_child_indices (nodes ! i))"
    by (auto simp add: listed_children_def)
  then show ?thesis
  proof cases
    case v
    with s show ?thesis by blast
  next
    case o
    with s show ?thesis by blast
  qed
qed

lemma payloads_emitted:
  assumes "store_maps_ok nodes"
      and "ConstructPrimTreeRec n i nodes False = Some (Inr p)"
  shows "payloads p = map (\<lambda>j. prim (nodes ! j)) (emitted n nodes i)"
  using assms(2)
proof (induction n arbitrary: i p)
  case 0
  then show ?case by simp
next
  case (Suc n)
  note s = ConstructPrimTreeRec_success[OF Suc.prems]
  let ?node = "nodes ! i"
  let ?b = "built n nodes"
  from s have inb: "i < length nodes" by simp
  then have "?node \<in> set nodes" by simp
  with assms(1) have ok: "std_map_ok (variantNodeMap ?node)"
    "\<forall>vs\<in>set (variantNodeMap ?node). std_map_ok (snd vs)"
    unfolding store_maps_ok_def by blast+
  from s have p: "p = Prim (prim ?node) (typeName ?node) (variantSets_of ?b ?node)
                       (map ?b (ordinary_child_indices ?node))" by simp
  have ch: "variantSets_prims (variantSets_of ?b ?node) @ map ?b (ordinary_child_indices ?node)
              = map ?b (listed_children ?node)"
    by (simp add: variantSets_prims_variantSets_of[OF ok] listed_children_def o_def)
  have each: "payloads (?b c) = map (\<lambda>j. prim (nodes ! j)) (emitted n nodes c)"
    if "c \<in> set (listed_children ?node)" for c
  proof -
    from listed_children_success[OF Suc.prems that]
    obtain q where q: "ConstructPrimTreeRec n c nodes False = Some (Inr q)" by blast
    then have "?b c = q" by (simp add: built_def)
    with Suc.IH[OF q] show ?thesis by simp
  qed
  have "payloads p = prim ?node # concat (map payloads (map ?b (listed_children ?node)))"
    unfolding p payloads_Prim ch ..
  also have "map payloads (map ?b (listed_children ?node))
               = map (\<lambda>c. map (\<lambda>j. prim (nodes ! j)) (emitted n nodes c)) (listed_children ?node)"
    using each by simp
  finally show ?case by (simp add: map_concat o_def)
qed


subsection \<open>Counting the calls\<close>

lemma count_list_concat:
  "count_list (concat (map g xs)) x = sum_list (map (\<lambda>r. count_list (g r) x) xs)"
  by (induction xs) simp_all

lemma count_list_concat_nth:
  "count_list (concat (map g xs)) x = (\<Sum>y = 0..<length xs. count_list (g (xs ! y)) x)"
  by (simp add: count_list_concat sum_list_sum_nth)

lemma count_list_cases: "count_list (a # xs) x = (if x = a then 1 else 0) + count_list xs x"
  by simp

lemma closure_concat:
  fixes c :: "nat \<Rightarrow> nat \<Rightarrow> nat"
  assumes "\<forall>r\<in>set R. count_list (g r) x
              = (if x = r then 1 else 0) + (\<Sum>y = 0..<N. count_list (g r) y * c y x)"
  shows "count_list (concat (map g R)) x
           = count_list R x + (\<Sum>y = 0..<N. count_list (concat (map g R)) y * c y x)"
  using assms
proof (induction R)
  case Nil
  then show ?case by simp
next
  case (Cons r R)
  from Cons.prems have r: "count_list (g r) x
              = (if x = r then 1 else 0) + (\<Sum>y = 0..<N. count_list (g r) y * c y x)" by simp
  from Cons.prems have "\<forall>r\<in>set R. count_list (g r) x
              = (if x = r then 1 else 0) + (\<Sum>y = 0..<N. count_list (g r) y * c y x)" by simp
  from Cons.IH[OF this]
  have R: "count_list (concat (map g R)) x
           = count_list R x + (\<Sum>y = 0..<N. count_list (concat (map g R)) y * c y x)" .
  have "(\<Sum>y = 0..<N. count_list (concat (map g (r # R))) y * c y x)
          = (\<Sum>y = 0..<N. count_list (g r) y * c y x)
            + (\<Sum>y = 0..<N. count_list (concat (map g R)) y * c y x)"
    by (simp add: distrib_right sum.distrib)
  moreover have "count_list (concat (map g (r # R))) x
          = count_list (g r) x + count_list (concat (map g R)) x" by simp
  moreover have "count_list (r # R) x = (if x = r then 1 else 0) + count_list R x"
    by (rule count_list_cases)
  ultimately show ?case using r R by presburger
qed

lemma emitted_closure:
  assumes "ConstructPrimTreeRec n i nodes False = Some (Inr p)"
  shows "set (emitted n nodes i) \<subseteq> {0..<length nodes}
         \<and> count_list (emitted n nodes i) x
             = (if x = i then 1 else 0)
               + (\<Sum>y = 0..<length nodes. count_list (emitted n nodes i) y
                                          * count_list (listed_children (nodes ! y)) x)"
  using assms
proof (induction n arbitrary: i p x)
  case 0
  then show ?case by simp
next
  case (Suc n)
  let ?N = "length nodes"
  let ?L = "\<lambda>y. listed_children (nodes ! y)"
  let ?c = "\<lambda>y x. count_list (?L y) x"
  let ?g = "emitted n nodes"
  let ?E = "concat (map ?g (?L i))"
  note s = ConstructPrimTreeRec_success[OF Suc.prems]
  from s have inb: "i < ?N" by simp
  have ih: "set (?g r) \<subseteq> {0..<?N}
            \<and> count_list (?g r) x = (if x = r then 1 else 0) + (\<Sum>y = 0..<?N. count_list (?g r) y * ?c y x)"
    if "r \<in> set (?L i)" for r x
  proof -
    from listed_children_success[OF Suc.prems that]
    obtain q where "ConstructPrimTreeRec n r nodes False = Some (Inr q)" by blast
    then show ?thesis by (rule Suc.IH)
  qed
  have sub: "set (emitted (Suc n) nodes i) \<subseteq> {0..<?N}"
    using inb ih by auto
  have "\<forall>r\<in>set (?L i). count_list (?g r) x
          = (if x = r then 1 else 0) + (\<Sum>y = 0..<?N. count_list (?g r) y * ?c y x)"
    using ih by blast
  then have E: "count_list ?E x = ?c i x + (\<Sum>y = 0..<?N. count_list ?E y * ?c y x)"
    by (rule closure_concat)
  have "(\<Sum>y = 0..<?N. count_list (i # ?E) y * ?c y x)
          = (\<Sum>y = 0..<?N. (if y = i then 1 else 0) * ?c y x) + (\<Sum>y = 0..<?N. count_list ?E y * ?c y x)"
    unfolding count_list_cases by (simp add: distrib_right sum.distrib)
  also have "(\<Sum>y = 0..<?N. (if y = i then 1 else 0) * ?c y x) = ?c i x"
    using inb by (simp add: if_distrib[of "\<lambda>v. v * _"] sum.delta cong: if_cong)
  finally have S: "(\<Sum>y = 0..<?N. count_list (i # ?E) y * ?c y x)
          = ?c i x + (\<Sum>y = 0..<?N. count_list ?E y * ?c y x)" .
  have "count_list (emitted (Suc n) nodes i) x = (if x = i then 1 else 0) + count_list ?E x"
    by simp
  with E S have "count_list (emitted (Suc n) nodes i) x
          = (if x = i then 1 else 0) + (\<Sum>y = 0..<?N. count_list (i # ?E) y * ?c y x)"
    by presburger
  with sub show ?case by simp
qed

lemma count_one_distinct: "\<forall>x\<in>set xs. count_list xs x = 1 \<Longrightarrow> distinct xs"
proof (induction xs)
  case Nil
  then show ?case by simp
next
  case (Cons a xs)
  from Cons.prems have "count_list xs a = 0" by simp
  then have a: "a \<notin> set xs" by (simp add: count_list_0_iff)
  have "\<forall>x\<in>set xs. count_list xs x = 1"
  proof
    fix x assume x: "x \<in> set xs"
    with a have "x \<noteq> a" by blast
    from Cons.prems x have "count_list (a # xs) x = 1" by simp
    with \<open>x \<noteq> a\<close> show "count_list xs x = 1" by (simp split: if_splits)
  qed
  with Cons.IH a show ?case by simp
qed

lemma each_index_once:
  assumes ok: "\<forall>r\<in>set R. \<exists>p. ConstructPrimTreeRec n r nodes False = Some (Inr p)"
      and once: "listed_once R nodes"
      and after: "children_after_parent nodes"
      and x: "x < length nodes"
  shows "count_list (concat (map (emitted n nodes) R)) x = 1"
  using x
proof (induction x rule: less_induct)
  case (less x)
  let ?N = "length nodes"
  let ?c = "\<lambda>y x. count_list (listed_children (nodes ! y)) x"
  let ?M = "concat (map (emitted n nodes) R)"
  have "\<forall>r\<in>set R. count_list (emitted n nodes r) x
          = (if x = r then 1 else 0)
            + (\<Sum>y = 0..<?N. count_list (emitted n nodes r) y * ?c y x)"
  proof
    fix r assume "r \<in> set R"
    with ok obtain p where "ConstructPrimTreeRec n r nodes False = Some (Inr p)" by blast
    from emitted_closure[OF this]
    show "count_list (emitted n nodes r) x
          = (if x = r then 1 else 0)
            + (\<Sum>y = 0..<?N. count_list (emitted n nodes r) y * ?c y x)" by blast
  qed
  then have cl: "count_list ?M x = count_list R x + (\<Sum>y = 0..<?N. count_list ?M y * ?c y x)"
    by (rule closure_concat)
  have "(\<Sum>y = 0..<?N. count_list ?M y * ?c y x) = (\<Sum>y = 0..<?N. ?c y x)"
  proof (rule sum.cong)
    fix y assume y: "y \<in> {0..<?N}"
    show "count_list ?M y * ?c y x = ?c y x"
    proof (cases "y < x")
      case True
      with less.prems have "y < ?N" by simp
      with True less.IH have "count_list ?M y = 1" by blast
      then show ?thesis by simp
    next
      case False
      have "x \<notin> set (listed_children (nodes ! y))"
      proof
        assume "x \<in> set (listed_children (nodes ! y))"
        with after y have "y < x" by (simp add: children_after_parent_def)
        with False show False by simp
      qed
      then have "?c y x = 0" by (simp add: count_list_0_iff)
      then show ?thesis by simp
    qed
  qed (rule refl)
  with cl have "count_list ?M x = count_list R x + (\<Sum>y = 0..<?N. ?c y x)" by simp
  also have "\<dots> = count_list (R @ concat (map listed_children nodes)) x"
    by (simp add: count_list_concat_nth)
  also have "\<dots> = 1" using once less.prems by (simp add: listed_once_def)
  finally show ?case .
qed

lemma emitted_all_once:
  assumes ok: "\<forall>r\<in>set R. \<exists>p. ConstructPrimTreeRec n r nodes False = Some (Inr p)"
      and once: "listed_once R nodes"
      and after: "children_after_parent nodes"
  shows "distinct (concat (map (emitted n nodes) R))
         \<and> set (concat (map (emitted n nodes) R)) = {0..<length nodes}"
proof -
  let ?M = "concat (map (emitted n nodes) R)"
  have one: "count_list ?M x = 1" if "x < length nodes" for x
    using ok once after that by (rule each_index_once)
  have sub: "set ?M \<subseteq> {0..<length nodes}"
  proof -
    have "set (emitted n nodes r) \<subseteq> {0..<length nodes}" if "r \<in> set R" for r
    proof -
      from ok that obtain p where "ConstructPrimTreeRec n r nodes False = Some (Inr p)" by blast
      from emitted_closure[OF this] show ?thesis by blast
    qed
    then show ?thesis by auto
  qed
  have "\<forall>x\<in>set ?M. count_list ?M x = 1"
  proof
    fix x assume "x \<in> set ?M"
    with sub have "x < length nodes" by auto
    then show "count_list ?M x = 1" by (rule one)
  qed
  then have d: "distinct ?M" by (rule count_one_distinct)
  have "{0..<length nodes} \<subseteq> set ?M"
  proof
    fix x assume "x \<in> {0..<length nodes}"
    then have "count_list ?M x = 1" using one by simp
    then have "count_list ?M x \<noteq> 0" by simp
    then show "x \<in> set ?M" by (simp add: count_list_0_iff)
  qed
  with sub d show ?thesis by blast
qed


subsection \<open>The output of a pass that succeeds\<close>

lemma Construct_shared_child_store_A:
  "ConstructPrimTreeRec (Suc (Suc 0)) 0 shared_child_store False
     = Some (Inr (Prim (xform_value ''A'') ''Xform'' [] [Prim (xform_value ''C'') ''Xform'' [] []]))"
  by (simp add: store_defs)

lemma Construct_shared_child_store_B:
  "ConstructPrimTreeRec (Suc (Suc 0)) (Suc (Suc 0)) shared_child_store False
     = Some (Inr (Prim (xform_value ''B'') ''Xform''
          [(''v'', VariantSet ''v''
              [(''a'', Variant empty_PrimMeta [] [Prim (xform_value ''C'') ''Xform'' [] []])])]
          []))"
  by (simp add: store_defs)

text \<open>
  C3, refuted. The parser's callbacks on \<open>shared_child_scene\<close> leave a store in which the
  index 1 is in the child list of node 0 and in a variant of node 2. \<^verbatim>\<open>ReconstructStage\<close>
  returns \<^verbatim>\<open>true\<close>, and the Prim of index 1 is in the output twice.
\<close>

theorem index_listed_under_two_nodes_emitted_twice:
  "ReconstructStage plain_Collab (Suc (Suc 0))
       (snd (Read plain_Collab Toplevel shared_child_scene init_Impl))
     = Some (True, init_Impl\<lparr>toplevel_prims := [0, 2], prim_nodes := shared_child_store,
          stage := (stage init_Impl)\<lparr>root_prims :=
            [Prim (xform_value ''A'') ''Xform'' [] [Prim (xform_value ''C'') ''Xform'' [] []],
             Prim (xform_value ''B'') ''Xform''
               [(''v'', VariantSet ''v''
                   [(''a'', Variant empty_PrimMeta [] [Prim (xform_value ''C'') ''Xform'' [] []])])]
               []]\<rparr>\<rparr>)"
  unfolding Read_shared_child_scene
  by (simp add: ReconstructStage_def Construct_shared_child_store_A
        Construct_shared_child_store_B init_Impl_def plain_Collab_def numeral_2_eq_2
        del: ConstructPrimTreeRec.simps)

text \<open>
  C3, amended. Let \<^verbatim>\<open>ReconstructStage\<close> return \<^verbatim>\<open>true\<close> on a store (whose maps are
  \<^verbatim>\<open>std::map\<close>s) in which every index in \<open>[0, N)\<close> is listed once in all: in the top-level
  list, among the variant children of one node, or among the other children of one node;
  and in which a node lists only indices above its own. Then the tree handed to
  \<^verbatim>\<open>compute_absolute_prim_path_and_assign_prim_id\<close> has one root per top-level index, and
  the payloads of its Prims, in pre-order, are the payloads of the nodes of a sequence of
  indices in which every index in \<open>[0, N)\<close> occurs exactly once.
\<close>

theorem every_index_emitted_once:
  assumes "ReconstructStage X fuel s = Some (True, s')"
      and "store_maps_ok (prim_nodes s)"
      and "listed_once (toplevel_prims s) (prim_nodes s)"
      and "children_after_parent (prim_nodes s)"
  shows "s' = s\<lparr>stage := compute_absolute_prim_path_and_assign_prim_id X
                   ((stage s)\<lparr>root_prims := map (built fuel (prim_nodes s)) (toplevel_prims s)\<rparr>)\<rparr>
         \<and> concat (map payloads (map (built fuel (prim_nodes s)) (toplevel_prims s)))
             = map (\<lambda>j. prim (prim_nodes s ! j))
                 (concat (map (emitted fuel (prim_nodes s)) (toplevel_prims s)))
         \<and> distinct (concat (map (emitted fuel (prim_nodes s)) (toplevel_prims s)))
         \<and> set (concat (map (emitted fuel (prim_nodes s)) (toplevel_prims s)))
             = {0..<length (prim_nodes s)}"
proof -
  let ?s0 = "s\<lparr>stage := (stage s)\<lparr>root_prims := []\<rparr>\<rparr>"
  let ?nodes = "prim_nodes s"
  let ?R = "toplevel_prims s"
  from assms(1) obtain s1 where l: "toplevel_prims_loop fuel ?R ?s0 = Some (True, s1)"
    and s': "s' = s1\<lparr>stage := compute_absolute_prim_path_and_assign_prim_id X (stage s1)\<rparr>"
    by (auto simp add: ReconstructStage_def split: option.splits if_splits)
  from toplevel_prims_loop_success[OF l]
  have s1: "s1 = ?s0\<lparr>stage := (stage ?s0)\<lparr>root_prims := root_prims (stage ?s0)
                                 @ map (built fuel (prim_nodes ?s0)) ?R\<rparr>\<rparr>"
    and ok: "\<forall>i\<in>set ?R. \<exists>p. ConstructPrimTreeRec fuel i ?nodes False = Some (Inr p)"
    by simp_all
  have a: "s' = s\<lparr>stage := compute_absolute_prim_path_and_assign_prim_id X
                   ((stage s)\<lparr>root_prims := map (built fuel ?nodes) ?R\<rparr>)\<rparr>"
    unfolding s' s1 by simp
  have each: "payloads (built fuel ?nodes r) = map (\<lambda>j. prim (?nodes ! j)) (emitted fuel ?nodes r)"
    if "r \<in> set ?R" for r
  proof -
    from ok that obtain p where p: "ConstructPrimTreeRec fuel r ?nodes False = Some (Inr p)" by blast
    then have "built fuel ?nodes r = p" by (simp add: built_def)
    with payloads_emitted[OF assms(2) p] show ?thesis by simp
  qed
  have "map payloads (map (built fuel ?nodes) ?R)
          = map (\<lambda>r. map (\<lambda>j. prim (?nodes ! j)) (emitted fuel ?nodes r)) ?R"
    using each by simp
  then have b: "concat (map payloads (map (built fuel ?nodes) ?R))
             = map (\<lambda>j. prim (?nodes ! j)) (concat (map (emitted fuel ?nodes) ?R))"
    by (simp only: map_concat map_map o_def)
  note c = emitted_all_once[OF ok assms(3,4)]
  from a b c show ?thesis by simp
qed

theorem every_index_emitted_once_witness:
  "concat (map payloads (map (built (Suc (Suc 0)) variant_store) [0]))
     = [xform_value ''A'', xform_value ''C'']
   \<and> concat (map (emitted (Suc (Suc 0)) variant_store) [0]) = [0, 1]
   \<and> set (concat (map (emitted (Suc (Suc 0)) variant_store) [0])) = {0..<2}"
proof -
  let ?s = "init_Impl\<lparr>toplevel_prims := [0], prim_nodes := variant_store\<rparr> :: unit Impl"
  let ?s' = "?s\<lparr>stage := (stage ?s)\<lparr>root_prims := [Prim (xform_value ''A'') ''Xform''
          [(''v'', VariantSet ''v''
              [(''a'', Variant empty_PrimMeta [] [Prim (xform_value ''C'') ''Xform'' [] []]),
               (''b'', Variant empty_PrimMeta [] [])])]
          []]\<rparr>\<rparr>"
  have r: "ReconstructStage plain_Collab (Suc (Suc 0)) ?s = Some (True, ?s')"
    by (simp add: ReconstructStage_def Construct_variant_store_A plain_Collab_def
          del: ConstructPrimTreeRec.simps)
  have len: "length variant_store = 2" by (simp add: variant_store_def)
  have l0: "listed_children (variant_store ! 0) = [1]"
    by (simp add: listed_children_def ordinary_child_indices_def variant_child_indices_def store_defs)
  have l1: "listed_children (variant_store ! Suc 0) = []"
    by (simp add: listed_children_def ordinary_child_indices_def variant_child_indices_def store_defs)
  have lc: "map listed_children variant_store = [[1], []]"
    using l0 l1 by (simp add: variant_store_def)
  have m: "store_maps_ok (prim_nodes ?s)"
    by (simp add: store_maps_ok_def std_map_ok_def store_defs)
  have o: "listed_once (toplevel_prims ?s) (prim_nodes ?s)"
    by (simp add: listed_once_def len lc upt_rec[of 0] upt_rec[of 1] upt_rec[of 2])
  have u: "[0..<length variant_store] = [0, Suc 0]"
    by (simp add: variant_store_def)
  have c: "children_after_parent (prim_nodes ?s)"
    by (simp add: children_after_parent_def u l0 l1)
  note t = every_index_emitted_once[OF r m o c]
  have e: "concat (map (emitted (Suc (Suc 0)) variant_store) [0]) = [0, 1]"
    by (simp add: l0 l1)
  have p: "map (\<lambda>j. prim (variant_store ! j)) [0, 1] = [xform_value ''A'', xform_value ''C'']"
    by (simp add: store_defs)
  from t have t2: "payloads (built (Suc (Suc 0)) variant_store 0)
                     = map (\<lambda>j. prim (variant_store ! j)) (emitted (Suc (Suc 0)) variant_store 0)
                   \<and> set (emitted (Suc (Suc 0)) variant_store 0) = {0..<length variant_store}"
    by (simp del: ConstructPrimTreeRec.simps emitted.simps)
  have e0: "emitted (Suc (Suc 0)) variant_store 0 = [0, 1]"
    using e by (simp del: emitted.simps)
  from t2 show ?thesis
    unfolding e0 p len by (simp del: ConstructPrimTreeRec.simps emitted.simps add: e0)
qed
end
